theory Spec2Isabelle
  imports Complex_Main "HOL-Library.Word" "HOL-Library.While_Combinator"
begin

section \<open>Floating-point values of the C program\<close>

text \<open>
  The kernels of \<^verbatim>\<open>index-hl.c\<close> compute in C \<^verbatim>\<open>float\<close> and \<^verbatim>\<open>double\<close>. Both are modelled by one
  type of values, a finite real or one of the three special values, together with the
  rounding of IEEE 754 (round to nearest, ties to even) to 24 respectively 53 significant
  bits. Every operation rounds once, as a target with \<^verbatim>\<open>FLT_EVAL_METHOD = 0\<close> and without
  fused multiply-add contraction does (x86-64 with SSE2). The sign of zero is not kept:
  a division by zero yields the infinity with the sign of the numerator; no result of the
  kernels depends on it.
\<close>

datatype fp = Fin real | PInf | NInf | NaN

text \<open>The binary exponent of a positive real, found by halving or doubling. The fuel
  exceeds every exponent of the two formats.\<close>

fun halvings :: "nat \<Rightarrow> real \<Rightarrow> nat" where
  "halvings k a = (if k = 0 \<or> a < 2 then 0 else Suc (halvings (k - 1) (a / 2)))"

fun doublings :: "nat \<Rightarrow> real \<Rightarrow> nat" where
  "doublings k a = (if k = 0 \<or> 1 \<le> a then 0 else Suc (doublings (k - 1) (2 * a)))"

declare halvings.simps [simp del] doublings.simps [simp del]

definition expo :: "real \<Rightarrow> int" where
  "expo a = (if 1 \<le> a then int (halvings 1100 a) else - int (doublings 1100 a))"

definition pow2 :: "int \<Rightarrow> real" where
  "pow2 i = (if 0 \<le> i then 2 ^ nat i else 1 / 2 ^ nat (- i))"

text \<open>Rounding a real to the nearest integer, ties to the even one.\<close>

definition rne :: "real \<Rightarrow> int" where
  "rne y = (let f = \<lfloor>y\<rfloor>; r = y - of_int f
            in if r < 1 / 2 then f else if 1 / 2 < r then f + 1
               else if even f then f else f + 1)"

text \<open>Rounding to \<open>p\<close> significant bits with least exponent \<open>emin\<close> (subnormal numbers
  below it), then the overflow to an infinity above the greatest exponent.\<close>

definition rnd :: "nat \<Rightarrow> int \<Rightarrow> real \<Rightarrow> real" where
  "rnd p emin x = (if x = 0 then 0
     else let u = pow2 (max (expo \<bar>x\<bar>) emin - (int p - 1))
          in of_int (rne (x / u)) * u)"

definition to_fp :: "nat \<Rightarrow> int \<Rightarrow> int \<Rightarrow> real \<Rightarrow> fp" where
  "to_fp p emin emax x = (let y = rnd p emin x
     in if pow2 (emax + 1) \<le> \<bar>y\<bar> then (if 0 < y then PInf else NInf) else Fin y)"

definition f32 :: "real \<Rightarrow> fp" where
  "f32 = to_fp 24 (- 126) 127"

definition f64 :: "real \<Rightarrow> fp" where
  "f64 = to_fp 53 (- 1022) 1023"

text \<open>The arithmetic operations; the first argument is the rounding of the format the
  operation is carried out in.\<close>

fun fp_neg :: "fp \<Rightarrow> fp" where
  "fp_neg (Fin x) = Fin (- x)"
| "fp_neg PInf = NInf"
| "fp_neg NInf = PInf"
| "fp_neg NaN = NaN"

fun fp_abs :: "fp \<Rightarrow> fp" where
  "fp_abs (Fin x) = Fin \<bar>x\<bar>"
| "fp_abs PInf = PInf"
| "fp_abs NInf = PInf"
| "fp_abs NaN = NaN"

fun fp_add :: "(real \<Rightarrow> fp) \<Rightarrow> fp \<Rightarrow> fp \<Rightarrow> fp" where
  "fp_add r (Fin x) (Fin y) = r (x + y)"
| "fp_add r NaN b = NaN"
| "fp_add r a NaN = NaN"
| "fp_add r PInf NInf = NaN"
| "fp_add r NInf PInf = NaN"
| "fp_add r PInf b = PInf"
| "fp_add r NInf b = NInf"
| "fp_add r a PInf = PInf"
| "fp_add r a NInf = NInf"

definition fp_sub :: "(real \<Rightarrow> fp) \<Rightarrow> fp \<Rightarrow> fp \<Rightarrow> fp" where
  "fp_sub r a b = fp_add r a (fp_neg b)"

fun fp_sgn_inf :: "bool \<Rightarrow> fp" where
  "fp_sgn_inf positive = (if positive then PInf else NInf)"

fun fp_mul :: "(real \<Rightarrow> fp) \<Rightarrow> fp \<Rightarrow> fp \<Rightarrow> fp" where
  "fp_mul r (Fin x) (Fin y) = r (x * y)"
| "fp_mul r NaN b = NaN"
| "fp_mul r a NaN = NaN"
| "fp_mul r PInf (Fin y) = (if y = 0 then NaN else fp_sgn_inf (0 < y))"
| "fp_mul r NInf (Fin y) = (if y = 0 then NaN else fp_sgn_inf (y < 0))"
| "fp_mul r (Fin x) PInf = (if x = 0 then NaN else fp_sgn_inf (0 < x))"
| "fp_mul r (Fin x) NInf = (if x = 0 then NaN else fp_sgn_inf (x < 0))"
| "fp_mul r PInf PInf = PInf"
| "fp_mul r NInf NInf = PInf"
| "fp_mul r PInf NInf = NInf"
| "fp_mul r NInf PInf = NInf"

fun fp_div :: "(real \<Rightarrow> fp) \<Rightarrow> fp \<Rightarrow> fp \<Rightarrow> fp" where
  "fp_div r (Fin x) (Fin y) =
     (if y = 0 then (if x = 0 then NaN else fp_sgn_inf (0 < x)) else r (x / y))"
| "fp_div r NaN b = NaN"
| "fp_div r a NaN = NaN"
| "fp_div r (Fin x) PInf = Fin 0"
| "fp_div r (Fin x) NInf = Fin 0"
| "fp_div r PInf (Fin y) = fp_sgn_inf (0 \<le> y)"
| "fp_div r NInf (Fin y) = fp_sgn_inf (y < 0)"
| "fp_div r PInf b = NaN"
| "fp_div r NInf b = NaN"

text \<open>\<^verbatim>\<open>sqrt\<close> of \<^verbatim>\<open>math.h\<close>, correctly rounded in double precision.\<close>

fun fp_sqrt :: "fp \<Rightarrow> fp" where
  "fp_sqrt (Fin x) = (if x < 0 then NaN else f64 (sqrt x))"
| "fp_sqrt PInf = PInf"
| "fp_sqrt NInf = NaN"
| "fp_sqrt NaN = NaN"

text \<open>The comparisons; each is false as soon as one side is a NaN.\<close>

fun fp_lt :: "fp \<Rightarrow> fp \<Rightarrow> bool" where
  "fp_lt (Fin x) (Fin y) = (x < y)"
| "fp_lt NaN b = False"
| "fp_lt a NaN = False"
| "fp_lt PInf b = False"
| "fp_lt a NInf = False"
| "fp_lt NInf b = True"
| "fp_lt a PInf = True"

fun fp_eq :: "fp \<Rightarrow> fp \<Rightarrow> bool" where
  "fp_eq (Fin x) (Fin y) = (x = y)"
| "fp_eq PInf PInf = True"
| "fp_eq NInf NInf = True"
| "fp_eq a b = False"

definition fp_gt :: "fp \<Rightarrow> fp \<Rightarrow> bool" where
  "fp_gt a b = fp_lt b a"

definition fp_le :: "fp \<Rightarrow> fp \<Rightarrow> bool" where
  "fp_le a b = (fp_lt a b \<or> fp_eq a b)"

text \<open>Conversions. An \<^verbatim>\<open>int\<close> becomes the nearest \<^verbatim>\<open>float\<close>; a \<^verbatim>\<open>float\<close> becomes a
  \<^verbatim>\<open>double\<close> unchanged; a \<^verbatim>\<open>double\<close> stored in a \<^verbatim>\<open>float\<close> is rounded again; a decimal
  constant of the source is a \<^verbatim>\<open>double\<close>.\<close>

definition int_to_float :: "int \<Rightarrow> fp" where
  "int_to_float n = f32 (of_int n)"

fun narrow :: "fp \<Rightarrow> fp" where
  "narrow (Fin x) = f32 x"
| "narrow PInf = PInf"
| "narrow NInf = NInf"
| "narrow NaN = NaN"

definition dlit :: "real \<Rightarrow> fp" where
  "dlit x = f64 x"

definition flit :: "real \<Rightarrow> fp" where
  "flit x = narrow (dlit x)"

section \<open>Outcomes and the conversion to the output type\<close>

text \<open>
  The output arrays hold C \<^verbatim>\<open>short\<close> values, 16-bit two's complement. Converting a floating
  value to \<^verbatim>\<open>short\<close> discards the fraction; when the integral part is not a \<^verbatim>\<open>short\<close>, or
  the value is an infinity or a NaN, C leaves the behaviour undefined, which is an outcome
  of its own here. \<^verbatim>\<open>exit(1)\<close> is the second way a call does not return; the third outcome
  stands for a loop that would not end.
\<close>

type_synonym short = "16 word"

datatype error = Undefined_conversion | Fatal_exit | Diverged

definition trunc_zero :: "real \<Rightarrow> int" where
  "trunc_zero x = (if 0 \<le> x then \<lfloor>x\<rfloor> else \<lceil>x\<rceil>)"

definition SHRT_MAX :: int where
  "SHRT_MAX = 32767"

definition SHRT_MIN :: int where
  "SHRT_MIN = - 32768"

fun cast_short :: "fp \<Rightarrow> error + short" where
  "cast_short (Fin x) =
     (if SHRT_MIN \<le> trunc_zero x \<and> trunc_zero x \<le> SHRT_MAX
      then Inr (word_of_int (trunc_zero x)) else Inl Undefined_conversion)"
| "cast_short PInf = Inl Undefined_conversion"
| "cast_short NInf = Inl Undefined_conversion"
| "cast_short NaN = Inl Undefined_conversion"

text \<open>A band value read from the stack and used in floating arithmetic: the \<^verbatim>\<open>short\<close> is
  promoted to \<^verbatim>\<open>int\<close> and converted.\<close>

definition band_float :: "short \<Rightarrow> fp" where
  "band_float v = int_to_float (sint v)"

section \<open>The elementwise kernels, per cell and date\<close>

text \<open>Each function below is the \<^verbatim>\<open>else\<close> branch of a kernel's date loop: the value
  written to \<^verbatim>\<open>ts->tss_[t][p]\<close> for an unmasked cell and a valid date, from the band values
  read at that cell and date.\<close>

definition index_band_px :: "short \<Rightarrow> error + short" where
  "index_band_px v = Inr v"

definition index_differenced_px :: "short \<Rightarrow> short \<Rightarrow> short \<Rightarrow> error + short" where
  "index_differenced_px v1 v2 nodata =
     (let scale = flit 10000;
          tmp = int_to_float (sint v1 + sint v2);
          ind = fp_div f32 (int_to_float (sint v1 - sint v2)) tmp
      in if fp_eq tmp (int_to_float 0) \<or> fp_lt ind (int_to_float (- 1))
            \<or> fp_gt ind (int_to_float 1)
         then Inr nodata
         else cast_short (fp_mul f32 ind scale))"

definition index_cont_remove_px ::
  "fp \<Rightarrow> fp \<Rightarrow> fp \<Rightarrow> short \<Rightarrow> short \<Rightarrow> short \<Rightarrow> error + short" where
  "index_cont_remove_px w0 w1 w2 v0 v1 v2 =
     (let tmp = fp_div f32
            (fp_add f32 (fp_mul f32 (band_float v1) (fp_sub f32 w2 w0))
                        (fp_mul f32 (band_float v2) (fp_sub f32 w0 w1)))
            (fp_sub f32 w2 w1)
      in cast_short (fp_sub f32 (band_float v0) tmp))"

definition index_ratio_minus1_px :: "short \<Rightarrow> short \<Rightarrow> short \<Rightarrow> error + short" where
  "index_ratio_minus1_px v1 v2 nodata =
     (let scale = flit 1000;
          ind = narrow (fp_sub f64 (fp_div f32 (band_float v1) (band_float v2)) (dlit 1))
      in if sint v2 = 0 \<or> fp_gt (fp_mul f32 ind scale) (int_to_float SHRT_MAX)
            \<or> fp_lt (fp_mul f32 ind scale) (int_to_float SHRT_MIN)
         then Inr nodata
         else cast_short (fp_mul f32 ind scale))"

definition index_msrre_px :: "short \<Rightarrow> short \<Rightarrow> short \<Rightarrow> error + short" where
  "index_msrre_px v1 v2 nodata =
     (let scale = flit 10000
      in if sint v2 \<noteq> 0 then
           (let upper = narrow (fp_sub f64 (fp_div f32 (band_float v1) (band_float v2)) (dlit 1));
                lower = narrow (fp_sqrt
                          (fp_add f64 (fp_div f32 (band_float v1) (band_float v2)) (dlit 1)));
                ind = fp_div f32 upper lower
            in if fp_eq lower (int_to_float 0)
                  \<or> fp_gt (fp_mul f32 ind scale) (int_to_float SHRT_MAX)
                  \<or> fp_lt (fp_mul f32 ind scale) (int_to_float SHRT_MIN)
               then Inr nodata
               else cast_short (fp_mul f32 ind scale))
         else Inr nodata)"

text \<open>The kernelized difference calls \<^verbatim>\<open>exp\<close> of the C library, which is a parameter here
  (a function on \<^verbatim>\<open>double\<close> values). Its guard on non-positive bands sits beside the
  validity flag in the source and is part of the function.\<close>

definition index_kernelized_px ::
  "(fp \<Rightarrow> fp) \<Rightarrow> short \<Rightarrow> short \<Rightarrow> short \<Rightarrow> error + short" where
  "index_kernelized_px libm_exp v1 v2 nodata =
     (if sint v1 \<le> 0 \<or> sint v2 \<le> 0 then Inr nodata
      else
        (let scale = flit 10000;
             sigma = narrow (fp_mul f64 (dlit (1 / 2)) (f64 (of_int (sint v1 + sint v2))));
             diff = int_to_float (sint v1 - sint v2);
             tmp = narrow (libm_exp
                     (fp_div f32 (fp_neg (fp_mul f32 diff diff))
                                 (fp_mul f32 (fp_mul f32 (int_to_float 2) sigma) sigma)));
             ind = fp_div f32 (fp_sub f32 (int_to_float 1) tmp) (fp_add f32 (int_to_float 1) tmp)
         in cast_short (fp_mul f32 ind scale)))"

definition index_resistance_px ::
  "fp \<Rightarrow> fp \<Rightarrow> fp \<Rightarrow> fp \<Rightarrow> bool \<Rightarrow> short \<Rightarrow> short \<Rightarrow> short \<Rightarrow> short \<Rightarrow> error + short" where
  "index_resistance_px f1 f2 f3 f4 rbc vn vr vb nodata =
     (let scale = flit 10000;
          x = (if rbc then flit 1 else int_to_float 0);
          nir = band_float vn;
          red0 = band_float vr;
          blue = band_float vb;
          red = fp_sub f32 red0 (fp_mul f32 x (fp_sub f32 blue red0));
          tmp = fp_add f32
                  (fp_sub f32 (fp_add f32 nir (fp_mul f32 f2 red)) (fp_mul f32 f3 blue))
                  (fp_mul f32 f4 scale);
          ind = fp_div f32 (fp_mul f32 f1 (fp_sub f32 nir red)) tmp
      in if fp_eq tmp (int_to_float 0) then Inr nodata
         else cast_short (fp_mul f32 ind scale))"

text \<open>The tasseled-cap coefficients, \<^verbatim>\<open>float tc[3][6]\<close>, written as decimal constants in the
  source, and the component selector \<^verbatim>\<open>enum { TCB, TCG, TCW, TCD}\<close>.\<close>

datatype tc_type = TCB | TCG | TCW | TCD

fun tc_num :: "tc_type \<Rightarrow> nat" where
  "tc_num TCB = 0"
| "tc_num TCG = 1"
| "tc_num TCW = 2"
| "tc_num TCD = 3"

definition tc_table :: "real list list" where
  "tc_table =
     [[0.2043, 0.4158, 0.5524, 0.5741, 0.3124, 0.2303],
      [- 0.1603, - 0.2819, - 0.4934, 0.7940, - 0.0002, - 0.1446],
      [0.0315, 0.2021, 0.3102, 0.1594, - 0.6806, - 0.6109]]"

definition tc :: "nat \<Rightarrow> nat \<Rightarrow> fp" where
  "tc i k = flit (tc_table ! i ! k)"

text \<open>One row of the table applied to the six bands: the sum of the source, added from
  the left.\<close>

definition tc_row :: "nat \<Rightarrow> short \<Rightarrow> short \<Rightarrow> short \<Rightarrow> short \<Rightarrow> short \<Rightarrow> short \<Rightarrow> fp" where
  "tc_row i vb vg vr vn vs1 vs2 =
     fp_add f32
       (fp_add f32
         (fp_add f32
           (fp_add f32
             (fp_add f32 (fp_mul f32 (tc i 0) (band_float vb))
                         (fp_mul f32 (tc i 1) (band_float vg)))
             (fp_mul f32 (tc i 2) (band_float vr)))
           (fp_mul f32 (tc i 3) (band_float vn)))
         (fp_mul f32 (tc i 4) (band_float vs1)))
       (fp_mul f32 (tc i 5) (band_float vs2))"

definition index_tasseled_px ::
  "tc_type \<Rightarrow> short \<Rightarrow> short \<Rightarrow> short \<Rightarrow> short \<Rightarrow> short \<Rightarrow> short \<Rightarrow> error + short" where
  "index_tasseled_px type vb vg vr vn vs1 vs2 =
     (let comp0 = (if type = TCD then 0 else tc_num type);
          comp1 = (if type = TCD then 3 else tc_num type + 1);
          x = (if type = TCD then [int_to_float 1, int_to_float (- 1), int_to_float (- 1)]
               else [int_to_float 1, int_to_float 1, int_to_float 1]);
          ind = fold (\<lambda>i ind. fp_add f32 ind (fp_mul f32 (x ! i) (tc_row i vb vg vr vn vs1 vs2)))
                  [comp0..<comp1] (int_to_float 0)
      in cast_short ind)"

section \<open>The stack, the output arrays and the loop over cells and dates\<close>

text \<open>
  One frame of the reflectance stack (\<^verbatim>\<open>ard[t]\<close>): the band values \<^verbatim>\<open>dat[b][p]\<close>, the validity
  flags \<^verbatim>\<open>msk[p]\<close> and the band count of its brick. The output (\<^verbatim>\<open>tsa_t\<close>) holds the index
  \<^verbatim>\<open>tss_[t][p]\<close> and the residual \<^verbatim>\<open>rms_[t][p]\<close>. Arrays are functions from indices, so a
  write is a function update; the caller owns them and they have the extent the counts
  \<^verbatim>\<open>nc\<close> and \<^verbatim>\<open>nt\<close> say. The mask pointer (\<^verbatim>\<open>mask_\<close>) is optional (\<^verbatim>\<open>NULL\<close> is \<open>None\<close>).
\<close>

record ard_t =
  dat :: "nat \<Rightarrow> nat \<Rightarrow> short"
  msk :: "nat \<Rightarrow> bool"
  nbands :: nat

record tsa_t =
  tss :: "nat \<Rightarrow> nat \<Rightarrow> short"
  rms :: "nat \<Rightarrow> nat \<Rightarrow> short"

definition set_tss :: "nat \<Rightarrow> nat \<Rightarrow> short \<Rightarrow> tsa_t \<Rightarrow> tsa_t" where
  "set_tss t p v ts = ts\<lparr>tss := (tss ts)(t := (tss ts t)(p := v))\<rparr>"

definition set_rms :: "nat \<Rightarrow> nat \<Rightarrow> short \<Rightarrow> tsa_t \<Rightarrow> tsa_t" where
  "set_rms t p v ts = ts\<lparr>rms := (rms ts)(t := (rms ts t)(p := v))\<rparr>"

text \<open>A counting loop whose body may end the run.\<close>

primrec for_each :: "nat list \<Rightarrow> (nat \<Rightarrow> 's \<Rightarrow> error + 's) \<Rightarrow> 's \<Rightarrow> error + 's" where
  "for_each [] f s = Inr s"
| "for_each (i # js) f s = (case f i s of Inl e \<Rightarrow> Inl e | Inr s' \<Rightarrow> for_each js f s')"

definition masked :: "(nat \<Rightarrow> bool) option \<Rightarrow> nat \<Rightarrow> bool" where
  "masked maskp p = (case maskp of None \<Rightarrow> False | Some m \<Rightarrow> \<not> m p)"

text \<open>The loop every elementwise kernel is written around: a masked cell gets the
  sentinel at every date; otherwise an invalid date gets the sentinel and a valid one the
  kernel's value. The cells are independent, so the parallel loop is run in order.\<close>

definition kernel_loop ::
  "(nat \<Rightarrow> nat \<Rightarrow> error + short) \<Rightarrow> (nat \<Rightarrow> ard_t) \<Rightarrow> (nat \<Rightarrow> bool) option \<Rightarrow> tsa_t
     \<Rightarrow> nat \<Rightarrow> nat \<Rightarrow> short \<Rightarrow> error + tsa_t" where
  "kernel_loop px ard maskp ts nc nt nodata =
     for_each [0..<nc] (\<lambda>p ts1.
       if masked maskp p then Inr (fold (\<lambda>t. set_tss t p nodata) [0..<nt] ts1)
       else for_each [0..<nt] (\<lambda>t ts2.
              if \<not> msk (ard t) p then Inr (set_tss t p nodata ts2)
              else (case px t p of Inl e \<Rightarrow> Inl e | Inr v \<Rightarrow> Inr (set_tss t p v ts2))) ts1) ts"

definition index_band ::
  "(nat \<Rightarrow> ard_t) \<Rightarrow> (nat \<Rightarrow> bool) option \<Rightarrow> tsa_t \<Rightarrow> nat \<Rightarrow> nat \<Rightarrow> nat \<Rightarrow> short
     \<Rightarrow> error + tsa_t" where
  "index_band ard maskp ts b nc nt nodata =
     kernel_loop (\<lambda>t p. index_band_px (dat (ard t) b p)) ard maskp ts nc nt nodata"

definition index_differenced ::
  "(nat \<Rightarrow> ard_t) \<Rightarrow> (nat \<Rightarrow> bool) option \<Rightarrow> tsa_t \<Rightarrow> nat \<Rightarrow> nat \<Rightarrow> nat \<Rightarrow> nat \<Rightarrow> short
     \<Rightarrow> error + tsa_t" where
  "index_differenced ard maskp ts b1 b2 nc nt nodata =
     kernel_loop (\<lambda>t p. index_differenced_px (dat (ard t) b1 p) (dat (ard t) b2 p) nodata)
       ard maskp ts nc nt nodata"

definition index_cont_remove ::
  "(nat \<Rightarrow> ard_t) \<Rightarrow> (nat \<Rightarrow> bool) option \<Rightarrow> tsa_t \<Rightarrow> nat \<Rightarrow> nat \<Rightarrow> nat \<Rightarrow> fp \<Rightarrow> fp \<Rightarrow> fp
     \<Rightarrow> nat \<Rightarrow> nat \<Rightarrow> short \<Rightarrow> error + tsa_t" where
  "index_cont_remove ard maskp ts b0 b1 b2 w0 w1 w2 nc nt nodata =
     kernel_loop (\<lambda>t p. index_cont_remove_px w0 w1 w2
                           (dat (ard t) b0 p) (dat (ard t) b1 p) (dat (ard t) b2 p))
       ard maskp ts nc nt nodata"

definition index_ratio_minus1 ::
  "(nat \<Rightarrow> ard_t) \<Rightarrow> (nat \<Rightarrow> bool) option \<Rightarrow> tsa_t \<Rightarrow> nat \<Rightarrow> nat \<Rightarrow> nat \<Rightarrow> nat \<Rightarrow> short
     \<Rightarrow> error + tsa_t" where
  "index_ratio_minus1 ard maskp ts b1 b2 nc nt nodata =
     kernel_loop (\<lambda>t p. index_ratio_minus1_px (dat (ard t) b1 p) (dat (ard t) b2 p) nodata)
       ard maskp ts nc nt nodata"

definition index_msrre ::
  "(nat \<Rightarrow> ard_t) \<Rightarrow> (nat \<Rightarrow> bool) option \<Rightarrow> tsa_t \<Rightarrow> nat \<Rightarrow> nat \<Rightarrow> nat \<Rightarrow> nat \<Rightarrow> short
     \<Rightarrow> error + tsa_t" where
  "index_msrre ard maskp ts b1 b2 nc nt nodata =
     kernel_loop (\<lambda>t p. index_msrre_px (dat (ard t) b1 p) (dat (ard t) b2 p) nodata)
       ard maskp ts nc nt nodata"

definition index_kernelized ::
  "(fp \<Rightarrow> fp) \<Rightarrow> (nat \<Rightarrow> ard_t) \<Rightarrow> (nat \<Rightarrow> bool) option \<Rightarrow> tsa_t \<Rightarrow> nat \<Rightarrow> nat
     \<Rightarrow> nat \<Rightarrow> nat \<Rightarrow> short \<Rightarrow> error + tsa_t" where
  "index_kernelized libm_exp ard maskp ts b1 b2 nc nt nodata =
     kernel_loop (\<lambda>t p. index_kernelized_px libm_exp (dat (ard t) b1 p) (dat (ard t) b2 p) nodata)
       ard maskp ts nc nt nodata"

definition index_resistance ::
  "(nat \<Rightarrow> ard_t) \<Rightarrow> (nat \<Rightarrow> bool) option \<Rightarrow> tsa_t \<Rightarrow> nat \<Rightarrow> nat \<Rightarrow> nat
     \<Rightarrow> fp \<Rightarrow> fp \<Rightarrow> fp \<Rightarrow> fp \<Rightarrow> bool \<Rightarrow> nat \<Rightarrow> nat \<Rightarrow> short \<Rightarrow> error + tsa_t" where
  "index_resistance ard maskp ts n r b f1 f2 f3 f4 rbc nc nt nodata =
     kernel_loop (\<lambda>t p. index_resistance_px f1 f2 f3 f4 rbc
                           (dat (ard t) n p) (dat (ard t) r p) (dat (ard t) b p) nodata)
       ard maskp ts nc nt nodata"

definition index_tasseled ::
  "(nat \<Rightarrow> ard_t) \<Rightarrow> (nat \<Rightarrow> bool) option \<Rightarrow> tsa_t \<Rightarrow> tc_type
     \<Rightarrow> nat \<Rightarrow> nat \<Rightarrow> nat \<Rightarrow> nat \<Rightarrow> nat \<Rightarrow> nat \<Rightarrow> nat \<Rightarrow> nat \<Rightarrow> short \<Rightarrow> error + tsa_t" where
  "index_tasseled ard maskp ts type b g r n s1 s2 nc nt nodata =
     kernel_loop (\<lambda>t p. index_tasseled_px type (dat (ard t) b p) (dat (ard t) g p)
                           (dat (ard t) r p) (dat (ard t) n p) (dat (ard t) s1 p)
                           (dat (ard t) s2 p))
       ard maskp ts nc nt nodata"

section \<open>Spectral mixture analysis\<close>

text \<open>
  The solver calls the GNU Scientific Library for the products of matrices and vectors and
  for the inversion by LU decomposition. The library is not part of the repository, and
  the order in which its BLAS adds up a product is not fixed by the source; its routines
  are parameters of the model, taken as functions that return. Vectors and matrices are
  lists (of rows).
\<close>

record gsl =
  dgemm_tn :: "fp list list \<Rightarrow> fp list list"
  dgemv_t :: "fp list list \<Rightarrow> fp list \<Rightarrow> fp list"
  dgemv_n :: "fp list list \<Rightarrow> fp list \<Rightarrow> fp list"
  lu_invert :: "fp list list \<Rightarrow> fp list list"

text \<open>\<^verbatim>\<open>gsl_vector_max\<close>, \<^verbatim>\<open>gsl_vector_max_index\<close> and \<^verbatim>\<open>gsl_vector_min\<close> scan the
  vector from its first element and stop at the first NaN, which they return.\<close>

fun scan_max :: "fp \<Rightarrow> fp list \<Rightarrow> fp" where
  "scan_max m [] = m"
| "scan_max m (x # xs) = (if x = NaN then NaN else scan_max (if fp_gt x m then x else m) xs)"

fun scan_max_index :: "fp \<Rightarrow> nat \<Rightarrow> nat \<Rightarrow> fp list \<Rightarrow> nat" where
  "scan_max_index m imax i [] = imax"
| "scan_max_index m imax i (x # xs) =
     (if x = NaN then i
      else if fp_gt x m then scan_max_index x i (Suc i) xs
      else scan_max_index m imax (Suc i) xs)"

fun scan_min :: "fp \<Rightarrow> fp list \<Rightarrow> fp" where
  "scan_min m [] = m"
| "scan_min m (x # xs) = (if x = NaN then NaN else scan_min (if fp_lt x m then x else m) xs)"

definition gsl_vector_max :: "fp list \<Rightarrow> fp" where
  "gsl_vector_max v = scan_max (hd v) v"

definition gsl_vector_max_index :: "fp list \<Rightarrow> nat" where
  "gsl_vector_max_index v = scan_max_index (hd v) 0 0 v"

definition gsl_vector_min :: "fp list \<Rightarrow> fp" where
  "gsl_vector_min v = scan_min (hd v) v"

text \<open>The parameters of the analysis (\<^verbatim>\<open>par_sma_t\<close>) and the endmember table
  (\<^verbatim>\<open>aux_emb_t\<close>): \<open>nb\<close> bands by \<open>ne\<close> materials. The selected fraction \<open>emb\<close> counts
  from one and is taken to lie within the materials.\<close>

record par_sma_t =
  sto :: bool
  pos :: bool
  shn :: bool
  orms :: bool
  emb :: nat

record aux_emb_t =
  nb :: nat
  ne :: nat
  tab :: "nat \<Rightarrow> nat \<Rightarrow> fp"

definition tol :: fp where
  "tol = Fin (pow2 (- 126))"

definition INT_MAX :: real where
  "INT_MAX = 2147483647"

text \<open>The matrix \<open>Z\<close>, with its row of ones when the fractions are to sum to one, and the
  spectrum \<open>x\<close> of one cell and date, with its last element one in that case.\<close>

definition endmember_matrix :: "par_sma_t \<Rightarrow> aux_emb_t \<Rightarrow> fp list list" where
  "endmember_matrix sma em =
     map (\<lambda>i. map (\<lambda>j. tab em i j) [0..<ne em]) [0..<nb em]
     @ (if sto sma then [replicate (ne em) (Fin 1)] else [])"

definition spectrum :: "par_sma_t \<Rightarrow> aux_emb_t \<Rightarrow> ard_t \<Rightarrow> nat \<Rightarrow> fp list" where
  "spectrum sma em frame p =
     map (\<lambda>i. fp_div f32 (band_float (dat frame i p)) (flit 10000)) [0..<nb em]
     @ (if sto sma then [Fin 1] else [])"

text \<open>The working vectors of the constrained inversion. \<open>P\<close> and \<open>R\<close> hold only the
  values 0 and 1 in the source and are lists of truth values here; \<open>s_min\<close> is assigned
  before it is read.\<close>

record nnls =
  nn_P :: "bool list"
  nn_R :: "bool list"
  nn_d :: "fp list"
  nn_s :: "fp list"
  nn_w :: "fp list"
  nn_smin :: fp
  nn_it :: nat

text \<open>The indices of the passive set below \<open>n\<close>, and the least-squares solution restricted
  to the passive set: its least element, and the solution spread over all materials with
  zero at the active ones (steps B4 and C5-6). A vector the library fills has the length
  it was allocated with.\<close>

definition passive_idx :: "nat \<Rightarrow> bool list \<Rightarrow> nat list" where
  "passive_idx n P = filter (\<lambda>i. P ! i) [0..<n]"

definition solve_passive ::
  "gsl \<Rightarrow> nat \<Rightarrow> fp list list \<Rightarrow> fp list \<Rightarrow> bool list \<Rightarrow> fp \<times> fp list" where
  "solve_passive G M ZtZ Ztx P =
     (let ZtZ_sub = map (\<lambda>i. map (\<lambda>j. ZtZ ! i ! j) (passive_idx M P)) (passive_idx M P);
          Ztx_sub = map (\<lambda>i. Ztx ! i) (passive_idx M P);
          s_gsl = dgemv_n G (lu_invert G ZtZ_sub) Ztx_sub;
          s_sub = map (\<lambda>k. s_gsl ! k) [0..<length (passive_idx M P)]
      in (gsl_vector_min s_sub,
          map (\<lambda>i. if P ! i then s_sub ! length (passive_idx i P) else Fin 0) [0..<M]))"

text \<open>One pass of the inner loop (steps C2 to C6).\<close>

definition inner_step :: "gsl \<Rightarrow> nat \<Rightarrow> fp list list \<Rightarrow> fp list \<Rightarrow> nnls \<Rightarrow> nnls" where
  "inner_step G M ZtZ Ztx st =
     (let a = map (\<lambda>i. if fp_le (nn_s st ! i) tol \<and> nn_P st ! i
                        then fp_div f64 (nn_d st ! i) (fp_sub f64 (nn_d st ! i) (nn_s st ! i))
                        else Fin INT_MAX) [0..<M];
          alpha = gsl_vector_min a;
          d' = map (\<lambda>i. fp_add f64 (nn_d st ! i)
                          (fp_mul f64 alpha (fp_sub f64 (nn_s st ! i) (nn_d st ! i)))) [0..<M];
          P' = map (\<lambda>i. if fp_lt (fp_abs (d' ! i)) tol \<and> nn_P st ! i then False
                         else nn_P st ! i) [0..<M];
          R' = map (\<lambda>i. if fp_lt (fp_abs (d' ! i)) tol \<and> nn_P st ! i then True
                         else nn_R st ! i) [0..<M];
          sol = solve_passive G M ZtZ Ztx P'
      in st\<lparr>nn_P := P', nn_R := R', nn_d := d', nn_s := snd sol, nn_smin := fst sol,
            nn_it := nn_it st + 1\<rparr>)"

function inner_loop ::
  "gsl \<Rightarrow> nat \<Rightarrow> fp list list \<Rightarrow> fp list \<Rightarrow> nat \<Rightarrow> nnls \<Rightarrow> nnls" where
  "inner_loop G M ZtZ Ztx itmax st =
     (if fp_le (nn_smin st) (Fin 0) \<and> nn_it st < itmax
      then inner_loop G M ZtZ Ztx itmax (inner_step G M ZtZ Ztx st)
      else st)"
  by pat_completeness auto
termination
  by (relation "measure (\<lambda>(G, M, ZtZ, Ztx, itmax, st). itmax - nn_it st)")
     (auto simp: inner_step_def Let_def)

declare inner_loop.simps [simp del]

text \<open>The main loop (steps B1 to B6), its start (steps A1 to A4) and the whole constrained
  inversion. The loop is a \<open>while_option\<close>: that it ends is a theorem, not a premise.\<close>

definition outer_cond :: "nnls \<Rightarrow> bool" where
  "outer_cond st = (True \<in> set (nn_R st) \<and> fp_gt (gsl_vector_max (nn_w st)) tol)"

definition outer_step ::
  "gsl \<Rightarrow> nat \<Rightarrow> fp list list \<Rightarrow> fp list \<Rightarrow> nat \<Rightarrow> nnls \<Rightarrow> nnls" where
  "outer_step G M ZtZ Ztx itmax st =
     (let m = gsl_vector_max_index (nn_w st);
          P1 = (nn_P st)[m := True];
          R1 = (nn_R st)[m := False];
          sol = solve_passive G M ZtZ Ztx P1;
          st2 = inner_loop G M ZtZ Ztx itmax
                  (st\<lparr>nn_P := P1, nn_R := R1, nn_s := snd sol, nn_smin := fst sol\<rparr>);
          w0 = dgemv_n G ZtZ (nn_s st2)
      in st2\<lparr>nn_d := nn_s st2,
             nn_w := map (\<lambda>i. if nn_R st2 ! i then fp_sub f64 (Ztx ! i) (w0 ! i)
                               else Fin (- 1)) [0..<M]\<rparr>)"

definition nnls_init :: "gsl \<Rightarrow> nat \<Rightarrow> fp list list \<Rightarrow> fp list \<Rightarrow> nnls" where
  "nnls_init G M ZtZ Ztx =
     (let w0 = dgemv_n G ZtZ (replicate M (Fin 0))
      in \<lparr>nn_P = replicate M False, nn_R = replicate M True,
          nn_d = replicate M (Fin 0), nn_s = replicate M (Fin 0),
          nn_w = map (\<lambda>i. fp_sub f64 (Ztx ! i) (w0 ! i)) [0..<M],
          nn_smin = Fin 0, nn_it = 0\<rparr>)"

definition nnls_solve :: "gsl \<Rightarrow> nat \<Rightarrow> fp list list \<Rightarrow> fp list \<Rightarrow> nnls option" where
  "nnls_solve G M ZtZ Ztx =
     while_option outer_cond (outer_step G M ZtZ Ztx (30 * M)) (nnls_init G M ZtZ Ztx)"

text \<open>The fractions of one spectrum: the unconstrained inversion, or the constrained one.\<close>

definition unmix :: "gsl \<Rightarrow> par_sma_t \<Rightarrow> nat \<Rightarrow> fp list list \<Rightarrow> fp list \<Rightarrow> fp list option" where
  "unmix G sma M ZtZ Ztx =
     (if \<not> pos sma
      then Some (let d_gsl = dgemv_n G (lu_invert G ZtZ) Ztx in map (\<lambda>j. d_gsl ! j) [0..<M])
      else map_option nn_d (nnls_solve G M ZtZ Ztx))"

text \<open>The residual, scaled for the output, and the shade normalization.\<close>

definition rmse_scaled :: "fp list list \<Rightarrow> fp list \<Rightarrow> fp list \<Rightarrow> nat \<Rightarrow> nat \<Rightarrow> fp" where
  "rmse_scaled Z x d L M =
     (let rsum = fold (\<lambda>i rsum.
                   let dsum = fold (\<lambda>j dsum. fp_add f64 dsum (fp_mul f64 (d ! j) (Z ! i ! j)))
                                [0..<M] (Fin 0);
                       res = fp_sub f64 (x ! i) dsum
                   in fp_add f64 rsum (fp_mul f64 res res)) [0..<L] (Fin 0)
      in fp_mul f64 (fp_sqrt (fp_div f64 rsum (f64 (of_nat L)))) (flit 10000))"

definition shade_normalize :: "nat \<Rightarrow> fp list \<Rightarrow> fp list" where
  "shade_normalize M d =
     (let f = fp_div f64 (dlit 1) (fp_sub f64 (dlit 1) (d ! (M - 1)))
      in (fold (\<lambda>i d1. d1[i := fp_mul f64 (d1 ! i) f]) [0..<M - 1] d)[M - 1 := Fin 0])"

text \<open>What one valid cell and date writes: the selected fraction and, when asked for, the
  residual (which is converted first).\<close>

definition retain :: "par_sma_t \<Rightarrow> nat \<Rightarrow> fp list \<Rightarrow> error + short" where
  "retain sma M d =
     cast_short (fp_mul f64 ((if shn sma then shade_normalize M d else d) ! (emb sma - 1))
                            (flit 10000))"

definition index_unmixed_px ::
  "gsl \<Rightarrow> par_sma_t \<Rightarrow> aux_emb_t \<Rightarrow> fp list list \<Rightarrow> fp list list \<Rightarrow> ard_t \<Rightarrow> nat
     \<Rightarrow> error + (short \<times> short option)" where
  "index_unmixed_px G sma em Z ZtZ frame p =
     (let M = ne em;
          L = nb em + (if sto sma then 1 else 0);
          x = spectrum sma em frame p;
          Ztx = dgemv_t G Z x
      in case unmix G sma M ZtZ Ztx of
           None \<Rightarrow> Inl Diverged
         | Some d \<Rightarrow>
             (case (if orms sma then map_sum id Some (cast_short (rmse_scaled Z x d L M))
                    else Inr None) of
                Inl e \<Rightarrow> Inl e
              | Inr r \<Rightarrow> (case retain sma M d of Inl e \<Rightarrow> Inl e | Inr v \<Rightarrow> Inr (v, r))))"

definition index_unmixed ::
  "gsl \<Rightarrow> (nat \<Rightarrow> ard_t) \<Rightarrow> (nat \<Rightarrow> bool) option \<Rightarrow> tsa_t \<Rightarrow> nat \<Rightarrow> nat \<Rightarrow> short
     \<Rightarrow> par_sma_t \<Rightarrow> aux_emb_t \<Rightarrow> error + tsa_t" where
  "index_unmixed G ard maskp ts nc nt nodata sma em =
     (if nb em \<noteq> nbands (ard 0) then Inl Fatal_exit
      else
        (let Z = endmember_matrix sma em;
             ZtZ = dgemm_tn G Z
         in for_each [0..<nc] (\<lambda>p ts1.
              if masked maskp p then Inr (fold (\<lambda>t. set_tss t p nodata) [0..<nt] ts1)
              else for_each [0..<nt] (\<lambda>t ts2.
                     if \<not> msk (ard t) p
                     then Inr (if orms sma then set_rms t p nodata (set_tss t p nodata ts2)
                               else set_tss t p nodata ts2)
                     else (case index_unmixed_px G sma em Z ZtZ (ard t) p of
                             Inl e \<Rightarrow> Inl e
                           | Inr (v, r) \<Rightarrow>
                               Inr (set_tss t p v
                                      (case r of None \<Rightarrow> ts2
                                       | Some e \<Rightarrow> set_rms t p e ts2)))) ts1) ts))"

section \<open>The dispatcher\<close>

text \<open>
  The identifiers of the indices are integer constants declared outside the given files;
  each label of the \<^verbatim>\<open>switch\<close> is a constructor here, and every other integer is
  \<open>IDX_unlisted\<close>, which the \<^verbatim>\<open>default\<close> label takes. The sensor parameters (\<^verbatim>\<open>par_sen_t\<close>)
  give the position of each named band in a frame and the three wavelengths of the
  continuum removal; the request (\<^verbatim>\<open>par_tsa_t\<close>) lists the identifiers and holds the
  parameters of the mixture analysis.
\<close>

datatype index_id =
  IDX_BLU | IDX_GRN | IDX_RED | IDX_NIR | IDX_SW0 | IDX_SW1 | IDX_SW2 | IDX_RE1 | IDX_RE2 | IDX_RE3 | IDX_BNR | IDX_NDV | IDX_EVI | IDX_NBR | IDX_ARV | IDX_SAV | IDX_SRV | IDX_TCB | IDX_TCG | IDX_TCW | IDX_TCD | IDX_NDB | IDX_NDW | IDX_MNW | IDX_NDS | IDX_SMA | IDX_BVV | IDX_BVH | IDX_NDT | IDX_NDM | IDX_KNV | IDX_ND1 | IDX_ND2 | IDX_CRE | IDX_NR1 | IDX_NR2 | IDX_NR3 | IDX_N1n | IDX_N2n | IDX_N3n | IDX_Mre | IDX_Mrn | IDX_CCI | IDX_EV2 | IDX_CSW | IDX_unlisted int

record par_sen_t =
  sen_blue :: nat
  sen_green :: nat
  sen_red :: nat
  sen_nir :: nat
  sen_swir0 :: nat
  sen_swir1 :: nat
  sen_swir2 :: nat
  sen_rededge1 :: nat
  sen_rededge2 :: nat
  sen_rededge3 :: nat
  sen_bnir :: nat
  sen_vv :: nat
  sen_vh :: nat
  sen_w_swir1 :: fp
  sen_w_nir :: fp
  sen_w_swir2 :: fp

record par_tsa_t =
  tsa_index :: "nat \<Rightarrow> index_id"
  tsa_sma :: par_sma_t

datatype retcode = SUCCESS | FAILURE

text \<open>A kernel prints nothing; the second component is what the call writes to the
  standard output. The attribution hook \<^verbatim>\<open>cite_me\<close> has no effect on the arrays and is left
  out.\<close>

definition kernel_done :: "error + tsa_t \<Rightarrow> error + tsa_t \<times> string list" where
  "kernel_done r = (case r of Inl e \<Rightarrow> Inl e | Inr ts \<Rightarrow> Inr (ts, []))"

fun switch_index ::
  "gsl \<Rightarrow> (fp \<Rightarrow> fp) \<Rightarrow> (nat \<Rightarrow> ard_t) \<Rightarrow> tsa_t \<Rightarrow> (nat \<Rightarrow> bool) option \<Rightarrow> nat \<Rightarrow> nat
     \<Rightarrow> short \<Rightarrow> par_sma_t \<Rightarrow> par_sen_t \<Rightarrow> aux_emb_t \<Rightarrow> index_id
     \<Rightarrow> error + tsa_t \<times> string list" where
  "switch_index G libm_exp ard ts maskp nc nt nodata sma sen em IDX_BLU =
     kernel_done (index_band ard maskp ts (sen_blue sen) nc nt nodata)"
| "switch_index G libm_exp ard ts maskp nc nt nodata sma sen em IDX_GRN =
     kernel_done (index_band ard maskp ts (sen_green sen) nc nt nodata)"
| "switch_index G libm_exp ard ts maskp nc nt nodata sma sen em IDX_RED =
     kernel_done (index_band ard maskp ts (sen_red sen) nc nt nodata)"
| "switch_index G libm_exp ard ts maskp nc nt nodata sma sen em IDX_NIR =
     kernel_done (index_band ard maskp ts (sen_nir sen) nc nt nodata)"
| "switch_index G libm_exp ard ts maskp nc nt nodata sma sen em IDX_SW0 =
     kernel_done (index_band ard maskp ts (sen_swir0 sen) nc nt nodata)"
| "switch_index G libm_exp ard ts maskp nc nt nodata sma sen em IDX_SW1 =
     kernel_done (index_band ard maskp ts (sen_swir1 sen) nc nt nodata)"
| "switch_index G libm_exp ard ts maskp nc nt nodata sma sen em IDX_SW2 =
     kernel_done (index_band ard maskp ts (sen_swir2 sen) nc nt nodata)"
| "switch_index G libm_exp ard ts maskp nc nt nodata sma sen em IDX_RE1 =
     kernel_done (index_band ard maskp ts (sen_rededge1 sen) nc nt nodata)"
| "switch_index G libm_exp ard ts maskp nc nt nodata sma sen em IDX_RE2 =
     kernel_done (index_band ard maskp ts (sen_rededge2 sen) nc nt nodata)"
| "switch_index G libm_exp ard ts maskp nc nt nodata sma sen em IDX_RE3 =
     kernel_done (index_band ard maskp ts (sen_rededge3 sen) nc nt nodata)"
| "switch_index G libm_exp ard ts maskp nc nt nodata sma sen em IDX_BNR =
     kernel_done (index_band ard maskp ts (sen_bnir sen) nc nt nodata)"
| "switch_index G libm_exp ard ts maskp nc nt nodata sma sen em IDX_NDV =
     kernel_done (index_differenced ard maskp ts (sen_nir sen) (sen_red sen) nc nt nodata)"
| "switch_index G libm_exp ard ts maskp nc nt nodata sma sen em IDX_EVI =
     kernel_done (index_resistance ard maskp ts (sen_nir sen) (sen_red sen) (sen_blue sen)
        (flit 2.5) (flit 6.0) (flit 7.5) (flit 1.0) False nc nt nodata)"
| "switch_index G libm_exp ard ts maskp nc nt nodata sma sen em IDX_NBR =
     kernel_done (index_differenced ard maskp ts (sen_nir sen) (sen_swir2 sen) nc nt nodata)"
| "switch_index G libm_exp ard ts maskp nc nt nodata sma sen em IDX_ARV =
     kernel_done (index_resistance ard maskp ts (sen_nir sen) (sen_red sen) (sen_blue sen)
        (flit 1.0) (flit 1.0) (flit 0.0) (flit 0.0) True nc nt nodata)"
| "switch_index G libm_exp ard ts maskp nc nt nodata sma sen em IDX_SAV =
     kernel_done (index_resistance ard maskp ts (sen_nir sen) (sen_red sen) (sen_blue sen)
        (flit 1.5) (flit 1.0) (flit 0.0) (flit 0.5) False nc nt nodata)"
| "switch_index G libm_exp ard ts maskp nc nt nodata sma sen em IDX_SRV =
     kernel_done (index_resistance ard maskp ts (sen_nir sen) (sen_red sen) (sen_blue sen)
        (flit 1.5) (flit 1.0) (flit 0.0) (flit 0.5) True nc nt nodata)"
| "switch_index G libm_exp ard ts maskp nc nt nodata sma sen em IDX_TCB =
     kernel_done (index_tasseled ard maskp ts TCB (sen_blue sen) (sen_green sen) (sen_red sen)
        (sen_nir sen) (sen_swir1 sen) (sen_swir2 sen) nc nt nodata)"
| "switch_index G libm_exp ard ts maskp nc nt nodata sma sen em IDX_TCG =
     kernel_done (index_tasseled ard maskp ts TCG (sen_blue sen) (sen_green sen) (sen_red sen)
        (sen_nir sen) (sen_swir1 sen) (sen_swir2 sen) nc nt nodata)"
| "switch_index G libm_exp ard ts maskp nc nt nodata sma sen em IDX_TCW =
     kernel_done (index_tasseled ard maskp ts TCW (sen_blue sen) (sen_green sen) (sen_red sen)
        (sen_nir sen) (sen_swir1 sen) (sen_swir2 sen) nc nt nodata)"
| "switch_index G libm_exp ard ts maskp nc nt nodata sma sen em IDX_TCD =
     kernel_done (index_tasseled ard maskp ts TCD (sen_blue sen) (sen_green sen) (sen_red sen)
        (sen_nir sen) (sen_swir1 sen) (sen_swir2 sen) nc nt nodata)"
| "switch_index G libm_exp ard ts maskp nc nt nodata sma sen em IDX_NDB =
     kernel_done (index_differenced ard maskp ts (sen_swir1 sen) (sen_nir sen) nc nt nodata)"
| "switch_index G libm_exp ard ts maskp nc nt nodata sma sen em IDX_NDW =
     kernel_done (index_differenced ard maskp ts (sen_green sen) (sen_nir sen) nc nt nodata)"
| "switch_index G libm_exp ard ts maskp nc nt nodata sma sen em IDX_MNW =
     kernel_done (index_differenced ard maskp ts (sen_green sen) (sen_swir1 sen) nc nt nodata)"
| "switch_index G libm_exp ard ts maskp nc nt nodata sma sen em IDX_NDS =
     kernel_done (index_differenced ard maskp ts (sen_green sen) (sen_swir1 sen) nc nt nodata)"
| "switch_index G libm_exp ard ts maskp nc nt nodata sma sen em IDX_SMA =
     kernel_done (index_unmixed G ard maskp ts nc nt nodata sma em)"
| "switch_index G libm_exp ard ts maskp nc nt nodata sma sen em IDX_BVV =
     kernel_done (index_band ard maskp ts (sen_vv sen) nc nt nodata)"
| "switch_index G libm_exp ard ts maskp nc nt nodata sma sen em IDX_BVH =
     kernel_done (index_band ard maskp ts (sen_vh sen) nc nt nodata)"
| "switch_index G libm_exp ard ts maskp nc nt nodata sma sen em IDX_NDT =
     kernel_done (index_differenced ard maskp ts (sen_swir1 sen) (sen_swir2 sen) nc nt nodata)"
| "switch_index G libm_exp ard ts maskp nc nt nodata sma sen em IDX_NDM =
     kernel_done (index_differenced ard maskp ts (sen_nir sen) (sen_swir1 sen) nc nt nodata)"
| "switch_index G libm_exp ard ts maskp nc nt nodata sma sen em IDX_KNV =
     kernel_done (index_kernelized libm_exp ard maskp ts (sen_nir sen) (sen_red sen) nc nt nodata)"
| "switch_index G libm_exp ard ts maskp nc nt nodata sma sen em IDX_ND1 =
     kernel_done (index_differenced ard maskp ts (sen_rededge2 sen) (sen_rededge1 sen) nc nt nodata)"
| "switch_index G libm_exp ard ts maskp nc nt nodata sma sen em IDX_ND2 =
     kernel_done (index_differenced ard maskp ts (sen_rededge3 sen) (sen_rededge1 sen) nc nt nodata)"
| "switch_index G libm_exp ard ts maskp nc nt nodata sma sen em IDX_CRE =
     kernel_done (index_ratio_minus1 ard maskp ts (sen_rededge3 sen) (sen_rededge1 sen) nc nt nodata)"
| "switch_index G libm_exp ard ts maskp nc nt nodata sma sen em IDX_NR1 =
     kernel_done (index_differenced ard maskp ts (sen_bnir sen) (sen_rededge1 sen) nc nt nodata)"
| "switch_index G libm_exp ard ts maskp nc nt nodata sma sen em IDX_NR2 =
     kernel_done (index_differenced ard maskp ts (sen_bnir sen) (sen_rededge2 sen) nc nt nodata)"
| "switch_index G libm_exp ard ts maskp nc nt nodata sma sen em IDX_NR3 =
     kernel_done (index_differenced ard maskp ts (sen_bnir sen) (sen_rededge3 sen) nc nt nodata)"
| "switch_index G libm_exp ard ts maskp nc nt nodata sma sen em IDX_N1n =
     kernel_done (index_differenced ard maskp ts (sen_nir sen) (sen_rededge1 sen) nc nt nodata)"
| "switch_index G libm_exp ard ts maskp nc nt nodata sma sen em IDX_N2n =
     kernel_done (index_differenced ard maskp ts (sen_nir sen) (sen_rededge2 sen) nc nt nodata)"
| "switch_index G libm_exp ard ts maskp nc nt nodata sma sen em IDX_N3n =
     kernel_done (index_differenced ard maskp ts (sen_nir sen) (sen_rededge3 sen) nc nt nodata)"
| "switch_index G libm_exp ard ts maskp nc nt nodata sma sen em IDX_Mre =
     kernel_done (index_msrre ard maskp ts (sen_bnir sen) (sen_rededge1 sen) nc nt nodata)"
| "switch_index G libm_exp ard ts maskp nc nt nodata sma sen em IDX_Mrn =
     kernel_done (index_msrre ard maskp ts (sen_nir sen) (sen_rededge1 sen) nc nt nodata)"
| "switch_index G libm_exp ard ts maskp nc nt nodata sma sen em IDX_CCI =
     kernel_done (index_differenced ard maskp ts (sen_green sen) (sen_red sen) nc nt nodata)"
| "switch_index G libm_exp ard ts maskp nc nt nodata sma sen em IDX_EV2 =
     kernel_done (index_resistance ard maskp ts (sen_nir sen) (sen_red sen) (sen_red sen)
        (flit 2.4) (flit 1.0) (flit 0.0) (flit 1.0) False nc nt nodata)"
| "switch_index G libm_exp ard ts maskp nc nt nodata sma sen em IDX_CSW =
     kernel_done (index_cont_remove ard maskp ts (sen_swir1 sen) (sen_nir sen) (sen_swir2 sen)
        (sen_w_swir1 sen) (sen_w_nir sen) (sen_w_swir2 sen) nc nt nodata)"
| "switch_index G libm_exp ard ts maskp nc nt nodata sma sen em (IDX_unlisted k) =
     Inr (ts, [''unknown INDEX''])"

definition tsa_spectral_index ::
  "gsl \<Rightarrow> (fp \<Rightarrow> fp) \<Rightarrow> (nat \<Rightarrow> ard_t) \<Rightarrow> tsa_t \<Rightarrow> (nat \<Rightarrow> bool) option \<Rightarrow> nat \<Rightarrow> nat
     \<Rightarrow> nat \<Rightarrow> short \<Rightarrow> par_tsa_t \<Rightarrow> par_sen_t \<Rightarrow> aux_emb_t
     \<Rightarrow> error + retcode \<times> tsa_t \<times> string list" where
  "tsa_spectral_index G libm_exp ard ts maskp nc nt idx nodata tsa sen em =
     (case switch_index G libm_exp ard ts maskp nc nt nodata (tsa_sma tsa) sen em
             (tsa_index tsa idx) of
        Inl e \<Rightarrow> Inl e
      | Inr (ts', out) \<Rightarrow> Inr (SUCCESS, ts', out))"

section \<open>Notions used in the statements\<close>

text \<open>The exponent of the unit in the last place that \<open>rnd\<close> uses, and the two roundings
  by name.\<close>

definition ulp_exp :: "nat \<Rightarrow> int \<Rightarrow> real \<Rightarrow> int" where
  "ulp_exp p emin x = max (expo \<bar>x\<bar>) emin - (int p - 1)"

definition r32 :: "real \<Rightarrow> real" where
  "r32 = rnd 24 (- 126)"

text \<open>A value that a \<^verbatim>\<open>float\<close> variable can hold.\<close>

definition is_float :: "fp \<Rightarrow> bool" where
  "is_float v = (case v of Fin x \<Rightarrow> f32 x = Fin x | _ \<Rightarrow> True)"

text \<open>The normalized difference of two band values as a real number, as the
  specification writes it.\<close>

definition nd_ratio :: "short \<Rightarrow> short \<Rightarrow> real" where
  "nd_ratio v1 v2 = real_of_int (sint v1 - sint v2) / real_of_int (sint v1 + sint v2)"

text \<open>The tasseled-cap combination of six band values in exact arithmetic, with the
  decimal coefficients of the table, as the specification writes it.\<close>

definition tc_exact :: "tc_type \<Rightarrow> real list \<Rightarrow> real" where
  "tc_exact type bands =
     (let row = (\<lambda>i. \<Sum>k\<leftarrow>[0..<6]. tc_table ! i ! k * bands ! k)
      in case type of TCB \<Rightarrow> row 0 | TCG \<Rightarrow> row 1 | TCW \<Rightarrow> row 2
         | TCD \<Rightarrow> row 0 - row 1 - row 2)"

text \<open>An instance of the library for the examples: a product is added up from the left in
  double precision, and the inverse of a matrix with a single element is its reciprocal.
  It stands for the library on systems with one material only, where the LU decomposition
  has nothing to do.\<close>

definition dot64 :: "fp list \<Rightarrow> fp list \<Rightarrow> fp" where
  "dot64 u v = fold (\<lambda>k acc. fp_add f64 acc (fp_mul f64 (u ! k) (v ! k))) [0..<length u] (Fin 0)"

definition gsl_plain :: gsl where
  "gsl_plain =
     \<lparr>dgemm_tn = (\<lambda>Z. map (\<lambda>i. map (\<lambda>j. dot64 (map (\<lambda>row. row ! i) Z) (map (\<lambda>row. row ! j) Z))
                                    [0..<length (hd Z)]) [0..<length (hd Z)]),
      dgemv_t = (\<lambda>Z x. map (\<lambda>j. dot64 (map (\<lambda>row. row ! j) Z) x) [0..<length (hd Z)]),
      dgemv_n = (\<lambda>A x. map (\<lambda>row. dot64 row x) A),
      lu_invert = (\<lambda>A. map (map (\<lambda>a. fp_div f64 (Fin 1) a)) A)\<rparr>"

text \<open>The sum of the fractions, added in double precision, and its distance from one
  compared with the tolerance of the solver.\<close>

definition fraction_sum :: "fp list \<Rightarrow> fp" where
  "fraction_sum d = fold (\<lambda>x acc. fp_add f64 acc x) d (Fin 0)"

definition sums_to_one :: "fp list \<Rightarrow> bool" where
  "sums_to_one d = (case fraction_sum d of Fin v \<Rightarrow> \<bar>v - 1\<bar> \<le> pow2 (- 126) | _ \<Rightarrow> False)"

text \<open>A smallest mixture problem: one band, one material whose reflectance is 1, both
  constraints on, and a frame whose only band is 0 everywhere.\<close>

definition sma_one :: par_sma_t where
  "sma_one = \<lparr>sto = True, pos = True, shn = False, orms = False, emb = 1\<rparr>"

definition em_one :: aux_emb_t where
  "em_one = \<lparr>nb = 1, ne = 1, tab = (\<lambda>i j. Fin 1)\<rparr>"

definition frame_zero :: ard_t where
  "frame_zero = \<lparr>dat = (\<lambda>b p. 0), msk = (\<lambda>p. True), nbands = 1\<rparr>"

text \<open>The states of the constrained inversion on that problem: after the start and
  after the single pass of the main loop.\<close>

definition nnls_zero :: nnls where
  "nnls_zero = \<lparr>nn_P = [False], nn_R = [True], nn_d = [Fin 0], nn_s = [Fin 0], nn_w = [Fin 1],
                 nn_smin = Fin 0, nn_it = 0\<rparr>"

definition nnls_one :: nnls where
  "nnls_one = \<lparr>nn_P = [True], nn_R = [False], nn_d = [Fin (1 / 2)], nn_s = [Fin (1 / 2)],
                nn_w = [Fin (- 1)], nn_smin = Fin (1 / 2), nn_it = 0\<rparr>"

text \<open>The invariant of the main loop, the measure that decreases with every pass, and the
  agreement of \<open>s\<close> and \<open>s_min\<close> with the passive set.\<close>

definition nnls_inv :: "nat \<Rightarrow> nat \<Rightarrow> nnls \<Rightarrow> bool" where
  "nnls_inv M itmax st =
     (length (nn_P st) = M \<and> length (nn_R st) = M \<and> length (nn_w st) = M
      \<and> (\<forall>i<M. \<not> nn_R st ! i \<longrightarrow> nn_w st ! i = Fin (- 1))
      \<and> nn_it st \<le> itmax \<and> nn_d st = nn_s st
      \<and> (nn_it st < itmax \<longrightarrow> nn_smin st \<noteq> NaN \<longrightarrow> (\<forall>x\<in>set (nn_d st). fp_le (Fin 0) x)))"

definition nnls_measure :: "nat \<Rightarrow> nat \<Rightarrow> nnls \<Rightarrow> nat" where
  "nnls_measure M itmax st = (itmax - nn_it st) * (M + 1) + length (filter id (nn_R st))"

definition nnls_consistent :: "gsl \<Rightarrow> nat \<Rightarrow> fp list list \<Rightarrow> fp list \<Rightarrow> nnls \<Rightarrow> bool" where
  "nnls_consistent G M ZtZ Ztx st =
     (nn_smin st = fst (solve_passive G M ZtZ Ztx (nn_P st))
      \<and> nn_s st = snd (solve_passive G M ZtZ Ztx (nn_P st)))"

text \<open>The value the continuum-removal kernel converts, and the denominator and the scaled
  value of the resistance-weighted kernel and the scaled value of the ratio-minus-one
  kernel, by name.\<close>

definition cont_remove_value :: "fp \<Rightarrow> fp \<Rightarrow> fp \<Rightarrow> short \<Rightarrow> short \<Rightarrow> short \<Rightarrow> fp" where
  "cont_remove_value w0 w1 w2 v0 v1 v2 =
     fp_sub f32 (band_float v0)
       (fp_div f32
          (fp_add f32 (fp_mul f32 (band_float v1) (fp_sub f32 w2 w0))
                      (fp_mul f32 (band_float v2) (fp_sub f32 w0 w1)))
          (fp_sub f32 w2 w1))"

definition resistance_red :: "bool \<Rightarrow> short \<Rightarrow> short \<Rightarrow> fp" where
  "resistance_red rbc vr vb =
     fp_sub f32 (band_float vr)
       (fp_mul f32 (if rbc then flit 1 else int_to_float 0)
                   (fp_sub f32 (band_float vb) (band_float vr)))"

definition resistance_denominator ::
  "fp \<Rightarrow> fp \<Rightarrow> fp \<Rightarrow> bool \<Rightarrow> short \<Rightarrow> short \<Rightarrow> short \<Rightarrow> fp" where
  "resistance_denominator f2 f3 f4 rbc vn vr vb =
     fp_add f32
       (fp_sub f32 (fp_add f32 (band_float vn) (fp_mul f32 f2 (resistance_red rbc vr vb)))
                   (fp_mul f32 f3 (band_float vb)))
       (fp_mul f32 f4 (flit 10000))"

definition resistance_scaled ::
  "fp \<Rightarrow> fp \<Rightarrow> fp \<Rightarrow> fp \<Rightarrow> bool \<Rightarrow> short \<Rightarrow> short \<Rightarrow> short \<Rightarrow> fp" where
  "resistance_scaled f1 f2 f3 f4 rbc vn vr vb =
     fp_mul f32
       (fp_div f32 (fp_mul f32 f1 (fp_sub f32 (band_float vn) (resistance_red rbc vr vb)))
                   (resistance_denominator f2 f3 f4 rbc vn vr vb))
       (flit 10000)"

definition ratio_minus1_scaled :: "short \<Rightarrow> short \<Rightarrow> fp" where
  "ratio_minus1_scaled v1 v2 =
     fp_mul f32 (narrow (fp_sub f64 (fp_div f32 (band_float v1) (band_float v2)) (dlit 1)))
                (flit 1000)"

text \<open>An output whose cells are all 0, the band positions of a six-band sensor, a request
  for an identifier no label of the dispatcher has, a request for the mixture analysis,
  and a function in the place of \<^verbatim>\<open>exp\<close> for the examples, none of which reaches it.\<close>

definition ts_zero :: tsa_t where
  "ts_zero = \<lparr>tss = (\<lambda>t p. 0), rms = (\<lambda>t p. 0)\<rparr>"

definition sen_six :: par_sen_t where
  "sen_six = \<lparr>sen_blue = 0, sen_green = 1, sen_red = 2, sen_nir = 3, sen_swir0 = 0,
      sen_swir1 = 4, sen_swir2 = 5, sen_rededge1 = 0, sen_rededge2 = 0, sen_rededge3 = 0,
      sen_bnir = 3, sen_vv = 0, sen_vh = 0,
      sen_w_swir1 = flit 1.61, sen_w_nir = flit 0.864, sen_w_swir2 = flit 2.2\<rparr>"

definition tsa_unlisted :: par_tsa_t where
  "tsa_unlisted = \<lparr>tsa_index = (\<lambda>i. IDX_unlisted 99), tsa_sma = sma_one\<rparr>"

definition tsa_unmix :: par_tsa_t where
  "tsa_unmix = \<lparr>tsa_index = (\<lambda>i. IDX_SMA), tsa_sma = sma_one\<rparr>"

definition exp_unused :: "fp \<Rightarrow> fp" where
  "exp_unused x = Fin 1"

text \<open>A second instance of the library, for systems of up to two materials. The products
  are those of the first instance. The inverse is computed the way the reference
  implementation of the library does it for a matrix of two rows: an LU decomposition with
  partial pivoting (the rows are exchanged when the second element of the first column is
  the greater in magnitude), then, for each column of the identity, a forward and a back
  substitution, every operation rounded to double precision. For a matrix with a single
  element this is the reciprocal.\<close>

definition lu_invert2 :: "fp list list \<Rightarrow> fp list list" where
  "lu_invert2 A =
     (if length A = 1 then [[fp_div f64 (Fin 1) (A ! 0 ! 0)]]
      else
        (let swap = fp_lt (fp_abs (A ! 0 ! 0)) (fp_abs (A ! 1 ! 0));
             r0 = A ! (if swap then 1 else 0);
             r1 = A ! (if swap then 0 else 1);
             l = fp_div f64 (r1 ! 0) (r0 ! 0);
             u = fp_sub f64 (r1 ! 1) (fp_mul f64 l (r0 ! 1));
             col = (\<lambda>b0 b1.
                      let y1 = fp_sub f64 b1 (fp_mul f64 l b0);
                          x1 = fp_div f64 y1 u;
                          x0 = fp_div f64 (fp_sub f64 b0 (fp_mul f64 (r0 ! 1) x1)) (r0 ! 0)
                      in [x0, x1]);
             c0 = (if swap then col (Fin 0) (Fin 1) else col (Fin 1) (Fin 0));
             c1 = (if swap then col (Fin 1) (Fin 0) else col (Fin 0) (Fin 1))
         in [[c0 ! 0, c1 ! 0], [c0 ! 1, c1 ! 1]]))"

definition gsl_lu :: gsl where
  "gsl_lu = gsl_plain\<lparr>lu_invert := lu_invert2\<rparr>"

text \<open>The parameters of a constrained analysis without the row of ones, the shade
  normalization and the residual, which writes the fraction of material \<open>k\<close>, and a frame
  whose bands are all 10000, the reflectance 1.\<close>

definition sma_select :: "nat \<Rightarrow> par_sma_t" where
  "sma_select k = \<lparr>sto = False, pos = True, shn = False, orms = False, emb = k\<rparr>"

definition frame_ones :: ard_t where
  "frame_ones = \<lparr>dat = (\<lambda>b p. 10000), msk = (\<lambda>p. True), nbands = 5\<rparr>"

text \<open>A table of five bands and two materials on which the constrained inversion uses
  up its budget. In the first three bands the first material has the reflectance 1 and
  the second 37/32, 5/32 and 21/32; in the fourth band the first material has 7/2^49 and
  the second 0, in the fifth the first has 0 and the second 9/2^50. All ten are values
  of a \<^verbatim>\<open>float\<close>. Beside the table: its
  matrix, the cross products \<open>t(Z)Z\<close> and \<open>t(Z)x\<close> for the frame of ones, and the states of
  the solver on them: at the start, after a pass of the main loop that has used \<open>n\<close> passes
  of the inner loop, inside such a pass before and after the inner loop, and at the end.\<close>

definition em_cycle :: aux_emb_t where
  "em_cycle = \<lparr>nb = 5, ne = 2,
      tab = (\<lambda>i j. [[Fin 1, Fin (37 / 32)], [Fin 1, Fin (5 / 32)], [Fin 1, Fin (21 / 32)],
                    [Fin (7 / 2 ^ 49), Fin 0], [Fin 0, Fin (9 / 2 ^ 50)]] ! i ! j)\<rparr>"

definition Z_cycle :: "fp list list" where
  "Z_cycle = [[Fin 1, Fin (37 / 32)], [Fin 1, Fin (5 / 32)], [Fin 1, Fin (21 / 32)],
              [Fin (7 / 2 ^ 49), Fin 0], [Fin 0, Fin (9 / 2 ^ 50)]]"

definition ZtZ_cycle :: "fp list list" where
  "ZtZ_cycle = [[Fin 3, Fin (63 / 32)], [Fin (63 / 32), Fin (1835 / 1024)]]"

definition Ztx_cycle :: "fp list" where
  "Ztx_cycle = [Fin (3 + 7 / 2 ^ 49), Fin (63 / 32 + 9 / 2 ^ 50)]"

definition nnls_cycle_start :: nnls where
  "nnls_cycle_start = \<lparr>nn_P = [False, False], nn_R = [True, True], nn_d = [Fin 0, Fin 0],
      nn_s = [Fin 0, Fin 0], nn_w = Ztx_cycle, nn_smin = Fin 0, nn_it = 0\<rparr>"

definition nnls_cycle :: "nat \<Rightarrow> nnls" where
  "nnls_cycle n = \<lparr>nn_P = [True, False], nn_R = [False, True],
      nn_d = [Fin (1 + 9 / 2 ^ 51), Fin 0], nn_s = [Fin (1 + 9 / 2 ^ 51), Fin 0],
      nn_w = [Fin (- 1), Fin (1 / 2 ^ 52)], nn_smin = Fin (1 + 9 / 2 ^ 51), nn_it = n\<rparr>"

definition nnls_trial :: "nat \<Rightarrow> nnls" where
  "nnls_trial n = \<lparr>nn_P = [True, True], nn_R = [False, False],
      nn_d = [Fin (1 + 9 / 2 ^ 51), Fin 0],
      nn_s = [Fin (1 + 9 / 2 ^ 51), Fin (- (1 / 2 ^ 51))],
      nn_w = [Fin (- 1), Fin (1 / 2 ^ 52)], nn_smin = Fin (- (1 / 2 ^ 51)), nn_it = n\<rparr>"

definition nnls_back :: "nat \<Rightarrow> nnls" where
  "nnls_back n = \<lparr>nn_P = [True, False], nn_R = [False, True],
      nn_d = [Fin (1 + 9 / 2 ^ 51), Fin 0], nn_s = [Fin (1 + 9 / 2 ^ 51), Fin 0],
      nn_w = [Fin (- 1), Fin (1 / 2 ^ 52)], nn_smin = Fin (1 + 9 / 2 ^ 51), nn_it = n\<rparr>"

definition nnls_cycle_end :: nnls where
  "nnls_cycle_end = \<lparr>nn_P = [True, True], nn_R = [False, False],
      nn_d = [Fin (1 + 9 / 2 ^ 51), Fin (- (1 / 2 ^ 51))],
      nn_s = [Fin (1 + 9 / 2 ^ 51), Fin (- (1 / 2 ^ 51))],
      nn_w = [Fin (- 1), Fin (- 1)], nn_smin = Fin (- (1 / 2 ^ 51)), nn_it = 60\<rparr>"

text \<open>A table of three bands and two materials on which the inner loop is entered once and
  left by its test: the first material has the reflectances 2, 0, 0 and the second 3/4,
  1/2, 1/2. Beside it, its matrix and cross products for the frame of ones and the states
  of the solver.\<close>

definition em_inner :: aux_emb_t where
  "em_inner = \<lparr>nb = 3, ne = 2,
      tab = (\<lambda>i j. [[Fin 2, Fin (3 / 4)], [Fin 0, Fin (1 / 2)], [Fin 0, Fin (1 / 2)]] ! i ! j)\<rparr>"

definition Z_inner :: "fp list list" where
  "Z_inner = [[Fin 2, Fin (3 / 4)], [Fin 0, Fin (1 / 2)], [Fin 0, Fin (1 / 2)]]"

definition ZtZ_inner :: "fp list list" where
  "ZtZ_inner = [[Fin 4, Fin (3 / 2)], [Fin (3 / 2), Fin (17 / 16)]]"

definition Ztx_inner :: "fp list" where
  "Ztx_inner = [Fin 2, Fin (7 / 4)]"

definition nnls_inner_start :: nnls where
  "nnls_inner_start = \<lparr>nn_P = [False, False], nn_R = [True, True], nn_d = [Fin 0, Fin 0],
      nn_s = [Fin 0, Fin 0], nn_w = Ztx_inner, nn_smin = Fin 0, nn_it = 0\<rparr>"

definition nnls_inner_first :: nnls where
  "nnls_inner_first = \<lparr>nn_P = [True, False], nn_R = [False, True],
      nn_d = [Fin (1 / 2), Fin 0], nn_s = [Fin (1 / 2), Fin 0],
      nn_w = [Fin (- 1), Fin 1], nn_smin = Fin (1 / 2), nn_it = 0\<rparr>"

definition nnls_inner_trial :: nnls where
  "nnls_inner_trial = \<lparr>nn_P = [True, True], nn_R = [False, False],
      nn_d = [Fin (1 / 2), Fin 0], nn_s = [Fin (- (1 / 4)), Fin 2],
      nn_w = [Fin (- 1), Fin 1], nn_smin = Fin (- (1 / 4)), nn_it = 0\<rparr>"

definition nnls_inner_back :: nnls where
  "nnls_inner_back = \<lparr>nn_P = [False, True], nn_R = [True, False],
      nn_d = [Fin 0, Fin (6004799503160661 / 4503599627370496)],
      nn_s = [Fin 0, Fin (3708846751952173 / 2251799813685248)],
      nn_w = [Fin (- 1), Fin 1], nn_smin = Fin (3708846751952173 / 2251799813685248),
      nn_it = 1\<rparr>"

definition nnls_inner_end :: nnls where
  "nnls_inner_end = \<lparr>nn_P = [False, True], nn_R = [True, False],
      nn_d = [Fin 0, Fin (3708846751952173 / 2251799813685248)],
      nn_s = [Fin 0, Fin (3708846751952173 / 2251799813685248)],
      nn_w = [Fin (- (264917625139441 / 562949953421312)), Fin (- 1)],
      nn_smin = Fin (3708846751952173 / 2251799813685248), nn_it = 1\<rparr>"

section \<open>Properties of the rounding\<close>

lemma pow2_powr: "pow2 i = 2 powr (of_int i)"
proof (cases "0 \<le> i")
  case True
  then show ?thesis by (simp add: pow2_def powr_realpow[symmetric])
next
  case False
  then have "pow2 i = 1 / 2 ^ nat (- i)" by (simp add: pow2_def)
  also have "\<dots> = 1 / 2 powr (of_int (- i))" using False by (simp add: powr_realpow[symmetric])
  also have "\<dots> = 2 powr (of_int i)" by (simp add: powr_minus divide_inverse)
  finally show ?thesis .
qed

lemma pow2_pos [simp]: "0 < pow2 i"
  by (simp add: pow2_powr)

lemma pow2_nonneg [simp]: "0 \<le> pow2 i"
  by (simp add: pow2_powr)

lemma pow2_neq0 [simp]: "pow2 i \<noteq> 0"
  using pow2_pos[of i] by linarith

lemma pow2_add: "pow2 (i + j) = pow2 i * pow2 j"
  by (simp add: pow2_powr powr_add)

lemma pow2_mono: "i \<le> j \<Longrightarrow> pow2 i \<le> pow2 j"
  by (simp add: pow2_powr)

lemma pow2_less_iff: "pow2 i < pow2 j \<longleftrightarrow> i < j"
  by (simp add: pow2_powr)

lemma pow2_nat: "pow2 (int n) = 2 ^ n"
  by (simp add: pow2_def)

lemma pow2_int_ex: "0 \<le> i \<Longrightarrow> pow2 i = of_int (2 ^ nat i)"
  by (simp add: pow2_def)

lemma rne_of_int [simp]: "rne (of_int z) = z"
  by (simp add: rne_def)

lemma rne_err: "\<bar>of_int (rne y) - y\<bar> \<le> 1 / 2"
  unfolding rne_def Let_def by (auto simp: abs_le_iff; linarith)

lemma rne_le: "y \<le> of_int n \<Longrightarrow> rne y \<le> n"
proof -
  assume a: "y \<le> of_int n"
  show ?thesis
  proof (cases "y = of_int n")
    case True then show ?thesis by simp
  next
    case False
    with a have "y < of_int n" by simp
    then have "\<lfloor>y\<rfloor> < n" by linarith
    then have "\<lfloor>y\<rfloor> + 1 \<le> n" by simp
    then show ?thesis unfolding rne_def Let_def by auto
  qed
qed

lemma rne_ge: "of_int n \<le> y \<Longrightarrow> n \<le> rne y"
proof -
  assume a: "of_int n \<le> y"
  then have "n \<le> \<lfloor>y\<rfloor>" by linarith
  then show ?thesis unfolding rne_def Let_def by auto
qed

lemma halvings_le_fuel: "halvings k a \<le> k"
  by (induction k a rule: halvings.induct) (subst halvings.simps, auto)

lemma halvings_lower: "1 \<le> a \<Longrightarrow> 2 ^ halvings k a \<le> a"
proof (induction k a rule: halvings.induct)
  case (1 k a)
  show ?case
  proof (cases "k = 0 \<or> a < 2")
    case True
    then show ?thesis using 1(2) by (subst halvings.simps) auto
  next
    case False
    then have "2 ^ halvings (k - 1) (a / 2) \<le> a / 2" using 1 by auto
    then show ?thesis using False by (subst halvings.simps) auto
  qed
qed

lemma halvings_upper: "a < 2 ^ Suc k \<Longrightarrow> a < 2 ^ Suc (halvings k a)"
proof (induction k a rule: halvings.induct)
  case (1 k a)
  show ?case
  proof (cases "k = 0 \<or> a < 2")
    case True
    then show ?thesis using 1(2) by (subst halvings.simps) auto
  next
    case False
    then obtain j where j: "k = Suc j" by (cases k) auto
    have "a / 2 < 2 ^ Suc (k - 1)" using 1(2) j by simp
    then have "a / 2 < 2 ^ Suc (halvings (k - 1) (a / 2))" using 1(1) False by auto
    then show ?thesis using False by (subst halvings.simps) auto
  qed
qed

lemma halvings_less: "1 \<le> a \<Longrightarrow> a < 2 ^ n \<Longrightarrow> halvings k a < n"
proof -
  assume a: "1 \<le> a" "a < 2 ^ n"
  have "(2::real) ^ halvings k a \<le> a" using a(1) by (rule halvings_lower)
  with a(2) have "(2::real) ^ halvings k a < 2 ^ n" by linarith
  then show ?thesis by simp
qed

lemma doublings_le_fuel: "doublings k a \<le> k"
  by (induction k a rule: doublings.induct) (subst doublings.simps, auto)

lemma doublings_upper: "0 < a \<Longrightarrow> a < 1 \<Longrightarrow> a * 2 ^ doublings k a < 2"
proof (induction k a rule: doublings.induct)
  case (1 k a)
  show ?case
  proof (cases "k = 0 \<or> 1 \<le> a")
    case True
    then show ?thesis using 1(2,3) by (subst doublings.simps) auto
  next
    case False
    show ?thesis
    proof (cases "2 * a < 1")
      case True
      then have "2 * a * 2 ^ doublings (k - 1) (2 * a) < 2" using 1 False by auto
      then show ?thesis using False by (subst doublings.simps) (auto simp: algebra_simps)
    next
      case f2: False
      then have "doublings (k - 1) (2 * a) = 0" by (subst doublings.simps) auto
      then show ?thesis using False f2 1(3) by (subst doublings.simps) auto
    qed
  qed
qed

lemma doublings_lower: "0 < a \<Longrightarrow> a * 2 ^ j < 1 \<Longrightarrow> j < k \<Longrightarrow> j < doublings k a"
proof (induction k a arbitrary: j rule: doublings.induct)
  case (1 k a)
  have a1: "a < 1"
  proof -
    have "a * 1 \<le> a * 2 ^ j" using 1(2) by (intro mult_left_mono) auto
    then show ?thesis using 1(3) by simp
  qed
  have k0: "k \<noteq> 0" using 1(4) by simp
  show ?case
  proof (cases j)
    case 0
    then show ?thesis using a1 k0 by (subst doublings.simps) auto
  next
    case (Suc j')
    have "2 * a * 2 ^ j' < 1" using 1(3) Suc by (simp add: algebra_simps)
    moreover have "j' < k - 1" using 1(4) Suc by simp
    ultimately have "j' < doublings (k - 1) (2 * a)"
      using 1(1)[of j'] a1 k0 1(2) by auto
    then show ?thesis using a1 k0 Suc by (subst doublings.simps) auto
  qed
qed


lemma halvings_stopped: "halvings k a < k \<Longrightarrow> a < 2 ^ Suc (halvings k a)"
proof (induction k a rule: halvings.induct)
  case (1 k a)
  show ?case
  proof (cases "k = 0 \<or> a < 2")
    case True
    then show ?thesis using 1(2) by (subst halvings.simps) (auto simp: halvings.simps)
  next
    case False
    then have h: "halvings k a = Suc (halvings (k - 1) (a / 2))" by (subst halvings.simps) auto
    with 1(2) False have "halvings (k - 1) (a / 2) < k - 1" by auto
    then have "a / 2 < 2 ^ Suc (halvings (k - 1) (a / 2))" using 1(1) False by auto
    then show ?thesis using h by auto
  qed
qed

lemma doublings_stopped: "doublings k a < k \<Longrightarrow> 1 \<le> a * 2 ^ doublings k a"
proof (induction k a rule: doublings.induct)
  case (1 k a)
  show ?case
  proof (cases "k = 0 \<or> 1 \<le> a")
    case True
    then show ?thesis using 1(2) by (subst doublings.simps) (auto simp: doublings.simps)
  next
    case False
    then have h: "doublings k a = Suc (doublings (k - 1) (2 * a))" by (subst doublings.simps) auto
    with 1(2) False have "doublings (k - 1) (2 * a) < k - 1" by auto
    then have "1 \<le> 2 * a * 2 ^ doublings (k - 1) (2 * a)" using 1(1) False by auto
    then show ?thesis using h by (auto simp: algebra_simps)
  qed
qed

lemma pow2_neg: "pow2 (- int n) = 1 / 2 ^ n"
  by (auto simp: pow2_def)

lemma expo_less:
  assumes "0 < a" "a < pow2 k" "- 1100 < k"
  shows "expo a < k"
proof (cases "1 \<le> a")
  case True
  then have "1 < pow2 k" using assms(2) by linarith
  then have "pow2 0 < pow2 k" by (simp add: pow2_def)
  then have k: "0 < k" by (simp add: pow2_less_iff)
  then have "a < 2 ^ nat k" using assms(2) by (simp add: pow2_def)
  then have "halvings 1100 a < nat k" using True by (rule halvings_less[rotated])
  then show ?thesis using True k by (simp add: expo_def)
next
  case False
  show ?thesis
  proof (cases "0 < k")
    case True
    then show ?thesis using False by (simp add: expo_def)
  next
    case k: False
    define j where "j = nat (- k)"
    have kj: "k = - int j" using k by (simp add: j_def)
    have "a < 1 / 2 ^ j" using assms(2) by (simp add: kj pow2_neg)
    then have "a * 2 ^ j < 1" by (simp add: field_simps)
    moreover have "j < 1100" using assms(3) kj by simp
    ultimately have "j < doublings 1100 a" using assms(1) by (intro doublings_lower)
    then show ?thesis using False kj by (simp add: expo_def)
  qed
qed

lemma expo_upper:
  assumes "0 < a" "expo a < 1100"
  shows "a < pow2 (expo a + 1)"
proof (cases "1 \<le> a")
  case True
  then have e: "expo a = int (halvings 1100 a)" by (simp add: expo_def)
  with assms(2) have "halvings 1100 a < 1100" by simp
  then have "a < 2 ^ Suc (halvings 1100 a)" by (rule halvings_stopped)
  moreover have "pow2 (expo a + 1) = 2 ^ Suc (halvings 1100 a)"
    unfolding e by (simp add: pow2_def nat_add_distrib)
  ultimately show ?thesis by simp
next
  case False
  then have e: "expo a = - int (doublings 1100 a)" by (simp add: expo_def)
  have "a * 2 ^ doublings 1100 a < 2" using assms(1) False by (intro doublings_upper) auto
  then have "a < 2 / 2 ^ doublings 1100 a" by (simp add: field_simps)
  moreover have "pow2 (expo a + 1) = pow2 1 * pow2 (- int (doublings 1100 a))"
    unfolding e by (simp add: pow2_add[symmetric] add.commute)
  moreover have "pow2 1 = 2" by (simp add: pow2_def)
  ultimately show ?thesis by (simp add: pow2_neg)
qed

lemma expo_lower:
  assumes "0 < a" "- 1100 < expo a"
  shows "pow2 (expo a) \<le> a"
proof (cases "1 \<le> a")
  case True
  then show ?thesis using halvings_lower[OF True, of 1100] by (simp add: expo_def pow2_def)
next
  case False
  then have e: "expo a = - int (doublings 1100 a)" by (simp add: expo_def)
  with assms(2) have "doublings 1100 a < 1100" by simp
  then have "1 \<le> a * 2 ^ doublings 1100 a" by (rule doublings_stopped)
  then have "1 / 2 ^ doublings 1100 a \<le> a" by (simp add: field_simps)
  then show ?thesis unfolding e by (simp add: pow2_neg)
qed

lemma expo_le_fuel: "expo a \<le> 1100"
  using halvings_le_fuel[of 1100 a] by (simp add: expo_def)

lemma rnd_alt: "x \<noteq> 0 \<Longrightarrow> rnd p emin x = of_int (rne (x / pow2 (ulp_exp p emin x))) * pow2 (ulp_exp p emin x)"
  by (simp add: rnd_def ulp_exp_def Let_def)

lemma rnd_zero [simp]: "rnd p emin 0 = 0"
  by (simp add: rnd_def)

lemma rnd_exact:
  assumes "x = of_int z * pow2 (ulp_exp p emin x)"
  shows "rnd p emin x = x"
proof (cases "x = 0")
  case True then show ?thesis by simp
next
  case False
  have "x / pow2 (ulp_exp p emin x) = of_int z"
    using assms by (metis nonzero_eq_divide_eq pow2_pos less_irrefl)
  then show ?thesis using False assms by (simp add: rnd_alt)
qed

lemma rnd_err: "\<bar>rnd p emin x - x\<bar> \<le> pow2 (ulp_exp p emin x) / 2"
proof (cases "x = 0")
  case True then show ?thesis by simp
next
  case False
  define u where "u = pow2 (ulp_exp p emin x)"
  have u: "0 < u" by (simp add: u_def)
  have "rnd p emin x - x = (of_int (rne (x / u)) - x / u) * u"
    using False u by (simp add: rnd_alt u_def field_simps)
  then have "\<bar>rnd p emin x - x\<bar> = \<bar>of_int (rne (x / u)) - x / u\<bar> * u"
    using u by (simp add: abs_mult)
  also have "\<dots> \<le> (1 / 2) * u" using rne_err[of "x / u"] u by (intro mult_right_mono) auto
  finally show ?thesis by (simp add: u_def)
qed

lemma rnd_le_pow2:
  assumes "\<bar>x\<bar> \<le> pow2 k" "emin \<le> k" "- 1100 \<le> k" "1 \<le> p"
  shows "\<bar>rnd p emin x\<bar> \<le> pow2 k"
proof (cases "x = 0")
  case True then show ?thesis using pow2_pos[of k] by simp
next
  case False
  define E where "E = ulp_exp p emin x"
  define u where "u = pow2 E"
  have u: "0 < u" by (simp add: u_def)
  have "\<bar>x\<bar> < pow2 (k + 1)"
    using assms(1) pow2_less_iff[of k "k + 1"] by linarith
  then have "expo \<bar>x\<bar> < k + 1" using False assms(3) by (intro expo_less) auto
  then have "max (expo \<bar>x\<bar>) emin \<le> k" using assms(2) by simp
  then have Ek: "0 \<le> k - E" using assms(4) unfolding E_def ulp_exp_def by linarith
  define N :: int where "N = 2 ^ nat (k - E)"
  have Nu: "pow2 k = of_int N * u"
  proof -
    have "pow2 k = pow2 ((k - E) + E)" by simp
    also have "\<dots> = pow2 (k - E) * pow2 E" by (rule pow2_add)
    also have "pow2 (k - E) = of_int N" using Ek by (simp add: N_def pow2_def)
    finally show ?thesis by (simp add: u_def)
  qed
  have "x / u \<le> of_int N" using assms(1) u Nu by (simp add: field_simps abs_le_iff)
  then have 1: "rne (x / u) \<le> N" by (rule rne_le)
  have "of_int (- N) \<le> x / u" using assms(1) u Nu by (simp add: field_simps abs_le_iff)
  then have 2: "- N \<le> rne (x / u)" by (rule rne_ge)
  have "\<bar>rne (x / u)\<bar> \<le> N" using 1 2 by simp
  then have "\<bar>real_of_int (rne (x / u))\<bar> \<le> of_int N" by linarith
  then have "\<bar>real_of_int (rne (x / u))\<bar> * u \<le> of_int N * u" using u by (intro mult_right_mono) auto
  then show ?thesis using False u by (simp add: rnd_alt E_def[symmetric] u_def[symmetric] abs_mult Nu)
qed

lemma rnd_int:
  assumes "\<bar>n\<bar> < 2 ^ p" "emin \<le> 0" "1 \<le> p"
  shows "rnd p emin (of_int n) = of_int n"
proof (cases "n = 0")
  case True then show ?thesis by simp
next
  case False
  define a :: real where "a = \<bar>of_int n\<bar>"
  have a1: "1 \<le> a" using False by (simp add: a_def)
  have "a < 2 ^ p" using assms(1) unfolding a_def by (metis of_int_abs of_int_less_numeral_power_cancel_iff)
  then have "halvings 1100 a < p" using a1 by (rule halvings_less[rotated])
  then have "expo a < int p" using a1 by (simp add: expo_def)
  then have E: "ulp_exp p emin (of_int n) \<le> 0"
    using assms(2,3) unfolding ulp_exp_def a_def by linarith
  define j where "j = nat (- ulp_exp p emin (of_int n))"
  have Ej: "ulp_exp p emin (of_int n) = - int j" using E by (simp add: j_def)
  have "real_of_int n = of_int (n * 2 ^ j) * pow2 (ulp_exp p emin (of_int n))"
    unfolding Ej by (simp add: pow2_neg)
  then show ?thesis by (rule rnd_exact)
qed

lemma rnd_rel_err:
  assumes "1 \<le> \<bar>x\<bar>" "emin \<le> 0"
  shows "\<bar>rnd p emin x - x\<bar> \<le> \<bar>x\<bar> * pow2 (- int p)"
proof -
  have e: "expo \<bar>x\<bar> = int (halvings 1100 \<bar>x\<bar>)" using assms(1) by (simp add: expo_def)
  then have "ulp_exp p emin x = expo \<bar>x\<bar> - (int p - 1)" using assms(2) by (simp add: ulp_exp_def)
  then have "ulp_exp p emin x = expo \<bar>x\<bar> + (- int p) + 1" by simp
  then have "pow2 (ulp_exp p emin x) = pow2 (expo \<bar>x\<bar>) * pow2 (- int p) * pow2 1"
    by (simp only: pow2_add)
  then have "pow2 (ulp_exp p emin x) / 2 = pow2 (expo \<bar>x\<bar>) * pow2 (- int p)"
    by (simp add: pow2_def)
  moreover have "pow2 (expo \<bar>x\<bar>) \<le> \<bar>x\<bar>"
    unfolding e using halvings_lower[OF assms(1), of 1100] by (simp add: pow2_def)
  ultimately have "pow2 (ulp_exp p emin x) / 2 \<le> \<bar>x\<bar> * pow2 (- int p)"
    by (simp add: mult_right_mono)
  then show ?thesis using rnd_err[of p emin x] by linarith
qed

lemma rnd_idem:
  assumes p: "1 \<le> p" and emin: "- 1100 < emin"
  shows "rnd p emin (rnd p emin x) = rnd p emin x"
proof (cases "rnd p emin x = 0")
  case True then show ?thesis by simp
next
  case nz: False
  then have x0: "x \<noteq> 0" by auto
  define e1 where "e1 = max (expo \<bar>x\<bar>) emin"
  define E where "E = ulp_exp p emin x"
  define u where "u = pow2 E"
  define m where "m = rne (x / u)"
  define v where "v = real_of_int m * u"
  have EE: "E = e1 - (int p - 1)" by (simp add: E_def ulp_exp_def e1_def)
  have u: "0 < u" by (simp add: u_def)
  have v: "rnd p emin x = v" using x0 by (simp add: rnd_alt v_def m_def u_def E_def)
  have v0: "v \<noteq> 0" using nz v by simp
  have absv: "\<bar>v\<bar> = real_of_int \<bar>m\<bar> * u" using u by (simp add: v_def abs_mult)
  define e2 where "e2 = max (expo \<bar>v\<bar>) emin"
  define E2 where "E2 = ulp_exp p emin v"
  have EE2: "E2 = e2 - (int p - 1)" by (simp add: E2_def ulp_exp_def e2_def)
  have "\<exists>z. v = real_of_int z * pow2 E2"
  proof (cases "e2 \<le> e1")
    case True
    then have d: "0 \<le> E - E2" by (simp add: EE EE2)
    have "pow2 E = pow2 ((E - E2) + E2)" by simp
    also have "\<dots> = pow2 (E - E2) * pow2 E2" by (rule pow2_add)
    also have "pow2 (E - E2) = of_int (2 ^ nat (E - E2))" using d by (simp add: pow2_def)
    finally have "v = real_of_int (m * 2 ^ nat (E - E2)) * pow2 E2"
      by (simp add: v_def u_def)
    then show ?thesis by blast
  next
    case False
    then have gt: "e1 < expo \<bar>v\<bar>" unfolding e2_def e1_def by linarith
    then have ex: "expo \<bar>x\<bar> < expo \<bar>v\<bar>" "emin < expo \<bar>v\<bar>" unfolding e1_def by linarith+
    have "expo \<bar>x\<bar> < 1100" using ex(1) expo_le_fuel[of "\<bar>v\<bar>"] by linarith
    then have "\<bar>x\<bar> < pow2 (expo \<bar>x\<bar> + 1)" using x0 by (intro expo_upper) auto
    also have "\<dots> \<le> pow2 (e1 + 1)" by (intro pow2_mono) (simp add: e1_def)
    finally have xe: "\<bar>x\<bar> < pow2 (e1 + 1)" .
    have "pow2 (e1 + 1) = pow2 (int p + E)" by (simp add: EE)
    also have "\<dots> = pow2 (int p) * u" by (simp only: pow2_add u_def)
    finally have pe: "pow2 (e1 + 1) = pow2 (int p) * u" .
    have xu: "\<bar>x\<bar> < pow2 (int p) * u" using xe pe by simp
    have pp: "pow2 (int p) = real_of_int (2 ^ p)" by (simp add: pow2_def)
    have "x / u \<le> real_of_int (2 ^ p)" using xu u unfolding pp by (simp add: field_simps abs_less_iff)
    then have m1: "m \<le> 2 ^ p" unfolding m_def by (rule rne_le)
    have "real_of_int (- (2 ^ p)) \<le> x / u" using xu u unfolding pp by (simp add: field_simps abs_less_iff)
    then have m2: "- (2 ^ p) \<le> m" unfolding m_def by (rule rne_ge)
    have "- 1100 < expo \<bar>v\<bar>" using ex(2) emin by linarith
    then have lo: "pow2 (expo \<bar>v\<bar>) \<le> \<bar>v\<bar>" using v0 by (intro expo_lower) auto
    have "pow2 (e1 + 1) \<le> pow2 (expo \<bar>v\<bar>)" using gt by (intro pow2_mono) simp
    with lo have "pow2 (e1 + 1) \<le> real_of_int \<bar>m\<bar> * u" using absv by linarith
    then have "pow2 (int p) * u \<le> real_of_int \<bar>m\<bar> * u" unfolding pe .
    then have "pow2 (int p) \<le> real_of_int \<bar>m\<bar>" using u by simp
    then have "real_of_int (2 ^ p) \<le> real_of_int \<bar>m\<bar>" unfolding pp .
    then have m3: "2 ^ p \<le> \<bar>m\<bar>" by linarith
    have mabs: "\<bar>m\<bar> = 2 ^ p" using m1 m2 m3 by linarith
    have "\<bar>v\<bar> = pow2 (e1 + 1)" unfolding pe absv mabs pp by simp
    with lo have "pow2 (expo \<bar>v\<bar>) \<le> pow2 (e1 + 1)" by simp
    then have "expo \<bar>v\<bar> \<le> e1 + 1" using pow2_less_iff[of "e1 + 1" "expo \<bar>v\<bar>"] by linarith
    with gt have "expo \<bar>v\<bar> = e1 + 1" by simp
    then have "e2 = e1 + 1" using ex(2) unfolding e2_def by linarith
    then have E21: "E2 = E + 1" by (simp add: EE EE2)
    obtain q where q: "p = Suc q" using p by (cases p) auto
    have "m = 2 ^ p \<or> m = - (2 ^ p)" using mabs by linarith
    then have "m = 2 * (m div 2)" unfolding q by auto
    then have "real_of_int m = 2 * real_of_int (m div 2)" by (metis of_int_mult of_int_numeral)
    moreover have "pow2 1 = 2" by (simp add: pow2_def)
    then have "pow2 E2 = 2 * u" unfolding E21 u_def by (simp only: pow2_add)
    ultimately have "v = real_of_int (m div 2) * pow2 E2" by (simp add: v_def)
    then show ?thesis by blast
  qed
  then obtain z where "v = real_of_int z * pow2 (ulp_exp p emin v)" unfolding E2_def by blast
  then have "rnd p emin v = v" by (rule rnd_exact)
  then show ?thesis by (simp add: v)
qed

lemmas fp_eval = f32_def f64_def to_fp_def rnd_def expo_def halvings.simps doublings.simps
  pow2_def rne_def Let_def int_to_float_def band_float_def flit_def dlit_def
  trunc_zero_def SHRT_MAX_def SHRT_MIN_def fp_gt_def fp_le_def fp_sub_def

lemma f32_fin: "\<bar>r32 x\<bar> < pow2 128 \<Longrightarrow> f32 x = Fin (r32 x)"
  by (simp add: f32_def to_fp_def r32_def Let_def)

lemma f32_le_pow2:
  assumes "\<bar>x\<bar> \<le> pow2 k" "- 126 \<le> k" "k < 128"
  shows "f32 x = Fin (r32 x) \<and> \<bar>r32 x\<bar> \<le> pow2 k"
proof -
  have b: "\<bar>r32 x\<bar> \<le> pow2 k" unfolding r32_def using assms by (intro rnd_le_pow2) auto
  have "pow2 k < pow2 128" using assms(3) by (simp add: pow2_less_iff)
  with b have "\<bar>r32 x\<bar> < pow2 128" by linarith
  then show ?thesis using b by (simp add: f32_fin)
qed

lemma int_to_float_exact: "\<bar>n\<bar> < 2 ^ 24 \<Longrightarrow> int_to_float n = Fin (real_of_int n)"
proof -
  assume a: "\<bar>n\<bar> < 2 ^ 24"
  then have r: "r32 (real_of_int n) = real_of_int n" unfolding r32_def by (intro rnd_int) auto
  have "\<bar>real_of_int n\<bar> < 2 ^ 24" using a by (metis of_int_abs of_int_less_numeral_power_cancel_iff)
  also have "\<dots> < pow2 128" by (simp add: pow2_def)
  finally show ?thesis by (simp add: int_to_float_def f32_fin r)
qed

lemma flit_10000: "flit 10000 = Fin 10000"
  by (simp add: fp_eval)

lemma sint_short_bounds: "- 32768 \<le> sint (v :: short)" "sint (v :: short) \<le> 32767"
  using sint_ge[of v] sint_lt[of v] by simp_all

lemma trunc_zero_abs: "\<bar>x\<bar> \<le> real_of_int N \<Longrightarrow> \<bar>trunc_zero x\<bar> \<le> N"
  unfolding trunc_zero_def by (auto; linarith)

lemma cast_short_fin:
  "\<bar>x\<bar> \<le> 32767 \<Longrightarrow> cast_short (Fin x) = Inr (word_of_int (trunc_zero x))"
  using trunc_zero_abs[of x 32767] by (auto simp: SHRT_MAX_def SHRT_MIN_def)

lemma r32_above_one:
  assumes "1 + 1 / 65536 \<le> x"
  shows "1 < r32 x"
proof -
  have p: "pow2 (- int 24) = 1 / 16777216" by (simp add: pow2_def)
  have "\<bar>r32 x - x\<bar> \<le> \<bar>x\<bar> * pow2 (- int 24)"
    unfolding r32_def using assms by (intro rnd_rel_err) auto
  then have "\<bar>r32 x - x\<bar> \<le> \<bar>x\<bar> / 16777216" unfolding p by simp
  moreover have "\<bar>x\<bar> = x" using assms by simp
  ultimately have "x - x / 16777216 \<le> r32 x" by linarith
  then show ?thesis using assms by linarith
qed

lemma r32_below_minus_one:
  assumes "x \<le> - (1 + 1 / 65536)"
  shows "r32 x < - 1"
proof -
  have p: "pow2 (- int 24) = 1 / 16777216" by (simp add: pow2_def)
  have "\<bar>r32 x - x\<bar> \<le> \<bar>x\<bar> * pow2 (- int 24)"
    unfolding r32_def using assms by (intro rnd_rel_err) auto
  then have "\<bar>r32 x - x\<bar> \<le> \<bar>x\<bar> / 16777216" unfolding p by simp
  moreover have "\<bar>x\<bar> = - x" using assms by simp
  ultimately have "r32 x \<le> x - x / 16777216" by linarith
  then show ?thesis using assms by linarith
qed

lemma ratio_gap:
  fixes n s :: int
  assumes "s \<noteq> 0" "\<bar>s\<bar> \<le> 65536" "1 < \<bar>real_of_int n / real_of_int s\<bar>"
  shows "1 + 1 / 65536 \<le> \<bar>real_of_int n / real_of_int s\<bar>"
proof -
  have sp: "0 < \<bar>real_of_int s\<bar>" using assms(1) by simp
  have "\<bar>real_of_int s\<bar> < \<bar>real_of_int n\<bar>" using assms(3) sp by (simp add: abs_divide field_simps)
  then have "\<bar>s\<bar> < \<bar>n\<bar>" by linarith
  then have "\<bar>s\<bar> + 1 \<le> \<bar>n\<bar>" by simp
  then have "\<bar>real_of_int s\<bar> + 1 \<le> \<bar>real_of_int n\<bar>" by linarith
  then have "(\<bar>real_of_int s\<bar> + 1) / \<bar>real_of_int s\<bar> \<le> \<bar>real_of_int n\<bar> / \<bar>real_of_int s\<bar>"
    using sp by (intro divide_right_mono) auto
  then have "1 + 1 / \<bar>real_of_int s\<bar> \<le> \<bar>real_of_int n\<bar> / \<bar>real_of_int s\<bar>"
    using sp by (simp add: add_divide_distrib)
  moreover have "\<bar>real_of_int s\<bar> \<le> 65536" using assms(2) by linarith
  then have "1 / 65536 \<le> 1 / \<bar>real_of_int s\<bar>"
    using sp by (intro divide_left_mono) auto
  ultimately have "1 + 1 / 65536 \<le> \<bar>real_of_int n\<bar> / \<bar>real_of_int s\<bar>" by linarith
  then show ?thesis by (simp only: abs_divide)
qed


lemma rne_minus: "rne (- y) = - rne y"
proof (cases "y = of_int \<lfloor>y\<rfloor>")
  case True
  then obtain z where "y = of_int z" by blast
  then show ?thesis by (simp flip: of_int_minus)
next
  case False
  then have fl: "\<lfloor>- y\<rfloor> = - \<lfloor>y\<rfloor> - 1" by linarith
  have r: "0 < y - of_int \<lfloor>y\<rfloor>" using False by linarith
  show ?thesis unfolding rne_def Let_def fl using r by (auto simp: algebra_simps)
qed

lemma rnd_minus: "rnd p emin (- x) = - rnd p emin x"
  by (simp add: rnd_def Let_def rne_minus)

lemma f32_idem: "f32 x = Fin y \<Longrightarrow> f32 y = Fin y"
proof -
  assume a: "f32 x = Fin y"
  then have y: "y = r32 x" and b: "\<not> pow2 128 \<le> \<bar>r32 x\<bar>"
    by (auto simp: f32_def to_fp_def r32_def Let_def split: if_splits)
  have "r32 y = y" unfolding y r32_def by (rule rnd_idem) auto
  then show ?thesis using b y by (simp add: f32_fin)
qed

lemma f32_neg: "f32 x = Fin x \<Longrightarrow> f32 (- x) = Fin (- x)"
  by (auto simp: f32_def to_fp_def Let_def rnd_minus split: if_splits)

lemma is_float_f32 [simp]: "is_float (f32 x)"
  by (cases "f32 x") (auto simp: is_float_def dest: f32_idem)

lemma is_float_add [simp]: "is_float (fp_add f32 a b)"
  by (cases a; cases b; simp) (simp_all add: is_float_def)

lemma one_times: "is_float v \<Longrightarrow> fp_mul f32 (Fin 1) v = v"
  by (cases v) (auto simp: is_float_def)

lemma minus_one_times: "is_float v \<Longrightarrow> fp_mul f32 (Fin (- 1)) v = fp_neg v"
  by (cases v) (auto simp: is_float_def f32_neg)

lemma zero_plus: "is_float v \<Longrightarrow> fp_add f32 (Fin 0) v = v"
  by (cases v) (auto simp: is_float_def)

lemma is_float_tc_row [simp]: "is_float (tc_row i vb vg vr vn vs1 vs2)"
  by (simp add: tc_row_def)

lemma int_to_float_consts:
  "int_to_float 0 = Fin 0" "int_to_float 1 = Fin 1" "int_to_float (- 1) = Fin (- 1)"
  using int_to_float_exact[of 0] int_to_float_exact[of 1] int_to_float_exact[of "- 1"] by simp_all

section \<open>Properties of the conversions and of the kernels\<close>

lemma to_fp_not_nan [simp]: "to_fp p emin emax x \<noteq> NaN"
  by (simp add: to_fp_def Let_def)

lemma f32_not_nan [simp]: "f32 x \<noteq> NaN" "f64 x \<noteq> NaN"
  by (simp_all add: f32_def f64_def)

lemma narrow_not_nan [simp]: "v \<noteq> NaN \<Longrightarrow> narrow v \<noteq> NaN"
  by (cases v) simp_all

lemma band_float_exact: "band_float v = Fin (real_of_int (sint v))"
  unfolding band_float_def using sint_short_bounds[of v] by (intro int_to_float_exact) auto

lemma flit_1000: "flit 1000 = Fin 1000"
  by (simp add: fp_eval)

lemma dlit_one: "dlit 1 = Fin 1"
  by (simp add: fp_eval)

lemma int_to_float_limits:
  "int_to_float SHRT_MAX = Fin 32767" "int_to_float SHRT_MIN = Fin (- 32768)"
  using int_to_float_exact[of 32767] int_to_float_exact[of "- 32768"]
  by (simp_all add: SHRT_MAX_def SHRT_MIN_def)

lemma cast_short_checked:
  assumes "v \<noteq> NaN" "\<not> fp_gt v (Fin 32767)" "\<not> fp_lt v (Fin (- 32768))"
  shows "\<exists>w. cast_short v = Inr w"
proof (cases v)
  case (Fin x)
  then have "- 32768 \<le> x" "x \<le> 32767" using assms(2,3) by (simp_all add: fp_gt_def)
  then have "- 32768 \<le> trunc_zero x \<and> trunc_zero x \<le> 32767"
    unfolding trunc_zero_def by (auto; linarith)
  then show ?thesis using Fin by (simp add: SHRT_MAX_def SHRT_MIN_def)
qed (use assms in \<open>auto simp: fp_gt_def\<close>)

lemma tasseled_px_rows:
  "index_tasseled_px TCB vb vg vr vn vs1 vs2 = cast_short (tc_row 0 vb vg vr vn vs1 vs2)
   \<and> index_tasseled_px TCG vb vg vr vn vs1 vs2 = cast_short (tc_row 1 vb vg vr vn vs1 vs2)
   \<and> index_tasseled_px TCW vb vg vr vn vs1 vs2 = cast_short (tc_row 2 vb vg vr vn vs1 vs2)
   \<and> index_tasseled_px TCD vb vg vr vn vs1 vs2 =
       cast_short (fp_sub f32 (fp_sub f32 (tc_row 0 vb vg vr vn vs1 vs2)
                                          (tc_row 1 vb vg vr vn vs1 vs2))
                              (tc_row 2 vb vg vr vn vs1 vs2))"
proof -
  have u01: "[0..<Suc 0] = [0]" and u12: "[Suc 0..<2] = [1]" and u23: "[2..<3] = [2]"
    and u03: "[0..<3] = [0, 1, 2]"
    by (simp_all add: upt_rec)
  show ?thesis
    by (simp add: index_tasseled_px_def Let_def u01 u12 u23 u03 int_to_float_consts
        one_times minus_one_times zero_plus fp_sub_def)
qed

lemma resistance_px_unchecked:
  "index_resistance_px f1 f2 f3 f4 rbc vn vr vb nodata =
     (if fp_eq (resistance_denominator f2 f3 f4 rbc vn vr vb) (Fin 0) then Inr nodata
      else cast_short (resistance_scaled f1 f2 f3 f4 rbc vn vr vb))"
  by (simp add: index_resistance_px_def resistance_scaled_def resistance_denominator_def
      resistance_red_def Let_def int_to_float_consts)

lemma ratio_minus1_total: "\<exists>w. index_ratio_minus1_px v1 v2 nodata = Inr w"
proof (cases "sint v2 = 0")
  case True
  then show ?thesis by (simp add: index_ratio_minus1_px_def Let_def)
next
  case False
  define q where "q = fp_div f32 (band_float v1) (band_float v2)"
  define ind where "ind = narrow (fp_sub f64 q (dlit 1))"
  define scaled where "scaled = fp_mul f32 ind (flit 1000)"
  define b where "b = real_of_int (sint v2)"
  have "b \<noteq> 0" unfolding b_def using False by (simp only: of_int_eq_0_iff not_False_eq_True)
  then have "fp_div f32 (Fin a) (Fin b) \<noteq> NaN" for a by simp
  then have "q \<noteq> NaN" unfolding q_def band_float_exact b_def .
  then have "fp_sub f64 q (dlit 1) \<noteq> NaN" by (cases q) (simp_all add: fp_sub_def dlit_one)
  then have "ind \<noteq> NaN" by (simp add: ind_def)
  then have sn: "scaled \<noteq> NaN" by (cases ind) (simp_all add: scaled_def flit_1000)
  show ?thesis
  proof (cases "fp_gt scaled (Fin 32767) \<or> fp_lt scaled (Fin (- 32768))")
    case True
    then show ?thesis
      by (auto simp: index_ratio_minus1_px_def Let_def int_to_float_limits
          scaled_def ind_def q_def)
  next
    case f: False
    then have "\<exists>w. cast_short scaled = Inr w" using sn by (intro cast_short_checked) auto
    then show ?thesis using f False
      by (auto simp: index_ratio_minus1_px_def Let_def int_to_float_limits
          scaled_def ind_def q_def)
  qed
qed

section \<open>Properties of the constrained inversion\<close>

lemma fp_lt_NaN [simp]: "\<not> fp_lt a NaN" "\<not> fp_lt NaN a"
  by (cases a; simp)+

lemma fp_lt_trans: "fp_lt a b \<Longrightarrow> fp_lt b c \<Longrightarrow> fp_lt a c"
  by (cases a; cases b; cases c) auto

lemma fp_not_lt: "\<not> fp_lt a b \<Longrightarrow> a \<noteq> NaN \<Longrightarrow> b \<noteq> NaN \<Longrightarrow> fp_lt c b \<Longrightarrow> fp_lt c a"
  by (cases a; cases b; cases c) auto

lemma fp_pos_iff: "r \<noteq> NaN \<Longrightarrow> \<not> fp_le r (Fin 0) \<longleftrightarrow> fp_lt (Fin 0) r"
  by (cases r) (auto simp: fp_le_def)

lemma scan_min_pos:
  "fp_lt (Fin 0) (scan_min m xs) \<Longrightarrow> m \<noteq> NaN
   \<Longrightarrow> fp_lt (Fin 0) m \<and> (\<forall>x\<in>set xs. fp_lt (Fin 0) x)"
proof (induction xs arbitrary: m)
  case Nil
  then show ?case by simp
next
  case (Cons x xs)
  have xn: "x \<noteq> NaN" using Cons.prems(1) by (auto split: if_splits)
  define m' where "m' = (if fp_lt x m then x else m)"
  have r: "fp_lt (Fin 0) (scan_min m' xs)" using Cons.prems(1) xn by (simp add: m'_def)
  have "m' \<noteq> NaN" using xn Cons.prems(2) by (simp add: m'_def)
  with Cons.IH[OF r] have ih: "fp_lt (Fin 0) m'" "\<forall>y\<in>set xs. fp_lt (Fin 0) y" by auto
  show ?case
  proof (cases "fp_lt x m")
    case True
    then have "fp_lt (Fin 0) x" using ih(1) by (simp add: m'_def)
    moreover from this True have "fp_lt (Fin 0) m" by (rule fp_lt_trans)
    ultimately show ?thesis using ih(2) by simp
  next
    case False
    then have "fp_lt (Fin 0) m" using ih(1) by (simp add: m'_def)
    moreover from False xn Cons.prems(2) this have "fp_lt (Fin 0) x" by (rule fp_not_lt)
    ultimately show ?thesis using ih(2) by simp
  qed
qed

lemma gsl_vector_min_pos:
  assumes "gsl_vector_min v \<noteq> NaN" "\<not> fp_le (gsl_vector_min v) (Fin 0)" "x \<in> set v"
  shows "fp_lt (Fin 0) x"
proof -
  obtain y ys where v: "v = y # ys" using assms(3) by (cases v) auto
  have p: "fp_lt (Fin 0) (gsl_vector_min v)" using assms(1,2) by (simp add: fp_pos_iff)
  then have yn: "y \<noteq> NaN" by (auto simp: gsl_vector_min_def v split: if_splits)
  have "gsl_vector_min v = scan_min y ys" using yn by (cases y) (simp_all add: gsl_vector_min_def v)
  with p have "fp_lt (Fin 0) y \<and> (\<forall>x\<in>set ys. fp_lt (Fin 0) x)" using yn by (intro scan_min_pos) auto
  then show ?thesis using assms(3) v by auto
qed

lemma scan_max_index_at:
  "fp_gt (scan_max m xs) t
   \<Longrightarrow> (scan_max_index m imax i xs = imax \<and> scan_max m xs = m)
       \<or> (\<exists>k<length xs. scan_max_index m imax i xs = i + k \<and> xs ! k = scan_max m xs)"
proof (induction xs arbitrary: m imax i)
  case Nil
  then show ?case by simp
next
  case (Cons x xs)
  have xn: "x \<noteq> NaN" using Cons.prems by (auto simp: fp_gt_def split: if_splits)
  show ?case
  proof (cases "fp_gt x m")
    case True
    then have "fp_gt (scan_max x xs) t" using Cons.prems xn by simp
    from Cons.IH[OF this, of i "Suc i"] show ?thesis
    proof
      assume "scan_max_index x i (Suc i) xs = i \<and> scan_max x xs = x"
      then have "scan_max_index m imax i (x # xs) = i + 0 \<and> (x # xs) ! 0 = scan_max m (x # xs)"
        using True xn by simp
      then show ?thesis by blast
    next
      assume "\<exists>k<length xs. scan_max_index x i (Suc i) xs = Suc i + k \<and> xs ! k = scan_max x xs"
      then obtain k where "k < length xs" "scan_max_index x i (Suc i) xs = Suc i + k"
        "xs ! k = scan_max x xs" by blast
      then have "Suc k < length (x # xs) \<and> scan_max_index m imax i (x # xs) = i + Suc k
                 \<and> (x # xs) ! Suc k = scan_max m (x # xs)"
        using True xn by simp
      then show ?thesis by blast
    qed
  next
    case False
    then have "fp_gt (scan_max m xs) t" using Cons.prems xn by simp
    from Cons.IH[OF this, of imax "Suc i"] show ?thesis
    proof
      assume "scan_max_index m imax (Suc i) xs = imax \<and> scan_max m xs = m"
      then show ?thesis using False xn by simp
    next
      assume "\<exists>k<length xs. scan_max_index m imax (Suc i) xs = Suc i + k \<and> xs ! k = scan_max m xs"
      then obtain k where "k < length xs" "scan_max_index m imax (Suc i) xs = Suc i + k"
        "xs ! k = scan_max m xs" by blast
      then have "Suc k < length (x # xs) \<and> scan_max_index m imax i (x # xs) = i + Suc k
                 \<and> (x # xs) ! Suc k = scan_max m (x # xs)"
        using False xn by simp
      then show ?thesis by blast
    qed
  qed
qed

lemma gsl_vector_max_index_at:
  assumes "w \<noteq> []" "fp_gt (gsl_vector_max w) t"
  shows "gsl_vector_max_index w < length w \<and> w ! gsl_vector_max_index w = gsl_vector_max w"
proof -
  obtain x xs where w: "w = x # xs" using assms(1) by (cases w) auto
  have xn: "x \<noteq> NaN" using assms(2) by (auto simp: gsl_vector_max_def w fp_gt_def split: if_splits)
  have nn: "\<not> fp_gt x x" by (cases x) (auto simp: fp_gt_def)
  have m: "gsl_vector_max w = scan_max x xs" using xn nn by (simp add: gsl_vector_max_def w)
  have i: "gsl_vector_max_index w = scan_max_index x 0 (Suc 0) xs"
    using xn nn by (simp add: gsl_vector_max_index_def w)
  have "fp_gt (scan_max x xs) t" using assms(2) m by simp
  from scan_max_index_at[OF this, of 0 "Suc 0"] show ?thesis
  proof
    assume "scan_max_index x 0 (Suc 0) xs = 0 \<and> scan_max x xs = x"
    then show ?thesis unfolding m i by (simp add: w)
  next
    assume "\<exists>k<length xs. scan_max_index x 0 (Suc 0) xs = Suc 0 + k \<and> xs ! k = scan_max x xs"
    then show ?thesis unfolding m i by (auto simp: w)
  qed
qed

lemma passive_idx_less:
  assumes "i < M" "P ! i"
  shows "length (passive_idx i P) < length (passive_idx M P)"
proof -
  have "[0..<M] = [0..<i] @ [i..<M]" using assms(1) by (metis le_add_diff_inverse less_imp_le_nat upt_add_eq_append zero_le)
  moreover have "[i..<M] = i # [Suc i..<M]" using assms(1) by (simp add: upt_rec)
  ultimately show ?thesis using assms(2) by (simp add: passive_idx_def)
qed

lemma solve_passive_length: "length (snd (solve_passive G M ZtZ Ztx P)) = M"
  by (simp add: solve_passive_def Let_def)

lemma solve_passive_pos:
  assumes "fst (solve_passive G M ZtZ Ztx P) \<noteq> NaN"
    "\<not> fp_le (fst (solve_passive G M ZtZ Ztx P)) (Fin 0)"
    "x \<in> set (snd (solve_passive G M ZtZ Ztx P))"
  shows "fp_le (Fin 0) x"
proof -
  define s_gsl where "s_gsl = dgemv_n G (lu_invert G
     (map (\<lambda>i. map (\<lambda>j. ZtZ ! i ! j) (passive_idx M P)) (passive_idx M P)))
     (map (\<lambda>i. Ztx ! i) (passive_idx M P))"
  define s_sub where "s_sub = map (\<lambda>k. s_gsl ! k) [0..<length (passive_idx M P)]"
  have f: "fst (solve_passive G M ZtZ Ztx P) = gsl_vector_min s_sub"
    by (simp add: solve_passive_def Let_def s_sub_def s_gsl_def)
  have s: "snd (solve_passive G M ZtZ Ztx P)
           = map (\<lambda>i. if P ! i then s_sub ! length (passive_idx i P) else Fin 0) [0..<M]"
    by (simp add: solve_passive_def Let_def s_sub_def s_gsl_def)
  from assms(3) obtain i where i: "i < M"
    "x = (if P ! i then s_sub ! length (passive_idx i P) else Fin 0)"
    unfolding s by auto
  show ?thesis
  proof (cases "P ! i")
    case True
    then have "length (passive_idx i P) < length s_sub"
      using passive_idx_less[OF i(1)] by (simp add: s_sub_def)
    then have "x \<in> set s_sub" using i(2) True by simp
    then have "fp_lt (Fin 0) x" using assms(1,2) unfolding f by (intro gsl_vector_min_pos) auto
    then show ?thesis by (simp add: fp_le_def)
  next
    case False
    then show ?thesis using i(2) by (simp add: fp_le_def)
  qed
qed

lemma inner_step_it [simp]: "nn_it (inner_step G M ZtZ Ztx st) = nn_it st + 1"
  by (simp add: inner_step_def Let_def)

lemma inner_step_lengths [simp]:
  "length (nn_P (inner_step G M ZtZ Ztx st)) = M"
  "length (nn_R (inner_step G M ZtZ Ztx st)) = M"
  by (simp_all add: inner_step_def Let_def)

lemma inner_step_consistent [simp]: "nnls_consistent G M ZtZ Ztx (inner_step G M ZtZ Ztx st)"
  by (simp add: inner_step_def Let_def nnls_consistent_def)

lemma inner_loop_run:
  "fp_le (nn_smin st) (Fin 0) \<Longrightarrow> nn_it st < itmax
   \<Longrightarrow> inner_loop G M ZtZ Ztx itmax st
       = inner_loop G M ZtZ Ztx itmax (inner_step G M ZtZ Ztx st)"
  by (subst inner_loop.simps) simp

lemma inner_loop_stop:
  "\<not> (fp_le (nn_smin st) (Fin 0) \<and> nn_it st < itmax) \<Longrightarrow> inner_loop G M ZtZ Ztx itmax st = st"
  by (subst inner_loop.simps) auto

lemma inner_loop_it_mono: "nn_it st \<le> nn_it (inner_loop G M ZtZ Ztx itmax st)"
proof (induction G M ZtZ Ztx itmax st rule: inner_loop.induct)
  case (1 G M ZtZ Ztx itmax st)
  show ?case
  proof (cases "fp_le (nn_smin st) (Fin 0) \<and> nn_it st < itmax")
    case True
    then have "nn_it (inner_step G M ZtZ Ztx st)
               \<le> nn_it (inner_loop G M ZtZ Ztx itmax (inner_step G M ZtZ Ztx st))"
      by (rule 1)
    then show ?thesis using True by (simp add: inner_loop_run)
  next
    case False
    then show ?thesis by (simp add: inner_loop_stop)
  qed
qed

lemma inner_loop_it_bound:
  "nn_it st \<le> itmax \<Longrightarrow> nn_it (inner_loop G M ZtZ Ztx itmax st) \<le> itmax"
proof (induction G M ZtZ Ztx itmax st rule: inner_loop.induct)
  case (1 G M ZtZ Ztx itmax st)
  show ?case
  proof (cases "fp_le (nn_smin st) (Fin 0) \<and> nn_it st < itmax")
    case True
    then have "nn_it (inner_loop G M ZtZ Ztx itmax (inner_step G M ZtZ Ztx st)) \<le> itmax"
      by (intro 1(1)) simp_all
    then show ?thesis using True by (simp add: inner_loop_run)
  next
    case False
    then show ?thesis using 1(2) by (simp add: inner_loop_stop)
  qed
qed

lemma inner_loop_unchanged:
  assumes "nn_it (inner_loop G M ZtZ Ztx itmax st) = nn_it st"
  shows "inner_loop G M ZtZ Ztx itmax st = st"
proof (cases "fp_le (nn_smin st) (Fin 0) \<and> nn_it st < itmax")
  case True
  then have "inner_loop G M ZtZ Ztx itmax st
             = inner_loop G M ZtZ Ztx itmax (inner_step G M ZtZ Ztx st)"
    by (simp add: inner_loop_run)
  moreover have "nn_it (inner_step G M ZtZ Ztx st)
                 \<le> nn_it (inner_loop G M ZtZ Ztx itmax (inner_step G M ZtZ Ztx st))"
    by (rule inner_loop_it_mono)
  ultimately show ?thesis using assms by simp
next
  case False
  then show ?thesis by (rule inner_loop_stop)
qed

lemma inner_loop_lengths:
  "length (nn_P st) = M \<and> length (nn_R st) = M
   \<Longrightarrow> length (nn_P (inner_loop G M ZtZ Ztx itmax st)) = M
       \<and> length (nn_R (inner_loop G M ZtZ Ztx itmax st)) = M"
proof (induction G M ZtZ Ztx itmax st rule: inner_loop.induct)
  case (1 G M ZtZ Ztx itmax st)
  show ?case
  proof (cases "fp_le (nn_smin st) (Fin 0) \<and> nn_it st < itmax")
    case True
    then have "length (nn_P (inner_loop G M ZtZ Ztx itmax (inner_step G M ZtZ Ztx st))) = M
       \<and> length (nn_R (inner_loop G M ZtZ Ztx itmax (inner_step G M ZtZ Ztx st))) = M"
      by (intro 1(1)) simp_all
    then show ?thesis using True by (simp add: inner_loop_run)
  next
    case False
    then show ?thesis using 1(2) by (simp add: inner_loop_stop)
  qed
qed

lemma inner_loop_consistent:
  "nnls_consistent G M ZtZ Ztx st
   \<Longrightarrow> nnls_consistent G M ZtZ Ztx (inner_loop G M ZtZ Ztx itmax st)"
proof (induction G M ZtZ Ztx itmax st rule: inner_loop.induct)
  case (1 G M ZtZ Ztx itmax st)
  show ?case
  proof (cases "fp_le (nn_smin st) (Fin 0) \<and> nn_it st < itmax")
    case True
    then have "nnls_consistent G M ZtZ Ztx
                 (inner_loop G M ZtZ Ztx itmax (inner_step G M ZtZ Ztx st))"
      by (intro 1(1)) simp_all
    then show ?thesis using True by (simp add: inner_loop_run)
  next
    case False
    then show ?thesis using 1(2) by (simp add: inner_loop_stop)
  qed
qed

lemma inner_loop_exit:
  "\<not> (fp_le (nn_smin (inner_loop G M ZtZ Ztx itmax st)) (Fin 0)
      \<and> nn_it (inner_loop G M ZtZ Ztx itmax st) < itmax)"
proof (induction G M ZtZ Ztx itmax st rule: inner_loop.induct)
  case (1 G M ZtZ Ztx itmax st)
  show ?case
  proof (cases "fp_le (nn_smin st) (Fin 0) \<and> nn_it st < itmax")
    case True
    then have "\<not> (fp_le (nn_smin (inner_loop G M ZtZ Ztx itmax (inner_step G M ZtZ Ztx st))) (Fin 0)
      \<and> nn_it (inner_loop G M ZtZ Ztx itmax (inner_step G M ZtZ Ztx st)) < itmax)"
      by (rule 1)
    then show ?thesis using True by (simp add: inner_loop_run)
  next
    case False
    then show ?thesis by (simp add: inner_loop_stop)
  qed
qed

lemma count_clear:
  assumes "m < length R" "R ! m"
  shows "length (filter id (R[m := False])) < length (filter id R)"
proof -
  have "R = take m R @ R ! m # drop (Suc m) R" using assms(1) by (rule id_take_nth_drop)
  then have r: "R = take m R @ True # drop (Suc m) R" using assms(2) by simp
  have "R[m := False] = take m R @ False # drop (Suc m) R"
    using assms(1) by (rule upd_conv_take_nth_drop)
  then have "length (filter id (R[m := False]))
             = length (filter id (take m R)) + length (filter id (drop (Suc m) R))" by simp
  moreover have "length (filter id R)
             = length (filter id (take m R)) + 1 + length (filter id (drop (Suc m) R))"
    by (subst r) simp
  ultimately show ?thesis by simp
qed

lemma tol_gt: "\<not> fp_gt (Fin (- 1)) tol"
proof -
  have "(0::real) < pow2 (- 126)" by simp
  then have "\<not> pow2 (- 126) < - 1" by linarith
  then show ?thesis by (simp add: fp_gt_def tol_def)
qed

lemma nnls_inv_init: "nnls_inv M itmax (nnls_init G M ZtZ Ztx)"
  by (simp add: nnls_inv_def nnls_init_def Let_def fp_le_def)

lemma outer_step_inv:
  assumes inv: "nnls_inv M itmax st" and c: "outer_cond st"
  shows "nnls_inv M itmax (outer_step G M ZtZ Ztx itmax st)
         \<and> nnls_measure M itmax (outer_step G M ZtZ Ztx itmax st) < nnls_measure M itmax st"
proof -
  define m where "m = gsl_vector_max_index (nn_w st)"
  define sol where "sol = solve_passive G M ZtZ Ztx ((nn_P st)[m := True])"
  define st1 where "st1 = st\<lparr>nn_P := (nn_P st)[m := True], nn_R := (nn_R st)[m := False],
                              nn_s := snd sol, nn_smin := fst sol\<rparr>"
  define st2 where "st2 = inner_loop G M ZtZ Ztx itmax st1"
  define w0 where "w0 = dgemv_n G ZtZ (nn_s st2)"
  define st3 where "st3 = st2\<lparr>nn_d := nn_s st2,
      nn_w := map (\<lambda>i. if nn_R st2 ! i then fp_sub f64 (Ztx ! i) (w0 ! i) else Fin (- 1)) [0..<M]\<rparr>"
  have step: "outer_step G M ZtZ Ztx itmax st = st3"
    by (simp add: outer_step_def Let_def st3_def w0_def st2_def st1_def sol_def m_def)
  have len: "length (nn_P st) = M" "length (nn_R st) = M" "length (nn_w st) = M"
    and wR: "\<forall>i<M. \<not> nn_R st ! i \<longrightarrow> nn_w st ! i = Fin (- 1)"
    and it: "nn_it st \<le> itmax"
    using inv by (simp_all add: nnls_inv_def)
  have "nn_R st \<noteq> []" using c by (auto simp: outer_cond_def)
  then have "nn_w st \<noteq> []" using len by auto
  moreover have gt: "fp_gt (gsl_vector_max (nn_w st)) tol" using c by (simp add: outer_cond_def)
  ultimately have mM: "m < M" and wm: "nn_w st ! m = gsl_vector_max (nn_w st)"
    using gsl_vector_max_index_at[of "nn_w st" tol] len by (simp_all add: m_def)
  have Rm: "nn_R st ! m"
  proof (rule ccontr)
    assume "\<not> nn_R st ! m"
    then have "nn_w st ! m = Fin (- 1)" using wR mM by simp
    then show False using gt wm tol_gt by simp
  qed
  have l1: "length (nn_P st1) = M \<and> length (nn_R st1) = M" using len by (simp add: st1_def)
  have c1: "nnls_consistent G M ZtZ Ztx st1" by (simp add: nnls_consistent_def st1_def sol_def)
  have it1: "nn_it st1 = nn_it st" by (simp add: st1_def)
  have l2: "length (nn_P st2) = M" "length (nn_R st2) = M"
    using inner_loop_lengths[OF l1] by (simp_all add: st2_def)
  have c2: "nnls_consistent G M ZtZ Ztx st2" unfolding st2_def using c1 by (rule inner_loop_consistent)
  have it2: "nn_it st \<le> nn_it st2" "nn_it st2 \<le> itmax"
    using inner_loop_it_mono[of st1 G M ZtZ Ztx itmax] inner_loop_it_bound[of st1 itmax G M ZtZ Ztx]
      it it1 by (simp_all add: st2_def)
  have ex: "\<not> (fp_le (nn_smin st2) (Fin 0) \<and> nn_it st2 < itmax)"
    unfolding st2_def by (rule inner_loop_exit)
  have pos: "nn_it st2 < itmax \<longrightarrow> nn_smin st2 \<noteq> NaN \<longrightarrow> (\<forall>x\<in>set (nn_s st2). fp_le (Fin 0) x)"
  proof (intro impI ballI)
    fix x assume a: "nn_it st2 < itmax" "nn_smin st2 \<noteq> NaN" "x \<in> set (nn_s st2)"
    from a(1) ex have "\<not> fp_le (nn_smin st2) (Fin 0)" by simp
    then show "fp_le (Fin 0) x"
      using a(2,3) c2 solve_passive_pos[of G M ZtZ Ztx "nn_P st2" x]
      by (simp add: nnls_consistent_def)
  qed
  have inv3: "nnls_inv M itmax st3"
    using l2 it2 pos by (simp add: nnls_inv_def st3_def)
  have meas: "nnls_measure M itmax st3 < nnls_measure M itmax st"
  proof (cases "nn_it st2 = nn_it st")
    case True
    then have "st2 = st1" unfolding st2_def using it1 inner_loop_unchanged[of G M ZtZ Ztx itmax st1] by simp
    then have "nn_R st3 = (nn_R st)[m := False]" by (simp add: st3_def st1_def)
    moreover have "length (filter id ((nn_R st)[m := False])) < length (filter id (nn_R st))"
      using mM len Rm by (intro count_clear) auto
    ultimately show ?thesis using True by (simp add: nnls_measure_def st3_def)
  next
    case False
    then have lt: "nn_it st < nn_it st2" using it2 by simp
    have "length (filter id (nn_R st2)) \<le> M" using l2 length_filter_le[of id "nn_R st2"] by simp
    then have "nnls_measure M itmax st3 \<le> (itmax - nn_it st2) * (M + 1) + M"
      by (simp add: nnls_measure_def st3_def)
    also have "\<dots> < (itmax - nn_it st2 + 1) * (M + 1)" by simp
    also have "\<dots> \<le> (itmax - nn_it st) * (M + 1)"
      using lt it2 by (intro mult_right_mono) auto
    also have "\<dots> \<le> nnls_measure M itmax st" by (simp add: nnls_measure_def)
    finally show ?thesis .
  qed
  show ?thesis unfolding step using inv3 meas by simp
qed

lemma nnls_solve_inv:
  "\<exists>st. nnls_solve G M ZtZ Ztx = Some st \<and> nnls_inv M (30 * M) st"
proof -
  have step: "\<And>s. nnls_inv M (30 * M) s \<Longrightarrow> outer_cond s
     \<Longrightarrow> nnls_inv M (30 * M) (outer_step G M ZtZ Ztx (30 * M) s)
       \<and> nnls_measure M (30 * M) (outer_step G M ZtZ Ztx (30 * M) s) < nnls_measure M (30 * M) s"
    by (rule outer_step_inv)
  have init: "nnls_inv M (30 * M) (nnls_init G M ZtZ Ztx)" by (rule nnls_inv_init)
  from measure_while_option_Some[of "nnls_inv M (30 * M)" outer_cond
      "outer_step G M ZtZ Ztx (30 * M)" "nnls_measure M (30 * M)", OF step init]
  obtain t where t: "while_option outer_cond (outer_step G M ZtZ Ztx (30 * M))
                       (nnls_init G M ZtZ Ztx) = Some t"
    by blast
  have "nnls_inv M (30 * M) t"
    by (rule while_option_rule[where P = "nnls_inv M (30 * M)", OF _ t init]) (simp add: step)
  then show ?thesis using t by (simp add: nnls_solve_def)
qed

lemma fp_le_zero_tol: "fp_le (Fin 0) x \<Longrightarrow> fp_le (fp_neg tol) x"
proof -
  assume a: "fp_le (Fin 0) x"
  have t: "(0::real) < pow2 (- 126)" by simp
  show ?thesis
  proof (cases x)
    case (Fin v)
    then have "0 \<le> v" using a by (auto simp: fp_le_def)
    then have "- pow2 (- 126) < v" using t by linarith
    then show ?thesis using Fin by (simp add: fp_le_def tol_def)
  qed (use a in \<open>auto simp: fp_le_def tol_def\<close>)
qed


text \<open>The run of the solver on the smallest problem.\<close>

lemma Z_one: "endmember_matrix sma_one em_one = [[Fin 1], [Fin 1]]"
  by (simp add: endmember_matrix_def sma_one_def em_one_def)

lemma x_one: "spectrum sma_one em_one frame_zero 0 = [Fin 0, Fin 1]"
  by (simp add: spectrum_def sma_one_def em_one_def frame_zero_def fp_eval)

lemma ZtZ_one: "dgemm_tn gsl_plain [[Fin 1], [Fin 1]] = [[Fin 2]]"
  by (simp add: gsl_plain_def dot64_def upt_rec fp_eval)

lemma Ztx_one: "dgemv_t gsl_plain [[Fin 1], [Fin 1]] [Fin 0, Fin 1] = [Fin 1]"
  by (simp add: gsl_plain_def dot64_def upt_rec fp_eval)

lemma init_one: "nnls_init gsl_plain 1 [[Fin 2]] [Fin 1] = nnls_zero"
  by (simp add: nnls_init_def nnls_zero_def gsl_plain_def dot64_def fp_eval)

lemma solve_one:
  "solve_passive gsl_plain 1 [[Fin 2]] [Fin 1] [True] = (Fin (1 / 2), [Fin (1 / 2)])"
  by (simp add: solve_passive_def passive_idx_def gsl_plain_def dot64_def gsl_vector_min_def fp_eval)

lemma cond_zero: "outer_cond nnls_zero"
  by (simp add: outer_cond_def nnls_zero_def gsl_vector_max_def tol_def fp_gt_def pow2_def)

lemma cond_one: "\<not> outer_cond nnls_one"
  by (simp add: outer_cond_def nnls_one_def)

lemma w_one: "dgemv_n gsl_plain [[Fin 2]] [Fin (1 / 2)] = [Fin 1]"
  by (simp add: gsl_plain_def dot64_def fp_eval)

lemma step_one: "outer_step gsl_plain 1 [[Fin 2]] [Fin 1] 30 nnls_zero = nnls_one"
proof -
  have m: "gsl_vector_max_index (nn_w nnls_zero) = 0"
    by (simp add: nnls_zero_def gsl_vector_max_index_def fp_gt_def)
  have P: "(nn_P nnls_zero)[0 := True] = [True]" by (simp add: nnls_zero_def)
  have stop: "inner_loop gsl_plain 1 [[Fin 2]] [Fin 1] 30
           (nnls_zero\<lparr>nn_P := [True], nn_R := (nn_R nnls_zero)[0 := False],
              nn_s := [Fin (1 / 2)], nn_smin := Fin (1 / 2)\<rparr>)
         = nnls_zero\<lparr>nn_P := [True], nn_R := (nn_R nnls_zero)[0 := False],
              nn_s := [Fin (1 / 2)], nn_smin := Fin (1 / 2)\<rparr>"
    by (rule inner_loop_stop) (simp add: fp_le_def)
  show ?thesis
    unfolding outer_step_def Let_def m P solve_one fst_conv snd_conv stop
    by (simp add: w_one nnls_zero_def nnls_one_def)
qed

lemma run_one: "nnls_solve gsl_plain 1 [[Fin 2]] [Fin 1] = Some nnls_one"
proof -
  have "nnls_solve gsl_plain 1 [[Fin 2]] [Fin 1]
        = while_option outer_cond (outer_step gsl_plain 1 [[Fin 2]] [Fin 1] 30) nnls_zero"
    by (simp only: nnls_solve_def init_one mult_1_right)
  also have "\<dots> = while_option outer_cond (outer_step gsl_plain 1 [[Fin 2]] [Fin 1] 30) nnls_one"
    by (subst while_option_unfold) (simp only: cond_zero step_one if_True)
  also have "\<dots> = Some nnls_one"
    by (subst while_option_unfold) (simp only: cond_one if_False)
  finally show ?thesis .
qed

section \<open>Outcomes of the kernels and of the dispatcher\<close>

text \<open>
  A loop over cells and dates fails only where the computation of one cell and date
  fails, and the only failure of a kernel other than the mixture analysis is a
  conversion of a value that the output type cannot hold. The mixture analysis exits
  before its loop when the band counts differ; its inversion always ends.
\<close>

lemma cast_short_error: "cast_short v = Inl e \<Longrightarrow> e = Undefined_conversion"
  by (cases v) (auto split: if_splits)

lemma for_each_error: "for_each xs f s = Inl e \<Longrightarrow> \<exists>i\<in>set xs. \<exists>s'. f i s' = Inl e"
  by (induction xs arbitrary: s) (auto split: sum.splits)

lemma sum_case_error: "(case r of Inl e \<Rightarrow> Inl e | Inr v \<Rightarrow> Inr (g v)) = Inl e \<Longrightarrow> r = Inl e"
  by (cases r) simp_all

lemma sum_case_pair_error:
  "(case r of Inl e \<Rightarrow> Inl e | Inr (v, q) \<Rightarrow> Inr (g v q)) = Inl e \<Longrightarrow> r = Inl e"
  by (cases r) auto

lemma kernel_loop_error:
  assumes px: "\<And>t p e. px t p = Inl e \<Longrightarrow> e = Undefined_conversion"
    and r: "kernel_loop px ard maskp ts nc nt nodata = Inl e"
  shows "e = Undefined_conversion"
proof -
  from for_each_error[OF r[unfolded kernel_loop_def]] obtain p s1 where
    "for_each [0..<nt] (\<lambda>t ts2.
              if \<not> msk (ard t) p then Inr (set_tss t p nodata ts2)
              else (case px t p of Inl e \<Rightarrow> Inl e | Inr v \<Rightarrow> Inr (set_tss t p v ts2))) s1
     = Inl e" by (auto split: if_splits)
  from for_each_error[OF this] obtain t where "px t p = Inl e"
    by (auto split: if_splits dest: sum_case_error)
  then show ?thesis by (rule px)
qed

lemma nnls_solve_budget:
  "\<exists>st. nnls_solve G M ZtZ Ztx = Some st \<and> nn_it st \<le> 30 * M \<and> nn_d st = nn_s st"
  using nnls_solve_inv[of G M ZtZ Ztx] by (auto simp: nnls_inv_def)

lemma index_unmixed_px_error:
  assumes "index_unmixed_px G sma em Z ZtZ frame p = Inl e"
  shows "e = Undefined_conversion"
proof -
  have u: "unmix G sma (ne em) ZtZ (dgemv_t G Z (spectrum sma em frame p)) \<noteq> None"
    using nnls_solve_budget[of G "ne em" ZtZ "dgemv_t G Z (spectrum sma em frame p)"]
    by (auto simp: unmix_def)
  show ?thesis
    using assms u
    by (auto simp: index_unmixed_px_def Let_def retain_def map_sum_def
        split: option.splits sum.splits if_splits dest: cast_short_error)
qed


lemma index_unmixed_error:
  assumes "index_unmixed G ard maskp ts nc nt nodata sma em = Inl e"
  shows "e = Undefined_conversion \<or> (e = Fatal_exit \<and> nb em \<noteq> nbands (ard 0))"
proof (cases "nb em \<noteq> nbands (ard 0)")
  case True
  then show ?thesis using assms by (simp add: index_unmixed_def)
next
  case False
  have r: "for_each [0..<nc] (\<lambda>p ts1.
              if masked maskp p then Inr (fold (\<lambda>t. set_tss t p nodata) [0..<nt] ts1)
              else for_each [0..<nt] (\<lambda>t ts2.
                     if \<not> msk (ard t) p
                     then Inr (if orms sma then set_rms t p nodata (set_tss t p nodata ts2)
                               else set_tss t p nodata ts2)
                     else (case index_unmixed_px G sma em (endmember_matrix sma em)
                                  (dgemm_tn G (endmember_matrix sma em)) (ard t) p of
                             Inl e \<Rightarrow> Inl e
                           | Inr (v, r) \<Rightarrow>
                               Inr (set_tss t p v
                                      (case r of None \<Rightarrow> ts2
                                       | Some e \<Rightarrow> set_rms t p e ts2)))) ts1) ts = Inl e"
    using assms False by (simp add: index_unmixed_def Let_def)
  from for_each_error[OF r] obtain p s1 where
    "for_each [0..<nt] (\<lambda>t ts2.
                     if \<not> msk (ard t) p
                     then Inr (if orms sma then set_rms t p nodata (set_tss t p nodata ts2)
                               else set_tss t p nodata ts2)
                     else (case index_unmixed_px G sma em (endmember_matrix sma em)
                                  (dgemm_tn G (endmember_matrix sma em)) (ard t) p of
                             Inl e \<Rightarrow> Inl e
                           | Inr (v, r) \<Rightarrow>
                               Inr (set_tss t p v
                                      (case r of None \<Rightarrow> ts2
                                       | Some e \<Rightarrow> set_rms t p e ts2)))) s1 = Inl e"
    by (auto split: if_splits)
  from for_each_error[OF this] obtain t where
    "index_unmixed_px G sma em (endmember_matrix sma em)
        (dgemm_tn G (endmember_matrix sma em)) (ard t) p = Inl e"
    by (auto split: if_splits dest: sum_case_pair_error)
  then show ?thesis by (simp add: index_unmixed_px_error)
qed

lemma px_errors:
  "index_band_px v = Inl e \<Longrightarrow> e = Undefined_conversion"
  "index_differenced_px v1 v2 nodata = Inl e \<Longrightarrow> e = Undefined_conversion"
  "index_cont_remove_px w0 w1 w2 u0 u1 u2 = Inl e \<Longrightarrow> e = Undefined_conversion"
  "index_ratio_minus1_px v1 v2 nodata = Inl e \<Longrightarrow> e = Undefined_conversion"
  "index_msrre_px v1 v2 nodata = Inl e \<Longrightarrow> e = Undefined_conversion"
  "index_kernelized_px libm_exp v1 v2 nodata = Inl e \<Longrightarrow> e = Undefined_conversion"
  "index_resistance_px f1 f2 f3 f4 rbc vn vr vb nodata = Inl e \<Longrightarrow> e = Undefined_conversion"
  "index_tasseled_px type vb vg vr vn vs1 vs2 = Inl e \<Longrightarrow> e = Undefined_conversion"
  by (auto simp: index_band_px_def index_differenced_px_def index_cont_remove_px_def
      index_ratio_minus1_px_def index_msrre_px_def index_kernelized_px_def
      index_resistance_px_def index_tasseled_px_def Let_def
      split: if_splits dest: cast_short_error)

lemma kernel_errors:
  "index_band ard maskp ts b nc nt nodata = Inl e \<Longrightarrow> e = Undefined_conversion"
  "index_differenced ard maskp ts b1 b2 nc nt nodata = Inl e \<Longrightarrow> e = Undefined_conversion"
  "index_cont_remove ard maskp ts b0 b1 b2 w0 w1 w2 nc nt nodata = Inl e
     \<Longrightarrow> e = Undefined_conversion"
  "index_ratio_minus1 ard maskp ts b1 b2 nc nt nodata = Inl e \<Longrightarrow> e = Undefined_conversion"
  "index_msrre ard maskp ts b1 b2 nc nt nodata = Inl e \<Longrightarrow> e = Undefined_conversion"
  "index_kernelized libm_exp ard maskp ts b1 b2 nc nt nodata = Inl e
     \<Longrightarrow> e = Undefined_conversion"
  "index_resistance ard maskp ts n r b f1 f2 f3 f4 rbc nc nt nodata = Inl e
     \<Longrightarrow> e = Undefined_conversion"
  "index_tasseled ard maskp ts type b g r n s1 s2 nc nt nodata = Inl e
     \<Longrightarrow> e = Undefined_conversion"
  unfolding index_band_def index_differenced_def index_cont_remove_def index_ratio_minus1_def
    index_msrre_def index_kernelized_def index_resistance_def index_tasseled_def
  by (erule kernel_loop_error[rotated], erule px_errors)+

lemma kernel_done_error: "kernel_done r = Inl e \<Longrightarrow> r = Inl e"
  by (cases r) (simp_all add: kernel_done_def)

lemma switch_index_error:
  assumes "switch_index G libm_exp ard ts maskp nc nt nodata sma sen em i = Inl e"
  shows "e = Undefined_conversion \<or> (e = Fatal_exit \<and> i = IDX_SMA \<and> nb em \<noteq> nbands (ard 0))"
  using assms
  by (cases i) (auto dest!: kernel_done_error dest: kernel_errors index_unmixed_error)

section \<open>Two runs of the constrained inversion\<close>

text \<open>
  The run on the table of five bands. After the first pass of the main loop the first
  material alone is passive, and the rounded residual of the second is one unit in the
  last place above zero. Each further pass adds the second material, finds its restricted
  solution negative, spends one pass of the inner loop on removing it again (the step
  \<open>alpha\<close> is 0, since the fraction is still 0), and returns to the same state with the
  counter one higher. After 60 such passes the inner loop is no longer entered and the
  restricted solution is copied as it is.
\<close>

lemma Z_cycle: "endmember_matrix (sma_select k) em_cycle = Z_cycle"
  by (simp add: endmember_matrix_def sma_select_def em_cycle_def Z_cycle_def upt_rec)

lemma x_cycle:
  "spectrum (sma_select k) em_cycle frame_ones 0 = [Fin 1, Fin 1, Fin 1, Fin 1, Fin 1]"
  by (simp add: spectrum_def sma_select_def em_cycle_def frame_ones_def upt_rec fp_eval)

lemma ZtZ_cycle: "dgemm_tn gsl_lu Z_cycle = ZtZ_cycle"
  by (simp add: gsl_lu_def gsl_plain_def dot64_def Z_cycle_def ZtZ_cycle_def upt_rec fp_eval)

lemma Ztx_cycle: "dgemv_t gsl_lu Z_cycle [Fin 1, Fin 1, Fin 1, Fin 1, Fin 1] = Ztx_cycle"
  by (simp add: gsl_lu_def gsl_plain_def dot64_def Z_cycle_def Ztx_cycle_def upt_rec fp_eval)

lemma init_cycle: "nnls_init gsl_lu 2 ZtZ_cycle Ztx_cycle = nnls_cycle_start"
  by (simp add: nnls_init_def nnls_cycle_start_def gsl_lu_def gsl_plain_def dot64_def
      ZtZ_cycle_def Ztx_cycle_def upt_rec numeral_2_eq_2 fp_eval)

lemma sol_first:
  "solve_passive gsl_lu 2 ZtZ_cycle Ztx_cycle [True, False]
   = (Fin (1 + 9 / 2 ^ 51), [Fin (1 + 9 / 2 ^ 51), Fin 0])"
  by (simp add: solve_passive_def passive_idx_def gsl_lu_def gsl_plain_def lu_invert2_def
      dot64_def gsl_vector_min_def ZtZ_cycle_def Ztx_cycle_def upt_rec fp_eval)

lemma inv_cycle:
  "lu_invert2 ZtZ_cycle
   = [[Fin (5380276898583893 / 4503599627370496), Fin (- (21 / 16))], [Fin (- (21 / 16)), Fin 2]]"
  by (simp add: lu_invert2_def ZtZ_cycle_def fp_eval)

lemma sol_both:
  "solve_passive gsl_lu 2 ZtZ_cycle Ztx_cycle [True, True]
   = (Fin (- (1 / 2 ^ 51)), [Fin (1 + 9 / 2 ^ 51), Fin (- (1 / 2 ^ 51))])"
proof -
  have sub: "map (\<lambda>i. map (\<lambda>j. ZtZ_cycle ! i ! j) (passive_idx 2 [True, True]))
               (passive_idx 2 [True, True]) = ZtZ_cycle"
    by (simp add: passive_idx_def ZtZ_cycle_def upt_rec)
  have sub2: "map (\<lambda>i. Ztx_cycle ! i) (passive_idx 2 [True, True]) = Ztx_cycle"
    by (simp add: passive_idx_def Ztx_cycle_def upt_rec)
  have s: "dgemv_n gsl_lu (lu_invert gsl_lu ZtZ_cycle) Ztx_cycle
           = [Fin (1 + 9 / 2 ^ 51), Fin (- (1 / 2 ^ 51))]"
    by (simp add: gsl_lu_def gsl_plain_def inv_cycle dot64_def Ztx_cycle_def upt_rec fp_eval)
  show ?thesis
    unfolding solve_passive_def Let_def sub sub2 s
    by (simp add: passive_idx_def gsl_vector_min_def upt_rec)
qed

lemma w_first:
  "dgemv_n gsl_lu ZtZ_cycle [Fin (1 + 9 / 2 ^ 51), Fin 0]
   = [Fin (6755399441055771 / 2251799813685248), Fin (8866461766385699 / 4503599627370496)]"
  by (simp add: gsl_lu_def gsl_plain_def dot64_def ZtZ_cycle_def upt_rec fp_eval)

lemma cond_start: "outer_cond nnls_cycle_start"
  by (simp add: outer_cond_def nnls_cycle_start_def Ztx_cycle_def gsl_vector_max_def tol_def
      fp_gt_def pow2_def)

lemma cond_cycle: "outer_cond (nnls_cycle n)"
  by (simp add: outer_cond_def nnls_cycle_def gsl_vector_max_def tol_def fp_gt_def pow2_def)

lemma cond_end: "\<not> outer_cond nnls_cycle_end"
  by (simp add: outer_cond_def nnls_cycle_end_def)

lemma step_start: "outer_step gsl_lu 2 ZtZ_cycle Ztx_cycle 60 nnls_cycle_start = nnls_cycle 0"
proof -
  define st where "st = nnls_cycle_start\<lparr>nn_P := [True, False],
      nn_R := (nn_R nnls_cycle_start)[0 := False],
      nn_s := [Fin (1 + 9 / 2 ^ 51), Fin 0], nn_smin := Fin (1 + 9 / 2 ^ 51)\<rparr>"
  have m: "gsl_vector_max_index (nn_w nnls_cycle_start) = 0"
    by (simp add: nnls_cycle_start_def Ztx_cycle_def gsl_vector_max_index_def fp_gt_def)
  have P: "(nn_P nnls_cycle_start)[0 := True] = [True, False]"
    by (simp add: nnls_cycle_start_def)
  have stop: "inner_loop gsl_lu 2 ZtZ_cycle Ztx_cycle 60 st = st"
    by (rule inner_loop_stop) (simp add: st_def fp_le_def)
  have s: "nn_s st = [Fin (1 + 9 / 2 ^ 51), Fin 0]" by (simp add: st_def)
  have fin: "st\<lparr>nn_d := nn_s st,
       nn_w := map (\<lambda>i. if nn_R st ! i
                          then fp_sub f64 (Ztx_cycle ! i) (dgemv_n gsl_lu ZtZ_cycle (nn_s st) ! i)
                          else Fin (- 1)) [0..<2]\<rparr> = nnls_cycle 0"
    unfolding s w_first
    by (simp add: st_def nnls_cycle_start_def nnls_cycle_def Ztx_cycle_def upt_rec
        numeral_2_eq_2 fp_eval)
  show ?thesis
    unfolding outer_step_def Let_def m P sol_first fst_conv snd_conv st_def[symmetric] stop
    by (rule fin)
qed

lemma trial_cycle:
  "(nnls_cycle n)\<lparr>nn_P := (nn_P (nnls_cycle n))[gsl_vector_max_index (nn_w (nnls_cycle n)) := True],
       nn_R := (nn_R (nnls_cycle n))[gsl_vector_max_index (nn_w (nnls_cycle n)) := False],
       nn_s := [Fin (1 + 9 / 2 ^ 51), Fin (- (1 / 2 ^ 51))], nn_smin := Fin (- (1 / 2 ^ 51))\<rparr>
   = nnls_trial n"
  by (simp add: nnls_cycle_def nnls_trial_def gsl_vector_max_index_def fp_gt_def)

lemma inner_step_trial:
  "inner_step gsl_lu 2 ZtZ_cycle Ztx_cycle (nnls_trial n) = nnls_back (Suc n)"
proof -
  have a: "map (\<lambda>i. if fp_le (nn_s (nnls_trial n) ! i) tol \<and> nn_P (nnls_trial n) ! i
                        then fp_div f64 (nn_d (nnls_trial n) ! i)
                               (fp_sub f64 (nn_d (nnls_trial n) ! i) (nn_s (nnls_trial n) ! i))
                        else Fin INT_MAX) [0..<2] = [Fin INT_MAX, Fin 0]"
    by (simp add: nnls_trial_def upt_rec numeral_2_eq_2 tol_def fp_eval)
  have al: "gsl_vector_min [Fin INT_MAX, Fin 0] = Fin 0"
    by (simp add: gsl_vector_min_def INT_MAX_def)
  have d: "map (\<lambda>i. fp_add f64 (nn_d (nnls_trial n) ! i)
                   (fp_mul f64 (Fin 0) (fp_sub f64 (nn_s (nnls_trial n) ! i) (nn_d (nnls_trial n) ! i))))
             [0..<2] = [Fin (1 + 9 / 2 ^ 51), Fin 0]"
    by (simp add: nnls_trial_def upt_rec numeral_2_eq_2 fp_eval)
  have P: "map (\<lambda>i. if fp_lt (fp_abs ([Fin (1 + 9 / 2 ^ 51), Fin 0] ! i)) tol \<and> nn_P (nnls_trial n) ! i
                     then False else nn_P (nnls_trial n) ! i) [0..<2] = [True, False]"
    by (simp add: nnls_trial_def upt_rec numeral_2_eq_2 tol_def pow2_def)
  have R: "map (\<lambda>i. if fp_lt (fp_abs ([Fin (1 + 9 / 2 ^ 51), Fin 0] ! i)) tol \<and> nn_P (nnls_trial n) ! i
                     then True else nn_R (nnls_trial n) ! i) [0..<2] = [False, True]"
    by (simp add: nnls_trial_def upt_rec numeral_2_eq_2 tol_def pow2_def)
  show ?thesis
    unfolding inner_step_def Let_def a al d P R sol_first fst_conv snd_conv
    by (simp add: nnls_trial_def nnls_back_def)
qed

lemma inner_loop_trial:
  assumes "n < 60"
  shows "inner_loop gsl_lu 2 ZtZ_cycle Ztx_cycle 60 (nnls_trial n) = nnls_back (Suc n)"
proof -
  have "inner_loop gsl_lu 2 ZtZ_cycle Ztx_cycle 60 (nnls_trial n)
        = inner_loop gsl_lu 2 ZtZ_cycle Ztx_cycle 60 (nnls_back (Suc n))"
    using inner_loop_run[of "nnls_trial n" 60 gsl_lu 2 ZtZ_cycle Ztx_cycle] assms
    by (simp add: inner_step_trial) (simp add: nnls_trial_def fp_le_def)
  also have "\<dots> = nnls_back (Suc n)"
    by (rule inner_loop_stop) (simp add: nnls_back_def fp_le_def)
  finally show ?thesis .
qed

lemma finish_back:
  "(nnls_back n)\<lparr>nn_d := nn_s (nnls_back n),
       nn_w := map (\<lambda>i. if nn_R (nnls_back n) ! i
                          then fp_sub f64 (Ztx_cycle ! i)
                                 (dgemv_n gsl_lu ZtZ_cycle (nn_s (nnls_back n)) ! i)
                          else Fin (- 1)) [0..<2]\<rparr> = nnls_cycle n"
proof -
  have s: "nn_s (nnls_back n) = [Fin (1 + 9 / 2 ^ 51), Fin 0]" by (simp add: nnls_back_def)
  show ?thesis unfolding s w_first
    by (simp add: nnls_back_def nnls_cycle_def Ztx_cycle_def upt_rec numeral_2_eq_2 fp_eval)
qed

lemma step_cycle:
  assumes "n < 60"
  shows "outer_step gsl_lu 2 ZtZ_cycle Ztx_cycle 60 (nnls_cycle n) = nnls_cycle (Suc n)"
proof -
  have P: "(nn_P (nnls_cycle n))[gsl_vector_max_index (nn_w (nnls_cycle n)) := True] = [True, True]"
    by (simp add: nnls_cycle_def gsl_vector_max_index_def fp_gt_def)
  show ?thesis
    unfolding outer_step_def Let_def
    apply (simp only: P sol_both fst_conv snd_conv)
    apply (simp only: P[symmetric] trial_cycle inner_loop_trial[OF assms] finish_back)
    done
qed

lemma step_last:
  "outer_step gsl_lu 2 ZtZ_cycle Ztx_cycle 60 (nnls_cycle 60) = nnls_cycle_end"
proof -
  have P: "(nn_P (nnls_cycle 60))[gsl_vector_max_index (nn_w (nnls_cycle 60)) := True] = [True, True]"
    by (simp add: nnls_cycle_def gsl_vector_max_index_def fp_gt_def)
  have stop: "inner_loop gsl_lu 2 ZtZ_cycle Ztx_cycle 60 (nnls_trial 60) = nnls_trial 60"
    by (rule inner_loop_stop) (simp add: nnls_trial_def)
  have fin: "(nnls_trial 60)\<lparr>nn_d := nn_s (nnls_trial 60),
       nn_w := map (\<lambda>i. if nn_R (nnls_trial 60) ! i
                          then fp_sub f64 (Ztx_cycle ! i)
                                 (dgemv_n gsl_lu ZtZ_cycle (nn_s (nnls_trial 60)) ! i)
                          else Fin (- 1)) [0..<2]\<rparr> = nnls_cycle_end"
    by (simp add: nnls_trial_def nnls_cycle_end_def upt_rec numeral_2_eq_2)
  show ?thesis
    unfolding outer_step_def Let_def
    apply (simp only: P sol_both fst_conv snd_conv)
    apply (simp only: P[symmetric] trial_cycle stop fin)
    done
qed

lemma loop_cycle:
  "k \<le> 60 \<Longrightarrow>
   while_option outer_cond (outer_step gsl_lu 2 ZtZ_cycle Ztx_cycle 60) (nnls_cycle (60 - k))
   = Some nnls_cycle_end"
proof (induction k)
  case 0
  have "while_option outer_cond (outer_step gsl_lu 2 ZtZ_cycle Ztx_cycle 60) (nnls_cycle 60)
        = while_option outer_cond (outer_step gsl_lu 2 ZtZ_cycle Ztx_cycle 60) nnls_cycle_end"
    by (subst while_option_unfold) (simp only: cond_cycle step_last if_True)
  also have "\<dots> = Some nnls_cycle_end"
    by (subst while_option_unfold) (simp only: cond_end if_False)
  finally show ?case by simp
next
  case (Suc k)
  then have lt: "60 - Suc k < 60" and k: "k \<le> 60" by simp_all
  have suc: "Suc (60 - Suc k) = 60 - k" using Suc.prems by simp
  have "while_option outer_cond (outer_step gsl_lu 2 ZtZ_cycle Ztx_cycle 60) (nnls_cycle (60 - Suc k))
        = while_option outer_cond (outer_step gsl_lu 2 ZtZ_cycle Ztx_cycle 60) (nnls_cycle (60 - k))"
    by (subst while_option_unfold) (simp only: cond_cycle step_cycle[OF lt] suc if_True)
  then show ?case using Suc.IH[OF k] by simp
qed

lemma run_cycle: "nnls_solve gsl_lu 2 ZtZ_cycle Ztx_cycle = Some nnls_cycle_end"
proof -
  have "nnls_solve gsl_lu 2 ZtZ_cycle Ztx_cycle
        = while_option outer_cond (outer_step gsl_lu 2 ZtZ_cycle Ztx_cycle 60) nnls_cycle_start"
    by (simp add: nnls_solve_def init_cycle)
  also have "\<dots> = while_option outer_cond (outer_step gsl_lu 2 ZtZ_cycle Ztx_cycle 60) (nnls_cycle 0)"
    by (subst while_option_unfold) (simp only: cond_start step_start if_True)
  also have "\<dots> = Some nnls_cycle_end"
    using loop_cycle[of 60] by simp
  finally show ?thesis .
qed

text \<open>The run on the table of three bands: the inner loop is entered once, removes the
  first material and is left with a positive restricted solution.\<close>

lemma Z_inner: "endmember_matrix (sma_select k) em_inner = Z_inner"
  by (simp add: endmember_matrix_def sma_select_def em_inner_def Z_inner_def upt_rec)

lemma x_inner: "spectrum (sma_select k) em_inner frame_ones 0 = [Fin 1, Fin 1, Fin 1]"
  by (simp add: spectrum_def sma_select_def em_inner_def frame_ones_def upt_rec fp_eval)

lemma ZtZ_inner: "dgemm_tn gsl_lu Z_inner = ZtZ_inner"
  by (simp add: gsl_lu_def gsl_plain_def dot64_def Z_inner_def ZtZ_inner_def upt_rec fp_eval)

lemma Ztx_inner: "dgemv_t gsl_lu Z_inner [Fin 1, Fin 1, Fin 1] = Ztx_inner"
  by (simp add: gsl_lu_def gsl_plain_def dot64_def Z_inner_def Ztx_inner_def upt_rec fp_eval)

lemma init_inner: "nnls_init gsl_lu 2 ZtZ_inner Ztx_inner = nnls_inner_start"
  by (simp add: nnls_init_def nnls_inner_start_def gsl_lu_def gsl_plain_def dot64_def
      ZtZ_inner_def Ztx_inner_def upt_rec numeral_2_eq_2 fp_eval)

lemma sol_inner_first:
  "solve_passive gsl_lu 2 ZtZ_inner Ztx_inner [True, False] = (Fin (1 / 2), [Fin (1 / 2), Fin 0])"
  by (simp add: solve_passive_def passive_idx_def gsl_lu_def gsl_plain_def lu_invert2_def
      dot64_def gsl_vector_min_def ZtZ_inner_def Ztx_inner_def upt_rec fp_eval)

lemma sol_inner_second:
  "solve_passive gsl_lu 2 ZtZ_inner Ztx_inner [False, True]
   = (Fin (3708846751952173 / 2251799813685248), [Fin 0, Fin (3708846751952173 / 2251799813685248)])"
  by (simp add: solve_passive_def passive_idx_def gsl_lu_def gsl_plain_def lu_invert2_def
      dot64_def gsl_vector_min_def ZtZ_inner_def Ztx_inner_def upt_rec fp_eval)

lemma inv_inner:
  "lu_invert2 ZtZ_inner = [[Fin (17 / 32), Fin (- (3 / 4))], [Fin (- (3 / 4)), Fin 2]]"
  by (simp add: lu_invert2_def ZtZ_inner_def fp_eval)

lemma sol_inner_both:
  "solve_passive gsl_lu 2 ZtZ_inner Ztx_inner [True, True]
   = (Fin (- (1 / 4)), [Fin (- (1 / 4)), Fin 2])"
proof -
  have sub: "map (\<lambda>i. map (\<lambda>j. ZtZ_inner ! i ! j) (passive_idx 2 [True, True]))
               (passive_idx 2 [True, True]) = ZtZ_inner"
    by (simp add: passive_idx_def ZtZ_inner_def upt_rec)
  have sub2: "map (\<lambda>i. Ztx_inner ! i) (passive_idx 2 [True, True]) = Ztx_inner"
    by (simp add: passive_idx_def Ztx_inner_def upt_rec)
  have s: "dgemv_n gsl_lu (lu_invert gsl_lu ZtZ_inner) Ztx_inner = [Fin (- (1 / 4)), Fin 2]"
    by (simp add: gsl_lu_def gsl_plain_def inv_inner dot64_def Ztx_inner_def upt_rec fp_eval)
  show ?thesis
    unfolding solve_passive_def Let_def sub sub2 s
    by (simp add: passive_idx_def gsl_vector_min_def upt_rec)
qed

lemma w_inner_first: "dgemv_n gsl_lu ZtZ_inner [Fin (1 / 2), Fin 0] = [Fin 2, Fin (3 / 4)]"
  by (simp add: gsl_lu_def gsl_plain_def dot64_def ZtZ_inner_def upt_rec fp_eval)

lemma w_inner_second:
  "dgemv_n gsl_lu ZtZ_inner [Fin 0, Fin (3708846751952173 / 2251799813685248)]
   = [Fin (1390817531982065 / 562949953421312), Fin (7 / 4)]"
  by (simp add: gsl_lu_def gsl_plain_def dot64_def ZtZ_inner_def upt_rec fp_eval)

lemma cond_inner_start: "outer_cond nnls_inner_start"
  by (simp add: outer_cond_def nnls_inner_start_def Ztx_inner_def gsl_vector_max_def tol_def
      fp_gt_def pow2_def)

lemma cond_inner_first: "outer_cond nnls_inner_first"
  by (simp add: outer_cond_def nnls_inner_first_def gsl_vector_max_def tol_def fp_gt_def pow2_def)

lemma cond_inner_end: "\<not> outer_cond nnls_inner_end"
  by (simp add: outer_cond_def nnls_inner_end_def gsl_vector_max_def tol_def fp_gt_def pow2_def)

lemma step_inner_start:
  "outer_step gsl_lu 2 ZtZ_inner Ztx_inner 60 nnls_inner_start = nnls_inner_first"
proof -
  define st where "st = nnls_inner_start\<lparr>nn_P := [True, False],
      nn_R := (nn_R nnls_inner_start)[0 := False],
      nn_s := [Fin (1 / 2), Fin 0], nn_smin := Fin (1 / 2)\<rparr>"
  have m: "gsl_vector_max_index (nn_w nnls_inner_start) = 0"
    by (simp add: nnls_inner_start_def Ztx_inner_def gsl_vector_max_index_def fp_gt_def)
  have P: "(nn_P nnls_inner_start)[0 := True] = [True, False]"
    by (simp add: nnls_inner_start_def)
  have stop: "inner_loop gsl_lu 2 ZtZ_inner Ztx_inner 60 st = st"
    by (rule inner_loop_stop) (simp add: st_def fp_le_def)
  have s: "nn_s st = [Fin (1 / 2), Fin 0]" by (simp add: st_def)
  have fin: "st\<lparr>nn_d := nn_s st,
       nn_w := map (\<lambda>i. if nn_R st ! i
                          then fp_sub f64 (Ztx_inner ! i) (dgemv_n gsl_lu ZtZ_inner (nn_s st) ! i)
                          else Fin (- 1)) [0..<2]\<rparr> = nnls_inner_first"
    unfolding s w_inner_first
    by (simp add: st_def nnls_inner_start_def nnls_inner_first_def Ztx_inner_def upt_rec
        numeral_2_eq_2 fp_eval)
  show ?thesis
    unfolding outer_step_def Let_def m P sol_inner_first fst_conv snd_conv st_def[symmetric] stop
    by (rule fin)
qed

lemma trial_inner:
  "nnls_inner_first\<lparr>nn_P := (nn_P nnls_inner_first)[gsl_vector_max_index (nn_w nnls_inner_first) := True],
       nn_R := (nn_R nnls_inner_first)[gsl_vector_max_index (nn_w nnls_inner_first) := False],
       nn_s := [Fin (- (1 / 4)), Fin 2], nn_smin := Fin (- (1 / 4))\<rparr>
   = nnls_inner_trial"
  by (simp add: nnls_inner_first_def nnls_inner_trial_def gsl_vector_max_index_def fp_gt_def)

lemma inner_step_inner:
  "inner_step gsl_lu 2 ZtZ_inner Ztx_inner nnls_inner_trial = nnls_inner_back"
proof -
  have a: "map (\<lambda>i. if fp_le (nn_s nnls_inner_trial ! i) tol \<and> nn_P nnls_inner_trial ! i
                        then fp_div f64 (nn_d nnls_inner_trial ! i)
                               (fp_sub f64 (nn_d nnls_inner_trial ! i) (nn_s nnls_inner_trial ! i))
                        else Fin INT_MAX) [0..<2]
           = [Fin (6004799503160661 / 9007199254740992), Fin INT_MAX]"
    by (simp add: nnls_inner_trial_def upt_rec numeral_2_eq_2 tol_def fp_eval)
  have al: "gsl_vector_min [Fin (6004799503160661 / 9007199254740992), Fin INT_MAX]
            = Fin (6004799503160661 / 9007199254740992)"
    by (simp add: gsl_vector_min_def INT_MAX_def)
  have d: "map (\<lambda>i. fp_add f64 (nn_d nnls_inner_trial ! i)
                   (fp_mul f64 (Fin (6004799503160661 / 9007199254740992))
                      (fp_sub f64 (nn_s nnls_inner_trial ! i) (nn_d nnls_inner_trial ! i))))
             [0..<2] = [Fin 0, Fin (6004799503160661 / 4503599627370496)]"
    by (simp add: nnls_inner_trial_def upt_rec numeral_2_eq_2 fp_eval)
  have P: "map (\<lambda>i. if fp_lt (fp_abs ([Fin 0, Fin (6004799503160661 / 4503599627370496)] ! i)) tol
                        \<and> nn_P nnls_inner_trial ! i
                     then False else nn_P nnls_inner_trial ! i) [0..<2] = [False, True]"
    by (simp add: nnls_inner_trial_def upt_rec numeral_2_eq_2 tol_def pow2_def)
  have R: "map (\<lambda>i. if fp_lt (fp_abs ([Fin 0, Fin (6004799503160661 / 4503599627370496)] ! i)) tol
                        \<and> nn_P nnls_inner_trial ! i
                     then True else nn_R nnls_inner_trial ! i) [0..<2] = [True, False]"
    by (simp add: nnls_inner_trial_def upt_rec numeral_2_eq_2 tol_def pow2_def)
  show ?thesis
    unfolding inner_step_def Let_def a al d P R sol_inner_second fst_conv snd_conv
    by (simp add: nnls_inner_trial_def nnls_inner_back_def)
qed

lemma inner_loop_inner:
  "inner_loop gsl_lu 2 ZtZ_inner Ztx_inner 60 nnls_inner_trial = nnls_inner_back"
proof -
  have "inner_loop gsl_lu 2 ZtZ_inner Ztx_inner 60 nnls_inner_trial
        = inner_loop gsl_lu 2 ZtZ_inner Ztx_inner 60 nnls_inner_back"
    using inner_loop_run[of nnls_inner_trial 60 gsl_lu 2 ZtZ_inner Ztx_inner]
    by (simp add: inner_step_inner) (simp add: nnls_inner_trial_def fp_le_def)
  also have "\<dots> = nnls_inner_back"
    by (rule inner_loop_stop) (simp add: nnls_inner_back_def fp_le_def)
  finally show ?thesis .
qed

lemma finish_inner:
  "nnls_inner_back\<lparr>nn_d := nn_s nnls_inner_back,
       nn_w := map (\<lambda>i. if nn_R nnls_inner_back ! i
                          then fp_sub f64 (Ztx_inner ! i)
                                 (dgemv_n gsl_lu ZtZ_inner (nn_s nnls_inner_back) ! i)
                          else Fin (- 1)) [0..<2]\<rparr> = nnls_inner_end"
proof -
  have s: "nn_s nnls_inner_back = [Fin 0, Fin (3708846751952173 / 2251799813685248)]"
    by (simp add: nnls_inner_back_def)
  show ?thesis unfolding s w_inner_second
    by (simp add: nnls_inner_back_def nnls_inner_end_def Ztx_inner_def upt_rec numeral_2_eq_2
        fp_eval)
qed

lemma step_inner_second:
  "outer_step gsl_lu 2 ZtZ_inner Ztx_inner 60 nnls_inner_first = nnls_inner_end"
proof -
  have P: "(nn_P nnls_inner_first)[gsl_vector_max_index (nn_w nnls_inner_first) := True]
           = [True, True]"
    by (simp add: nnls_inner_first_def gsl_vector_max_index_def fp_gt_def)
  show ?thesis
    unfolding outer_step_def Let_def
    apply (simp only: P sol_inner_both fst_conv snd_conv)
    apply (simp only: P[symmetric] trial_inner inner_loop_inner finish_inner)
    done
qed

lemma run_inner: "nnls_solve gsl_lu 2 ZtZ_inner Ztx_inner = Some nnls_inner_end"
proof -
  have "nnls_solve gsl_lu 2 ZtZ_inner Ztx_inner
        = while_option outer_cond (outer_step gsl_lu 2 ZtZ_inner Ztx_inner 60) nnls_inner_start"
    by (simp add: nnls_solve_def init_inner)
  also have "\<dots> = while_option outer_cond (outer_step gsl_lu 2 ZtZ_inner Ztx_inner 60) nnls_inner_first"
    by (subst while_option_unfold) (simp only: cond_inner_start step_inner_start if_True)
  also have "\<dots> = while_option outer_cond (outer_step gsl_lu 2 ZtZ_inner Ztx_inner 60) nnls_inner_end"
    by (subst while_option_unfold) (simp only: cond_inner_first step_inner_second if_True)
  also have "\<dots> = Some nnls_inner_end"
    by (subst while_option_unfold) (simp only: cond_inner_end if_False)
  finally show ?thesis .
qed

text \<open>What the kernel writes on the table of five bands.\<close>

lemma unmix_cycle:
  "unmix gsl_lu (sma_select k) 2 ZtZ_cycle Ztx_cycle
   = Some [Fin (1 + 9 / 2 ^ 51), Fin (- (1 / 2 ^ 51))]"
  unfolding unmix_def run_cycle by (simp add: sma_select_def nnls_cycle_end_def)



section \<open>The normalized-difference kernel\<close>

text \<open>
  Claim C1, as amended. For an unmasked cell and a valid date the normalized-difference
  kernel writes the sentinel when \<open>b1 + b2 = 0\<close> or the ratio \<open>(b1 - b2) / (b1 + b2)\<close> lies
  outside \<open>[-1, 1]\<close>. Otherwise it writes the ratio, rounded to single precision,
  multiplied by 10000, rounded to single precision again and truncated toward zero; this
  value always fits the output type.
\<close>

theorem differenced_rounds_in_single_precision:
  "index_differenced_px v1 v2 nodata =
     (if sint v1 + sint v2 \<noteq> 0 \<and> \<bar>nd_ratio v1 v2\<bar> \<le> 1
      then Inr (word_of_int (trunc_zero (r32 (r32 (nd_ratio v1 v2) * 10000))))
      else Inr nodata)"
proof -
  define s where "s = sint v1 + sint v2"
  define n where "n = sint v1 - sint v2"
  have sb: "\<bar>s\<bar> \<le> 65536" and nb: "\<bar>n\<bar> \<le> 65535"
    using sint_short_bounds[of v1] sint_short_bounds[of v2] by (auto simp: s_def n_def)
  have tmp: "int_to_float s = Fin (real_of_int s)" using sb by (intro int_to_float_exact) simp
  have num: "int_to_float n = Fin (real_of_int n)" using nb by (intro int_to_float_exact) simp
  have c0: "int_to_float 0 = Fin 0" "int_to_float 1 = Fin 1" "int_to_float (- 1) = Fin (- 1)"
    using int_to_float_exact[of 0] int_to_float_exact[of 1] int_to_float_exact[of "- 1"] by simp_all
  show ?thesis
  proof (cases "s = 0")
    case True
    then show ?thesis
      unfolding index_differenced_px_def Let_def s_def[symmetric] n_def[symmetric] tmp num c0
      by simp
  next
    case s0: False
    define x where "x = real_of_int n / real_of_int s"
    have xr: "nd_ratio v1 v2 = x" by (simp add: nd_ratio_def x_def n_def s_def)
    have "\<bar>x\<bar> \<le> \<bar>real_of_int n\<bar>"
    proof -
      have "1 \<le> \<bar>real_of_int s\<bar>" using s0 by (simp; linarith)
      then have "\<bar>real_of_int n\<bar> / \<bar>real_of_int s\<bar> \<le> \<bar>real_of_int n\<bar> / 1"
        by (intro divide_left_mono) auto
      then show ?thesis by (simp add: x_def abs_divide)
    qed
    also have "\<dots> \<le> pow2 16" using nb by (simp add: pow2_def; linarith)
    finally have "f32 x = Fin (r32 x) \<and> \<bar>r32 x\<bar> \<le> pow2 16" by (intro f32_le_pow2) auto
    then have ind: "fp_div f32 (Fin (real_of_int n)) (Fin (real_of_int s)) = Fin (r32 x)"
      using s0 by (simp add: x_def)
    show ?thesis
    proof (cases "\<bar>x\<bar> \<le> 1")
      case True
      then have "\<bar>x\<bar> \<le> pow2 0" by (simp add: pow2_def)
      then have "\<bar>r32 x\<bar> \<le> pow2 0" using f32_le_pow2[of x 0] by simp
      then have r1: "\<bar>r32 x\<bar> \<le> 1" by (simp add: pow2_def)
      then have "\<bar>r32 x * 10000\<bar> \<le> pow2 14" by (simp add: pow2_def abs_mult)
      then have y: "f32 (r32 x * 10000) = Fin (r32 (r32 x * 10000))"
        "\<bar>r32 (r32 x * 10000)\<bar> \<le> pow2 14"
        using f32_le_pow2[of "r32 x * 10000" 14] by simp_all
      from y(2) have "\<bar>r32 (r32 x * 10000)\<bar> \<le> 32767" by (simp add: pow2_def)
      then have "cast_short (Fin (r32 (r32 x * 10000)))
                 = Inr (word_of_int (trunc_zero (r32 (r32 x * 10000))))"
        by (rule cast_short_fin)
      then show ?thesis
        unfolding index_differenced_px_def Let_def s_def[symmetric] n_def[symmetric] tmp num c0
          ind flit_10000 xr
        using True s0 r1 y(1) by (simp add: fp_gt_def abs_le_iff)
    next
      case False
      then have "1 + 1 / 65536 \<le> \<bar>x\<bar>" unfolding x_def using s0 sb by (intro ratio_gap) auto
      then have "1 + 1 / 65536 \<le> x \<or> x \<le> - (1 + 1 / 65536)" by (auto simp: abs_if split: if_splits)
      then have "1 < r32 x \<or> r32 x < - 1" using r32_above_one r32_below_minus_one by blast
      then show ?thesis
        unfolding index_differenced_px_def Let_def s_def[symmetric] n_def[symmetric] tmp num c0
          ind flit_10000 xr
        using False s0 by (auto simp: fp_gt_def)
    qed
  qed
qed

text \<open>The example of the specification: \<open>b1 = 5000\<close> and \<open>b2 = 3000\<close> give 2500.\<close>

theorem differenced_example_witness:
  "index_differenced_px 5000 3000 (- 9999) = Inr 2500"
  using differenced_rounds_in_single_precision[of 5000 3000 "- 9999"]
  by (simp add: nd_ratio_def r32_def rnd_def expo_def halvings.simps doublings.simps
      pow2_def rne_def Let_def trunc_zero_def)

text \<open>The claim as the specification states it, with the exact ratio truncated, fails:
  for \<open>b1 = 8900\<close> and \<open>b2 = 1100\<close> the ratio is 0.78 and the exact product is 7800, but
  0.78 is not a single-precision number, the product of its rounding with 10000 rounds to
  the number just below 7800, and the kernel writes 7799.\<close>

theorem differenced_exact_truncation_counterexample:
  "sint (8900 :: short) + sint (1100 :: short) \<noteq> 0
   \<and> \<bar>nd_ratio 8900 1100\<bar> \<le> 1
   \<and> trunc_zero (nd_ratio 8900 1100 * 10000) = 7800
   \<and> index_differenced_px 8900 1100 (- 9999) = Inr 7799
   \<and> index_differenced_px 8900 1100 (- 9999)
       \<noteq> Inr (word_of_int (trunc_zero (nd_ratio 8900 1100 * 10000)))"
  by (simp add: index_differenced_px_def nd_ratio_def fp_eval)

section \<open>The tasseled-cap kernel\<close>

text \<open>
  Claim C9, as amended. For an unmasked cell and a valid date the tasseled-cap kernel
  converts to the output type, for brightness, greenness and wetness, the product of the
  corresponding row of the coefficient table with the six bands blue, green, red, nir,
  swir1, swir2, and for the disturbance brightness minus greenness minus wetness; the
  coefficients are the table's decimals rounded to single precision, and every product,
  sum and difference is rounded to single precision, the sums added from the left.
\<close>

theorem tasseled_cap_in_single_precision:
  "index_tasseled_px TCB vb vg vr vn vs1 vs2 = cast_short (tc_row 0 vb vg vr vn vs1 vs2)
   \<and> index_tasseled_px TCG vb vg vr vn vs1 vs2 = cast_short (tc_row 1 vb vg vr vn vs1 vs2)
   \<and> index_tasseled_px TCW vb vg vr vn vs1 vs2 = cast_short (tc_row 2 vb vg vr vn vs1 vs2)
   \<and> index_tasseled_px TCD vb vg vr vn vs1 vs2 =
       cast_short (fp_sub f32 (fp_sub f32 (tc_row 0 vb vg vr vn vs1 vs2)
                                          (tc_row 1 vb vg vr vn vs1 vs2))
                              (tc_row 2 vb vg vr vn vs1 vs2))"
  by (rule tasseled_px_rows)

lemma tc_row_wetness_example: "tc_row 2 0 10000 0 0 0 0 = Fin (16556031 / 8192)"
  by (simp add: tc_row_def tc_def tc_table_def fp_eval)

text \<open>The claim as the specification states it, with the combination computed exactly,
  fails: for the wetness of a cell whose green band is 10000 and whose other bands are 0
  the exact combination is 2021, but the kernel writes 2020.\<close>

theorem tasseled_exact_combination_counterexample:
  "tc_exact TCW [0, 10000, 0, 0, 0, 0] = 2021
   \<and> index_tasseled_px TCW 0 10000 0 0 0 0 = Inr 2020
   \<and> index_tasseled_px TCW 0 10000 0 0 0 0
       \<noteq> Inr (word_of_int (trunc_zero (tc_exact TCW [0, 10000, 0, 0, 0, 0])))"
proof -
  have e: "tc_exact TCW [0, 10000, 0, 0, 0, 0] = 2021"
    by (simp add: tc_exact_def tc_table_def upt_rec)
  have "index_tasseled_px TCW 0 10000 0 0 0 0 = cast_short (tc_row 2 0 10000 0 0 0 0)"
    by (simp add: index_tasseled_px_def int_to_float_consts one_times zero_plus)
  also have "\<dots> = Inr 2020"
    unfolding tc_row_wetness_example by (simp add: trunc_zero_def SHRT_MAX_def SHRT_MIN_def)
  finally have c: "index_tasseled_px TCW 0 10000 0 0 0 0 = Inr 2020" .
  show ?thesis unfolding e c by (simp add: trunc_zero_def)
qed

section \<open>The test of the output range\<close>

text \<open>The ratio-minus-one kernel compares its scaled value with the limits of the output
  type before it converts it.\<close>

lemma ratio_minus1_px_checked:
  "index_ratio_minus1_px v1 v2 nodata =
     (if sint v2 = 0 \<or> fp_gt (ratio_minus1_scaled v1 v2) (Fin 32767)
         \<or> fp_lt (ratio_minus1_scaled v1 v2) (Fin (- 32768))
      then Inr nodata else cast_short (ratio_minus1_scaled v1 v2))"
  by (simp add: index_ratio_minus1_px_def ratio_minus1_scaled_def Let_def int_to_float_limits)

text \<open>Three values that the output type cannot hold: the continuum removal with the
  wavelengths 1, 2 and 3, the band 32767 and both neighbours -32768; the EVI with nir 5001,
  red 0 and blue 2000, whose denominator is 1; and the brightness of a cell whose six
  bands are all 15000.\<close>

lemma cont_remove_example:
  "cont_remove_value (Fin 2) (Fin 1) (Fin 3) 32767 (- 32768) (- 32768) = Fin 65535"
  by (simp add: cont_remove_value_def fp_eval)

lemma resistance_example:
  "resistance_denominator (flit 6) (flit 7.5) (flit 1) False 5001 0 2000 = Fin 1
   \<and> resistance_scaled (flit 2.5) (flit 6) (flit 7.5) (flit 1) False 5001 0 2000 = Fin 125025000"
  by (simp add: resistance_scaled_def resistance_denominator_def resistance_red_def fp_eval)

lemma brightness_example:
  "tc_row 0 15000 15000 15000 15000 15000 15000 = Fin (68679 / 2)"
  by (simp add: tc_row_def tc_def tc_table_def fp_eval)

lemma brightness_px:
  "index_tasseled_px TCB 15000 15000 15000 15000 15000 15000 = Inl Undefined_conversion"
proof -
  have "index_tasseled_px TCB 15000 15000 15000 15000 15000 15000
        = cast_short (tc_row 0 15000 15000 15000 15000 15000 15000)"
    using tasseled_px_rows by simp
  also have "\<dots> = Inl Undefined_conversion"
    unfolding brightness_example by (simp add: trunc_zero_def SHRT_MAX_def SHRT_MIN_def)
  finally show ?thesis .
qed

text \<open>
  Claim C5. The resistance-weighted, continuum-removal and tasseled-cap kernels do not write
  the sentinel when the scaled value exceeds the range of the output type: at the three
  inputs above each of them reaches the conversion of a value out of range, whose
  behaviour C leaves undefined.
\<close>

theorem unchecked_range_conversion:
  "cont_remove_value (Fin 2) (Fin 1) (Fin 3) 32767 (- 32768) (- 32768) = Fin 65535
   \<and> index_cont_remove_px (Fin 2) (Fin 1) (Fin 3) 32767 (- 32768) (- 32768)
       = Inl Undefined_conversion
   \<and> resistance_scaled (flit 2.5) (flit 6) (flit 7.5) (flit 1) False 5001 0 2000 = Fin 125025000
   \<and> index_resistance_px (flit 2.5) (flit 6) (flit 7.5) (flit 1) False 5001 0 2000 (- 9999)
       = Inl Undefined_conversion
   \<and> tc_row 0 15000 15000 15000 15000 15000 15000 = Fin (68679 / 2)
   \<and> index_tasseled_px TCB 15000 15000 15000 15000 15000 15000 = Inl Undefined_conversion"
proof -
  have a: "index_cont_remove_px (Fin 2) (Fin 1) (Fin 3) 32767 (- 32768) (- 32768)
       = cast_short (Fin 65535)"
    unfolding cont_remove_example[symmetric]
    by (simp add: index_cont_remove_px_def cont_remove_value_def Let_def)
  have b: "index_resistance_px (flit 2.5) (flit 6) (flit 7.5) (flit 1) False 5001 0 2000 (- 9999)
       = cast_short (Fin 125025000)"
    unfolding resistance_px_unchecked using resistance_example by simp
  have c: "cast_short (Fin 65535) = Inl Undefined_conversion"
    "cast_short (Fin 125025000) = Inl Undefined_conversion"
    by (simp_all add: trunc_zero_def SHRT_MAX_def SHRT_MIN_def)
  show ?thesis
    unfolding a b c using cont_remove_example resistance_example brightness_example brightness_px
    by simp
qed

section \<open>The MSRre kernel\<close>

text \<open>
  Claim C8 does not hold of the code. For \<open>b1 = -300\<close> and \<open>b2 = 100\<close> the radicand
  \<open>b1 / b2 + 1\<close> is -2: the square root is a NaN, so is the index, and each of the three
  tests of the kernel (\<^verbatim>\<open>lower == 0\<close> and the two comparisons with the range) is false on
  a NaN. The kernel does not write the sentinel; it converts the NaN to the output type,
  which C leaves undefined.
\<close>

theorem msrre_negative_radicand:
  "real_of_int (sint (- 300 :: short)) / real_of_int (sint (100 :: short)) + 1 \<le> 0
   \<and> index_msrre_px (- 300) 100 (- 9999) = Inl Undefined_conversion"
  by (simp add: index_msrre_px_def fp_eval)

section \<open>Masked cells\<close>

text \<open>
  Claim C3 does not hold of the code. With the residual asked for, one cell, one date, a
  mask that excludes the cell, and both output arrays 0 before the call, the mixture
  kernel writes the sentinel -9999 to the index of the cell but leaves its residual 0:
  the branch for a masked cell assigns \<^verbatim>\<open>tss_\<close> only. The branch for an invalid date of an
  unmasked cell, beside it, writes the sentinel to both arrays.
\<close>

theorem masked_cell_residual_untouched:
  "(case index_unmixed gsl_plain (\<lambda>t. frame_zero) (Some (\<lambda>p. False)) ts_zero 1 1 (- 9999)
           (sma_one\<lparr>orms := True\<rparr>) em_one of
      Inl e \<Rightarrow> False
    | Inr ts \<Rightarrow> tss ts 0 0 = - 9999 \<and> rms ts 0 0 = 0)
   \<and> (case index_unmixed gsl_plain (\<lambda>t. frame_zero\<lparr>msk := (\<lambda>p. False)\<rparr>) None ts_zero 1 1
             (- 9999) (sma_one\<lparr>orms := True\<rparr>) em_one of
        Inl e \<Rightarrow> False
      | Inr ts \<Rightarrow> tss ts 0 0 = - 9999 \<and> rms ts 0 0 = - 9999)"
  by (simp add: index_unmixed_def masked_def set_tss_def set_rms_def sma_one_def em_one_def
      frame_zero_def ts_zero_def Let_def)

section \<open>The fractions of the constrained inversion\<close>

text \<open>
  Claim C2, as amended. When the constrained inversion ends with its iteration budget not
  used up and the least element of its last restricted solution is not a NaN, every
  fraction it returns is at least 0, hence at least minus the tolerance. (The
  sum-to-one flag appends a row of ones to the endmember matrix and a one to the spectrum;
  nothing is claimed of the sum of the fractions.)
\<close>

theorem constrained_fractions_nonnegative:
  assumes "nnls_solve G M ZtZ Ztx = Some st" "nn_it st < 30 * M" "nn_smin st \<noteq> NaN"
  shows "list_all (\<lambda>x. fp_le (Fin 0) x \<and> fp_le (fp_neg tol) x) (nn_d st)"
proof -
  from nnls_solve_inv[of G M ZtZ Ztx] assms(1) have "nnls_inv M (30 * M) st" by auto
  then have "\<forall>x\<in>set (nn_d st). fp_le (Fin 0) x" using assms(2,3) by (simp add: nnls_inv_def)
  then show ?thesis by (auto simp: list_all_iff fp_le_zero_tol)
qed

text \<open>
  The theorem on the table of three bands, where the inner loop is entered once and left by
  its test: the fractions are 0 and about 1.647.
\<close>

theorem constrained_fractions_witness:
  "nnls_solve gsl_lu 2 ZtZ_inner Ztx_inner = Some nnls_inner_end
   \<and> nn_it nnls_inner_end = 1
   \<and> nn_it nnls_inner_end < 30 * 2
   \<and> nn_smin nnls_inner_end \<noteq> NaN
   \<and> nn_d nnls_inner_end = [Fin 0, Fin (3708846751952173 / 2251799813685248)]
   \<and> list_all (\<lambda>x. fp_le (Fin 0) x \<and> fp_le (fp_neg tol) x) (nn_d nnls_inner_end)"
proof -
  have a: "nnls_solve gsl_lu 2 ZtZ_inner Ztx_inner = Some nnls_inner_end" by (rule run_inner)
  have b: "nn_it nnls_inner_end < 30 * 2" by (simp add: nnls_inner_end_def)
  have c: "nn_smin nnls_inner_end \<noteq> NaN" by (simp add: nnls_inner_end_def)
  have d: "nn_it nnls_inner_end = 1"
    "nn_d nnls_inner_end = [Fin 0, Fin (3708846751952173 / 2251799813685248)]"
    by (simp_all add: nnls_inner_end_def)
  show ?thesis using a b c d constrained_fractions_nonnegative[OF a b c] by simp
qed

text \<open>The claim as the specification states it fails in both parts. With both
  constraints on, one material of reflectance 1 and a spectrum of reflectance 0, the
  augmented system has the least-squares solution 0.5: the single fraction is 0.5, the
  kernel writes 5000, and the sum of the fractions differs from 1 by far more than the
  tolerance. On the table of five bands, where the budget is used up, the second fraction
  returned is -1/2^51, which is below minus the tolerance.\<close>

lemma sum_to_one_example:
  "sto sma_one \<and> pos sma_one
   \<and> unmix gsl_plain sma_one (ne em_one)
        (dgemm_tn gsl_plain (endmember_matrix sma_one em_one))
        (dgemv_t gsl_plain (endmember_matrix sma_one em_one)
           (spectrum sma_one em_one frame_zero 0))
      = Some [Fin (1 / 2)]
   \<and> \<not> sums_to_one [Fin (1 / 2)]
   \<and> index_unmixed_px gsl_plain sma_one em_one (endmember_matrix sma_one em_one)
        (dgemm_tn gsl_plain (endmember_matrix sma_one em_one)) frame_zero 0
      = Inr (5000, None)"
proof -
  have ne1: "ne em_one = 1" by (simp add: em_one_def)
  have u: "unmix gsl_plain sma_one 1 [[Fin 2]] [Fin 1] = Some [Fin (1 / 2)]"
    unfolding unmix_def run_one by (simp add: sma_one_def nnls_one_def)
  have s: "\<not> sums_to_one [Fin (1 / 2)]"
    by (simp add: sums_to_one_def fraction_sum_def fp_eval)
  have o: "orms sma_one = False" by (simp add: sma_one_def)
  have r: "retain sma_one 1 [Fin (1 / 2)] = Inr 5000"
    by (simp add: retain_def sma_one_def fp_eval)
  have p: "index_unmixed_px gsl_plain sma_one em_one [[Fin 1], [Fin 1]] [[Fin 2]] frame_zero 0
           = Inr (5000, None)"
    unfolding index_unmixed_px_def Let_def x_one Ztx_one ne1 u o using r by simp
  show ?thesis
    unfolding Z_one ZtZ_one x_one Ztx_one ne1 using u s p by (simp add: sma_one_def)
qed

lemma negative_fraction_example:
  "pos (sma_select 2)
   \<and> unmix gsl_lu (sma_select 2) (ne em_cycle)
        (dgemm_tn gsl_lu (endmember_matrix (sma_select 2) em_cycle))
        (dgemv_t gsl_lu (endmember_matrix (sma_select 2) em_cycle)
           (spectrum (sma_select 2) em_cycle frame_ones 0))
      = Some [Fin (1 + 9 / 2 ^ 51), Fin (- (1 / 2 ^ 51))]
   \<and> fp_lt (Fin (- (1 / 2 ^ 51))) (fp_neg tol)"
proof -
  have ne: "ne em_cycle = 2" by (simp add: em_cycle_def)
  have t: "fp_lt (Fin (- (1 / 2 ^ 51))) (fp_neg tol)" by (simp add: tol_def pow2_def)
  have p: "pos (sma_select 2)" by (simp add: sma_select_def)
  show ?thesis unfolding Z_cycle x_cycle ZtZ_cycle Ztx_cycle ne unmix_cycle using t p by simp
qed

theorem constrained_fractions_counterexample:
  "(sto sma_one \<and> pos sma_one
    \<and> unmix gsl_plain sma_one (ne em_one)
         (dgemm_tn gsl_plain (endmember_matrix sma_one em_one))
         (dgemv_t gsl_plain (endmember_matrix sma_one em_one)
            (spectrum sma_one em_one frame_zero 0))
       = Some [Fin (1 / 2)]
    \<and> \<not> sums_to_one [Fin (1 / 2)]
    \<and> index_unmixed_px gsl_plain sma_one em_one (endmember_matrix sma_one em_one)
         (dgemm_tn gsl_plain (endmember_matrix sma_one em_one)) frame_zero 0
       = Inr (5000, None))
   \<and> (pos (sma_select 2)
    \<and> unmix gsl_lu (sma_select 2) (ne em_cycle)
         (dgemm_tn gsl_lu (endmember_matrix (sma_select 2) em_cycle))
         (dgemv_t gsl_lu (endmember_matrix (sma_select 2) em_cycle)
            (spectrum (sma_select 2) em_cycle frame_ones 0))
       = Some [Fin (1 + 9 / 2 ^ 51), Fin (- (1 / 2 ^ 51))]
    \<and> fp_lt (Fin (- (1 / 2 ^ 51))) (fp_neg tol))"
  using sum_to_one_example negative_fraction_example by (rule conjI)

section \<open>Shade normalization\<close>



section \<open>The iteration budget\<close>




section \<open>An identifier that is not listed\<close>

text \<open>
  Claim C4. When the requested identifier is none of the labels of the
  \<^verbatim>\<open>switch\<close>, the dispatcher prints \<^verbatim>\<open>unknown INDEX\<close>, writes to no cell of the
  output arrays (they are returned as they were passed in) and returns
  \<^verbatim>\<open>SUCCESS\<close>, so that its caller goes on with the next identifier.
\<close>

theorem unlisted_identifier_reported_and_skipped:
  assumes "tsa_index tsa idx = IDX_unlisted k"
  shows "tsa_spectral_index G libm_exp ard ts maskp nc nt idx nodata tsa sen em
           = Inr (SUCCESS, ts, [''unknown INDEX''])"
  using assms by (simp add: tsa_spectral_index_def)

text \<open>
  The theorem at a request whose only identifier is the unlisted number 99, on one cell
  and one date.
\<close>

theorem unlisted_identifier_witness:
  "tsa_index tsa_unlisted 0 = IDX_unlisted 99
   \<and> tsa_spectral_index gsl_plain exp_unused (\<lambda>t. frame_zero) ts_zero None 1 1 0 (-9999)
         tsa_unlisted sen_six em_one = Inr (SUCCESS, ts_zero, [''unknown INDEX''])"
  using unlisted_identifier_reported_and_skipped
    [where tsa = tsa_unlisted and idx = 0 and k = 99 and G = gsl_plain
       and libm_exp = exp_unused and ard = "\<lambda>t. frame_zero" and ts = ts_zero
       and maskp = None and nc = 1 and nt = 1 and nodata = "-9999" and sen = sen_six
       and em = em_one]
  by (simp add: tsa_unlisted_def)

text \<open>
  The output array is not filled with the nodata value: with an array of zeros passed in
  and the nodata value -9999, the array returned for the unlisted identifier 99 is the
  array of zeros, and its cell for date 0 and cell 0 is not the nodata value.
\<close>

theorem unlisted_identifier_array_counterexample:
  "tsa_spectral_index gsl_plain exp_unused (\<lambda>t. frame_zero) ts_zero None 1 1 0 (-9999)
      tsa_unlisted sen_six em_one = Inr (SUCCESS, ts_zero, [''unknown INDEX''])
   \<and> tss ts_zero 0 0 \<noteq> -9999"
  by (simp add: tsa_spectral_index_def tsa_unlisted_def ts_zero_def)

section \<open>The return value of the dispatcher\<close>

text \<open>
  Claim C10. The only value the dispatcher returns is \<^verbatim>\<open>SUCCESS\<close>, also for an identifier
  that is not listed, and it never returns \<^verbatim>\<open>FAILURE\<close>. It does not return for every
  input: every call either returns \<^verbatim>\<open>SUCCESS\<close>, or converts a value that the output type
  cannot hold in one of the kernels, or is a mixture analysis whose endmember table and
  frames differ in their number of bands, where the process exits.
\<close>

theorem dispatcher_returns_success_or_exits:
  "((\<exists>ts' out. tsa_spectral_index G libm_exp ard ts maskp nc nt idx nodata tsa sen em
        = Inr (SUCCESS, ts', out))
    \<or> tsa_spectral_index G libm_exp ard ts maskp nc nt idx nodata tsa sen em
        = Inl Undefined_conversion
    \<or> (tsa_spectral_index G libm_exp ard ts maskp nc nt idx nodata tsa sen em
          = Inl Fatal_exit
        \<and> tsa_index tsa idx = IDX_SMA \<and> nb em \<noteq> nbands (ard 0)))
   \<and> (\<forall>ts' out. tsa_spectral_index G libm_exp ard ts maskp nc nt idx nodata tsa sen em
          \<noteq> Inr (FAILURE, ts', out))
   \<and> (\<forall>k. tsa_index tsa idx = IDX_unlisted k \<longrightarrow>
          (\<exists>ts' out. tsa_spectral_index G libm_exp ard ts maskp nc nt idx nodata tsa sen em
              = Inr (SUCCESS, ts', out)))"
proof (cases "switch_index G libm_exp ard ts maskp nc nt nodata (tsa_sma tsa) sen em
                (tsa_index tsa idx)")
  case (Inl e)
  from switch_index_error[OF this] Inl show ?thesis
    by (auto simp: tsa_spectral_index_def)
next
  case (Inr r)
  then show ?thesis by (cases r) (simp add: tsa_spectral_index_def)
qed

text \<open>
  The theorem at a request for the unlisted identifier 7, where the call returns.
\<close>

theorem dispatcher_returns_success_witness:
  "tsa_index \<lparr>tsa_index = (\<lambda>i. IDX_unlisted 7), tsa_sma = sma_one\<rparr> 0 = IDX_unlisted 7
   \<and> (\<exists>ts' out. tsa_spectral_index gsl_plain exp_unused (\<lambda>t. frame_zero) ts_zero None 1 1 0
          (-9999) \<lparr>tsa_index = (\<lambda>i. IDX_unlisted 7), tsa_sma = sma_one\<rparr> sen_six em_one
        = Inr (SUCCESS, ts', out))"
  using dispatcher_returns_success_or_exits
    [where tsa = "\<lparr>tsa_index = (\<lambda>i. IDX_unlisted 7), tsa_sma = sma_one\<rparr>" and idx = 0
       and G = gsl_plain and libm_exp = exp_unused and ard = "\<lambda>t. frame_zero"
       and ts = ts_zero and maskp = None and nc = 1 and nt = 1 and nodata = "-9999"
       and sen = sen_six and em = em_one]
  by simp

text \<open>
  A call that does not return: a mixture analysis with an endmember table of one band on
  frames of two bands leaves through \<^verbatim>\<open>exit(1)\<close>.
\<close>

theorem dispatcher_exit_counterexample:
  "tsa_spectral_index gsl_plain exp_unused (\<lambda>t. frame_zero\<lparr>nbands := 2\<rparr>) ts_zero None 1 1 0
      (-9999) tsa_unmix sen_six em_one = Inl Fatal_exit"
  by (simp add: tsa_spectral_index_def tsa_unmix_def index_unmixed_def em_one_def
      frame_zero_def kernel_done_def)

end
